(* ===== verification/Prelude.thy ===== *)
theory Prelude
  imports Complex_Main
begin

text \<open>
  Shared material of the development: Python exceptions as values, sequencing of
  fallible operations, the predicate used to specify them, list indexing and slicing
  as Python does them, and the collections of rewrite rules of the components.
\<close>

named_theorems res_simps \<open>evaluation of fallible operations\<close>
named_theorems byte_intros \<open>operations whose results are octets\<close>

subsection \<open>Exceptions and results\<close>

text \<open>
  An uncaught Python exception unwinds the event loop and ends the process; a fallible
  operation returns either the exception or its result.
\<close>

datatype excecao =
    IndexError
  | KeyError
  | TypeError
  | ValueError
  | AttributeError
  | NameError
  | OverflowError
  | OSErro
  | Excecao string
  | SystemExit int

type_synonym 'a res = "excecao + 'a"

definition res_bind :: "'a res \<Rightarrow> ('a \<Rightarrow> 'b res) \<Rightarrow> 'b res" where
  "res_bind m f = (case m of Inl e \<Rightarrow> Inl e | Inr x \<Rightarrow> f x)"

lemma res_bind_Inl [simp]: "res_bind (Inl e) f = Inl e"
  by (simp add: res_bind_def)

lemma res_bind_Inr [simp]: "res_bind (Inr x) f = f x"
  by (simp add: res_bind_def)

lemma res_bind_Inr_iff:
  "res_bind m f = Inr y \<longleftrightarrow> (\<exists>x. m = Inr x \<and> f x = Inr y)"
  by (cases m) simp_all

lemma res_bind_assoc:
  "res_bind (res_bind m f) g = res_bind m (\<lambda>x. res_bind (f x) g)"
  by (cases m) simp_all

lemma res_bind_cong [fundef_cong]:
  "m = m' \<Longrightarrow> (\<And>x. m' = Inr x \<Longrightarrow> f x = f' x) \<Longrightarrow> res_bind m f = res_bind m' f'"
  by (cases m') simp_all

text \<open>
  \<open>res_sat E Q m\<close>: if \<open>m\<close> raises, the exception is one of \<open>E\<close>; if it returns, the
  result satisfies \<open>Q\<close>. With \<open>E = (\<lambda>_. False)\<close> it also says that \<open>m\<close> returns.
\<close>

definition res_sat :: "(excecao \<Rightarrow> bool) \<Rightarrow> ('a \<Rightarrow> bool) \<Rightarrow> 'a res \<Rightarrow> bool" where
  "res_sat E Q m = (case m of Inl e \<Rightarrow> E e | Inr x \<Rightarrow> Q x)"

lemma res_sat_Inl [simp]: "res_sat E Q (Inl e) = E e"
  by (simp add: res_sat_def)

lemma res_sat_Inr [simp]: "res_sat E Q (Inr x) = Q x"
  by (simp add: res_sat_def)

lemma res_sat_bind [simp]:
  "res_sat E Q (res_bind m f) = res_sat E (\<lambda>x. res_sat E Q (f x)) m"
  by (cases m) simp_all

lemma res_sat_if [simp]:
  "res_sat E Q (if b then m else n) = (if b then res_sat E Q m else res_sat E Q n)"
  by simp

lemma res_sat_mono:
  assumes "res_sat E R m" and "\<And>x. R x \<Longrightarrow> Q x" and "\<And>e. E e \<Longrightarrow> F e"
  shows "res_sat F Q m"
  using assms by (cases m) auto

lemma res_sat_bindI:
  "res_sat E R m \<Longrightarrow> (\<And>x. R x \<Longrightarrow> res_sat E Q (f x)) \<Longrightarrow> res_sat E Q (res_bind m f)"
  by (cases m) auto

lemma res_sat_conj:
  "res_sat E Q m \<Longrightarrow> res_sat E R m \<Longrightarrow> res_sat E (\<lambda>x. Q x \<and> R x) m"
  by (cases m) auto

lemma res_sat_InrD: "res_sat E Q m \<Longrightarrow> m = Inr x \<Longrightarrow> Q x"
  by simp

lemma res_sat_InlD: "res_sat E Q m \<Longrightarrow> m = Inl e \<Longrightarrow> E e"
  by simp

lemma res_sat_total: "res_sat (\<lambda>_. False) Q m \<longleftrightarrow> (\<exists>x. m = Inr x \<and> Q x)"
  by (cases m) auto

subsection \<open>Indexing and slicing\<close>

definition py_nth :: "'a list \<Rightarrow> nat \<Rightarrow> 'a res" where
  "py_nth xs i = (if i < length xs then Inr (xs ! i) else Inl IndexError)"

definition fatia :: "nat \<Rightarrow> nat \<Rightarrow> 'a list \<Rightarrow> 'a list" where
  "fatia a b xs = drop a (take b xs)"

lemma py_nth_ok [simp]: "i < length xs \<Longrightarrow> py_nth xs i = Inr (xs ! i)"
  by (simp add: py_nth_def)

lemma py_nth_erro [simp]: "length xs \<le> i \<Longrightarrow> py_nth xs i = Inl IndexError"
  by (simp add: py_nth_def)

lemma length_fatia [simp]: "length (fatia a b xs) = min b (length xs) - a"
  by (simp add: fatia_def)

lemma fatia_nth [simp]:
  "a + i < b \<Longrightarrow> b \<le> length xs \<Longrightarrow> fatia a b xs ! i = xs ! (a + i)"
  by (simp add: fatia_def)

lemma fatia_append: "b \<le> length xs \<Longrightarrow> fatia a b (xs @ ys) = fatia a b xs"
  by (simp add: fatia_def)

lemma set_fatia: "set (fatia a b xs) \<subseteq> set xs"
  unfolding fatia_def by (meson set_drop_subset set_take_subset order_trans)

subsection \<open>Octets\<close>

definition byte :: "int \<Rightarrow> bool" where
  "byte n \<longleftrightarrow> 0 \<le> n \<and> n < 256"

definition bytes :: "int list \<Rightarrow> bool" where
  "bytes ns \<longleftrightarrow> list_all byte ns"

lemma bytes_Nil [simp]: "bytes []"
  by (simp add: bytes_def)

lemma bytes_Cons [simp]: "bytes (n # ns) \<longleftrightarrow> byte n \<and> bytes ns"
  by (simp add: bytes_def)

lemma bytes_append [simp]: "bytes (xs @ ys) \<longleftrightarrow> bytes xs \<and> bytes ys"
  by (simp add: bytes_def)

lemma bytes_rev [simp]: "bytes (rev xs) \<longleftrightarrow> bytes xs"
  by (simp add: bytes_def list_all_iff)

lemma bytes_iff: "bytes ns \<longleftrightarrow> (\<forall>n\<in>set ns. byte n)"
  by (simp add: bytes_def list_all_iff)

lemma bytes_subset: "bytes ys \<Longrightarrow> set xs \<subseteq> set ys \<Longrightarrow> bytes xs"
  by (auto simp: bytes_iff)

lemma bytes_take [byte_intros]: "bytes xs \<Longrightarrow> bytes (take k xs)"
  by (erule bytes_subset) (rule set_take_subset)

lemma bytes_drop [byte_intros]: "bytes xs \<Longrightarrow> bytes (drop k xs)"
  by (erule bytes_subset) (rule set_drop_subset)

lemma bytes_fatia [byte_intros]: "bytes xs \<Longrightarrow> bytes (fatia a b xs)"
  by (erule bytes_subset) (rule set_fatia)

lemma bytes_nth: "bytes xs \<Longrightarrow> i < length xs \<Longrightarrow> byte (xs ! i)"
  by (simp add: bytes_iff)

end
