(* ===== verification/Texto.thy ===== *)
theory Texto
  imports Prelude
begin

text \<open>
  The text the program builds: \<^verbatim>\<open>%d\<close>, \<^verbatim>\<open>%02x\<close> and \<^verbatim>\<open>%.6f\<close> formatting, \<^verbatim>\<open>hexprint\<close>, the
  \<^verbatim>\<open>str.format\<close> calls over the event table, and \<^verbatim>\<open>shlex.quote\<close> with a reading of its result by a
  POSIX shell.
\<close>

subsection \<open>Numbers\<close>

definition digito :: "nat \<Rightarrow> char" where
  "digito n = ''0123456789abcdef'' ! n"

fun base_nat :: "nat \<Rightarrow> nat \<Rightarrow> string" where
  "base_nat b n = (if b < 2 \<or> n < b then [digito n] else base_nat b (n div b) @ [digito (n mod b)])"

declare base_nat.simps [simp del]

lemma base_nat_eq:
  "n < 10 \<Longrightarrow> base_nat 10 n = [digito n]"
  "10 \<le> n \<Longrightarrow> base_nat 10 n = base_nat 10 (n div 10) @ [digito (n mod 10)]"
  "n < 16 \<Longrightarrow> base_nat 16 n = [digito n]"
  "16 \<le> n \<Longrightarrow> base_nat 16 n = base_nat 16 (n div 16) @ [digito (n mod 16)]"
  by (subst base_nat.simps, simp)+

definition preenche :: "nat \<Rightarrow> string \<Rightarrow> string" where
  "preenche w s = replicate (w - length s) CHR ''0'' @ s"

definition fmt_d :: "int \<Rightarrow> string" where
  "fmt_d i = (if i < 0 then CHR ''-'' # base_nat 10 (nat (- i)) else base_nat 10 (nat i))"

definition fmt_02x :: "int \<Rightarrow> string" where
  "fmt_02x i = (if i < 0 then CHR ''-'' # base_nat 16 (nat (- i)) else preenche 2 (base_nat 16 (nat i)))"

definition fmt_02d :: "int \<Rightarrow> string" where
  "fmt_02d i = (if i < 0 then fmt_d i else preenche 2 (fmt_d i))"

text \<open>\<^verbatim>\<open>%.6f\<close>: the nearest multiple of a millionth, ties to even.\<close>

definition arredonda :: "rat \<Rightarrow> int" where
  "arredonda x =
    (let f = \<lfloor>x\<rfloor>; d = x - of_int f
     in if d < 1/2 \<or> (d = 1/2 \<and> even f) then f else f + 1)"

definition fmt_6f :: "rat \<Rightarrow> string" where
  "fmt_6f t =
    (let m = arredonda (\<bar>t\<bar> * 1000000)
     in (if t < 0 then ''-'' else []) @ base_nat 10 (nat (m div 1000000)) @ ''.'' @
        preenche 6 (base_nat 10 (nat (m mod 1000000))))"

fun join :: "string \<Rightarrow> string list \<Rightarrow> string" where
  "join sep [] = []"
| "join sep [s] = s"
| "join sep (s # ss) = s @ sep @ join sep ss"

definition hexprint :: "int list \<Rightarrow> string" where
  "hexprint buf = join '', '' (map fmt_02x buf)"

subsection \<open>Decimal numbers can be read back\<close>

definition valor_digito :: "char \<Rightarrow> nat" where
  "valor_digito c = of_char c - 48"

definition le_nat :: "string \<Rightarrow> nat" where
  "le_nat s = foldl (\<lambda>v c. 10 * v + valor_digito c) 0 s"

lemma lt_10_cases: "n < (10::nat) \<Longrightarrow> n \<in> {0,1,2,3,4,5,6,7,8,9}"
  by auto

lemma valor_digito_digito: "n < 10 \<Longrightarrow> valor_digito (digito n) = n"
  by (drule lt_10_cases) (auto simp: digito_def valor_digito_def)

lemma le_nat_base: "le_nat (base_nat 10 n) = n"
proof (induction n rule: less_induct)
  case (less n)
  show ?case
  proof (cases "n < 10")
    case True
    then show ?thesis by (simp add: base_nat_eq le_nat_def valor_digito_digito)
  next
    case False
    with less.IH [of "n div 10"] show ?thesis
      by (simp add: base_nat_eq le_nat_def valor_digito_digito)
  qed
qed

lemma base_nat_inj: "base_nat 10 m = base_nat 10 n \<longleftrightarrow> m = n"
  using le_nat_base by metis

lemma base_nat_digitos: "set (base_nat 10 n) \<subseteq> set ''0123456789''"
proof (induction n rule: less_induct)
  case (less n)
  have "m < 10 \<Longrightarrow> digito m \<in> set ''0123456789''" for m
    by (drule lt_10_cases) (auto simp: digito_def)
  then show ?case using less.IH [of "n div 10"] by (cases "n < 10") (auto simp: base_nat_eq)
qed

subsection \<open>Format strings of the event table\<close>

text \<open>
  \<open>formatar zona particao t\<close> is \<^verbatim>\<open>t.format(zona=zona, particao=particao)\<close> for format strings
  whose only replacement fields are plain names: another name raises \<^verbatim>\<open>KeyError\<close>, a brace
  that opens or closes no field \<^verbatim>\<open>ValueError\<close>.
\<close>

function formatar :: "int \<Rightarrow> int \<Rightarrow> string \<Rightarrow> string res" where
  "formatar zona particao [] = Inr []"
| "formatar zona particao (c # cs) =
    (if take 6 (c # cs) = ''{zona}''
       then res_bind (formatar zona particao (drop 5 cs)) (\<lambda>r. Inr (fmt_d zona @ r))
     else if take 10 (c # cs) = ''{particao}''
       then res_bind (formatar zona particao (drop 9 cs)) (\<lambda>r. Inr (fmt_d particao @ r))
     else if c = CHR ''{'' then Inl (if CHR ''}'' \<in> set cs then KeyError else ValueError)
     else if c = CHR ''}'' then Inl ValueError
     else res_bind (formatar zona particao cs) (\<lambda>r. Inr (c # r)))"
  by pat_completeness auto
termination
  by (relation "measure (\<lambda>(z, p, s). length s)") auto

subsection \<open>Shell quoting\<close>

abbreviation aspa :: char where "aspa \<equiv> CHR 0x27"
abbreviation aspas :: char where "aspas \<equiv> CHR 0x22"

definition char_seguro :: "char \<Rightarrow> bool" where
  "char_seguro c \<longleftrightarrow>
    c \<in> set ''abcdefghijklmnopqrstuvwxyzABCDEFGHIJKLMNOPQRSTUVWXYZ0123456789_@%+=:,./-''"

definition shlex_quote :: "string \<Rightarrow> string" where
  "shlex_quote s =
    (if s = [] then [aspa, aspa]
     else if list_all char_seguro s then s
     else [aspa] @ concat (map (\<lambda>c. if c = aspa then [aspa, aspas, aspa, aspas, aspa] else [c]) s) @ [aspa])"

text \<open>
  How \<^verbatim>\<open>/bin/sh\<close> reads one word: characters that are safe outside quotes stand for themselves,
  everything between single quotes stands for itself, and so does everything between double
  quotes except the expansion characters. \<open>None\<close> is text that is not a single literal word.
\<close>

datatype modo_sh = Nu | EmAspa | EmAspas

fun sh_palavra :: "modo_sh \<Rightarrow> string \<Rightarrow> string option" where
  "sh_palavra Nu [] = Some []"
| "sh_palavra Nu (c # cs) =
    (if c = aspa then sh_palavra EmAspa cs
     else if c = aspas then sh_palavra EmAspas cs
     else if char_seguro c then map_option (Cons c) (sh_palavra Nu cs)
     else None)"
| "sh_palavra EmAspa [] = None"
| "sh_palavra EmAspa (c # cs) =
    (if c = aspa then sh_palavra Nu cs else map_option (Cons c) (sh_palavra EmAspa cs))"
| "sh_palavra EmAspas [] = None"
| "sh_palavra EmAspas (c # cs) =
    (if c = aspas then sh_palavra Nu cs
     else if c \<in> set ''$`!'' \<or> c = CHR 0x5C then None
     else map_option (Cons c) (sh_palavra EmAspas cs))"

lemma aspas_inseguras [simp]: "\<not> char_seguro aspa" "\<not> char_seguro aspas"
  by (simp_all add: char_seguro_def)

lemma sh_palavra_segura: "list_all char_seguro s \<Longrightarrow> sh_palavra Nu s = Some s"
  by (induction s) (auto simp del: aspas_inseguras, (simp add: char_seguro_def)+)

lemma sh_palavra_citada:
  "sh_palavra EmAspa
    (concat (map (\<lambda>c. if c = aspa then [aspa, aspas, aspa, aspas, aspa] else [c]) s) @ [aspa]) = Some s"
  by (induction s) simp_all

lemma sh_palavra_shlex_quote: "sh_palavra Nu (shlex_quote s) = Some s"
  by (simp add: shlex_quote_def sh_palavra_segura sh_palavra_citada)

end
