(* ===== verification/Ambiente.thy ===== *)
theory Ambiente
  imports Texto
begin

text \<open>
  What the program reads from the operating system during one cycle of the event loop: the
  outcome of each socket call, of opening a file and the wall-clock date. A cycle performs
  each of these calls at most once, so one value of each is enough.
\<close>

datatype recv_res = RecvErro | RecvDados "int list"
datatype send_res = SendErro | SendOk int
datatype accept_res = AcceptErro | AcceptOk string int
datatype connect_res = ConnectNome | ConnectErro | ConnectPendente | ConnectOk

text \<open>\<^verbatim>\<open>datetime.datetime.now()\<close>: \<open>dia_semana\<close> is \<^verbatim>\<open>weekday()\<close>, 0 for Monday.\<close>

record data_hora =
  ano :: int
  mes :: int
  dia :: int
  dia_semana :: int
  hora :: int
  minuto :: int
  segundo :: int

record ambiente =
  a_recv :: recv_res
  a_send :: send_res
  a_so_error :: bool
  a_accept :: accept_res
  a_connect :: connect_res
  a_open_ok :: bool
  a_data_hora :: data_hora

text \<open>\<^verbatim>\<open>strftime("%Y-%m-%d %H:%M:%S")\<close>\<close>

definition data_hora_str :: "data_hora \<Rightarrow> string" where
  "data_hora_str d =
    fmt_d (ano d) @ ''-'' @ fmt_02d (mes d) @ ''-'' @ fmt_02d (dia d) @ '' '' @
    fmt_02d (hora d) @ '':'' @ fmt_02d (minuto d) @ '':'' @ fmt_02d (segundo d)"

text \<open>
  Documented behaviour of the calls: \<^verbatim>\<open>recv(4096)\<close> returns octets; \<^verbatim>\<open>send\<close> reports how many
  octets it took, at most what it was given; the fields of a date are in their ranges and
  the clock is past the year 2000.
\<close>

definition data_hora_valida :: "data_hora \<Rightarrow> bool" where
  "data_hora_valida d \<longleftrightarrow>
    2000 \<le> ano d \<and> ano d \<le> 2099 \<and> 1 \<le> mes d \<and> mes d \<le> 12 \<and> 1 \<le> dia d \<and> dia d \<le> 31 \<and>
    0 \<le> dia_semana d \<and> dia_semana d \<le> 6 \<and> 0 \<le> hora d \<and> hora d \<le> 23 \<and>
    0 \<le> minuto d \<and> minuto d \<le> 59 \<and> 0 \<le> segundo d \<and> segundo d \<le> 59"

definition recv_valido :: "recv_res \<Rightarrow> bool" where
  "recv_valido r = (case r of RecvErro \<Rightarrow> True | RecvDados d \<Rightarrow> bytes d)"

end
