(* ===== verification/Registro.thy ===== *)
theory Registro
  imports Ambiente
begin

text \<open>
  The logger of \<^verbatim>\<open>alarmeitbl/myeventloop/__init__.py\<close> (class \<^verbatim>\<open>Log\<close>): which sinks a message
  reaches and with what text. The class attributes are the record \<open>log_estado\<close>.
\<close>

datatype nivel = ERROR | WARN | INFO | DEBUG | DEBUG2

fun nivel_int :: "nivel \<Rightarrow> int" where
  "nivel_int ERROR = 0"
| "nivel_int WARN = 1"
| "nivel_int INFO = 2"
| "nivel_int DEBUG = 3"
| "nivel_int DEBUG2 = 4"

lemma nivel_int_inj: "nivel_int a = nivel_int b \<Longrightarrow> a = b"
  by (cases a; cases b) simp_all

instantiation nivel :: linorder
begin

definition less_eq_nivel :: "nivel \<Rightarrow> nivel \<Rightarrow> bool" where
  "less_eq_nivel a b \<longleftrightarrow> nivel_int a \<le> nivel_int b"

definition less_nivel :: "nivel \<Rightarrow> nivel \<Rightarrow> bool" where
  "less_nivel a b \<longleftrightarrow> nivel_int a < nivel_int b"

instance
  by standard (auto simp: less_eq_nivel_def less_nivel_def dest: nivel_int_inj)

end

record log_estado =
  log_level :: nivel
  logfile :: string
  is_daemon :: bool
  mail_level :: nivel
  mail_from :: string
  mail_to :: string

definition log_inicial :: log_estado where
  "log_inicial = \<lparr>log_level = DEBUG2, logfile = ''None'', is_daemon = False,
     mail_level = INFO, mail_from = ''None'', mail_to = ''None''\<rparr>"

definition set_level :: "nivel \<Rightarrow> log_estado \<Rightarrow> log_estado" where
  "set_level new_level l = l\<lparr>log_level := new_level\<rparr>"

definition set_mail :: "nivel \<Rightarrow> string \<Rightarrow> string \<Rightarrow> log_estado \<Rightarrow> log_estado" where
  "set_mail n de para l = l\<lparr>mail_level := n, mail_from := de, mail_to := para\<rparr>"

definition set_file :: "string \<Rightarrow> log_estado \<Rightarrow> log_estado" where
  "set_file nome l = l\<lparr>logfile := nome\<rparr>"

definition daemonize :: "log_estado \<Rightarrow> log_estado" where
  "daemonize l = l\<lparr>is_daemon := True\<rparr>"

datatype destino = Stdout string | Arquivo string string | Sendmail string

definition log_mail :: "log_estado \<Rightarrow> string \<Rightarrow> string" where
  "log_mail l msg =
    (let crlf = [CHR 0x0D, CHR 0x0A]
     in ''From: '' @ mail_from l @ crlf @ ''To: '' @ mail_to l @ crlf @
        ''Subject: vmonitor'' @ crlf @ crlf @ msg @ crlf)"

fun log_texto :: "string \<Rightarrow> string list \<Rightarrow> string" where
  "log_texto msgw [] = msgw"
| "log_texto msgw (item # msg) = log_texto (msgw @ '' '' @ item) msg"

definition log_log :: "log_estado \<Rightarrow> data_hora \<Rightarrow> nivel \<Rightarrow> string list \<Rightarrow> destino list" where
  "log_log l agora level msg =
    (let msgw = log_texto (data_hora_str agora) msg
     in (if level \<le> log_level l
         then (if \<not> is_daemon l then [Stdout (msgw @ [CHR 0x0A])] else []) @
              (if logfile l \<noteq> ''None'' then [Arquivo (logfile l) (msgw @ [CHR 0x0D, CHR 0x0A])] else [])
         else []) @
        (if level \<le> mail_level l \<and> mail_from l \<noteq> ''None'' \<and> mail_to l \<noteq> ''None''
         then [Sendmail (log_mail l msgw)] else []))"

definition log_error :: "log_estado \<Rightarrow> data_hora \<Rightarrow> string list \<Rightarrow> destino list" where
  "log_error l agora msg = log_log l agora ERROR msg"

definition log_warn :: "log_estado \<Rightarrow> data_hora \<Rightarrow> string list \<Rightarrow> destino list" where
  "log_warn l agora msg = log_log l agora WARN msg"

definition log_info :: "log_estado \<Rightarrow> data_hora \<Rightarrow> string list \<Rightarrow> destino list" where
  "log_info l agora msg = log_log l agora INFO msg"

definition log_debug :: "log_estado \<Rightarrow> data_hora \<Rightarrow> string list \<Rightarrow> destino list" where
  "log_debug l agora msg = log_log l agora DEBUG msg"

definition log_debug2 :: "log_estado \<Rightarrow> data_hora \<Rightarrow> string list \<Rightarrow> destino list" where
  "log_debug2 l agora msg = log_log l agora DEBUG2 msg"

subsection \<open>Daemonisation\<close>

text \<open>
  \<^verbatim>\<open>background()\<close>: the outcome of each \<^verbatim>\<open>os.fork()\<close> and of the calls that leave the parent's environment,
  in the process that goes on. A name is looked up among those the module imports or defines; \<^verbatim>\<open>sys\<close>,
  which the function uses, is not one of them.
\<close>

datatype fork_res = ForkErro | ForkPai | ForkFilho

record processo =
  pr_cwd :: string
  pr_umask :: int
  pr_lider_sessao :: bool
  pr_log :: log_estado

definition nomes_modulo :: "string list" where
  "nomes_modulo =
    [''time'', ''select'', ''datetime'', ''os'', ''signal'', ''ABC'', ''abstractmethod'',
     ''Log'', ''background'', ''Timeout'', ''Handler'', ''EventLoop'']"

definition py_global :: "string \<Rightarrow> unit res" where
  "py_global nome = (if nome \<in> set nomes_modulo then Inr () else Inl NameError)"

definition sys_exit :: "int \<Rightarrow> processo res" where
  "sys_exit n = res_bind (py_global ''sys'') (\<lambda>_. Inl (SystemExit n))"

text \<open>One \<^verbatim>\<open>try\<close> block: the parent exits, a failed fork is reported and exits, the child goes on.\<close>

definition fork_ou_sai :: "fork_res \<Rightarrow> processo \<Rightarrow> processo res" where
  "fork_ou_sai f p =
    (case f of
       ForkErro \<Rightarrow> res_bind (py_global ''sys'') (\<lambda>_. sys_exit 1)
     | ForkPai \<Rightarrow> sys_exit 0
     | ForkFilho \<Rightarrow> Inr p)"

definition background :: "fork_res \<Rightarrow> bool \<Rightarrow> bool \<Rightarrow> fork_res \<Rightarrow> processo \<Rightarrow> processo res" where
  "background fork1 chdir_ok setsid_ok fork2 p =
    res_bind (fork_ou_sai fork1 p) (\<lambda>p.
    res_bind (if chdir_ok then Inr (p\<lparr>pr_cwd := ''/''\<rparr>) else Inl OSErro) (\<lambda>p.
    let p = p\<lparr>pr_umask := 0\<rparr> in
    res_bind (if setsid_ok then Inr (p\<lparr>pr_lider_sessao := True\<rparr>) else Inl OSErro) (\<lambda>p.
    res_bind (fork_ou_sai fork2 p) (\<lambda>p.
    let p = p\<lparr>pr_lider_sessao := False\<rparr>
    in Inr (p\<lparr>pr_log := daemonize (pr_log p)\<rparr>)))))"

lemma log_texto_eq: "log_texto m msg = m @ concat (map (\<lambda>i. '' '' @ i) msg)"
  by (induction msg arbitrary: m) simp_all

end
