(* ===== verification/Temporizador.thy ===== *)
theory Temporizador
  imports Registro
begin

text \<open>
  The deferred tasks of \<^verbatim>\<open>alarmeitbl/myeventloop/__init__.py\<close> (class \<^verbatim>\<open>Timeout\<close>).
  \<open>Timeout.pending\<close> is a Python dict keyed by object identity: the list \<open>pending\<close> holds its
  keys in insertion order and \<open>tobjs\<close> the objects, which outlive their presence in the dict.
  Every object (timeout, handler, socket) gets the next number of \<open>prox\<close> as its identity.
  Times are exact rationals where Python has floats. The state is the first layer of the
  program's state; the type of callbacks is left open.
\<close>

record 'cb timeout =
  to_owner :: "nat option"
  to_label :: string
  to_relative :: rat
  to_absolute :: rat
  to_callback :: 'cb
  to_invalid :: bool

record 'cb relogio =
  agora :: rat
  tobjs :: "nat \<Rightarrow> 'cb timeout"
  pending :: "nat list"
  prox :: nat

subsection \<open>Definitions\<close>

fun next_laco :: "(nat \<Rightarrow> 'cb timeout) \<Rightarrow> nat list \<Rightarrow> rat \<Rightarrow> nat option \<Rightarrow> rat \<times> nat option" where
  "next_laco ob [] to chosen = (to, chosen)"
| "next_laco ob (candidate # cs) to chosen =
    (if to_absolute (ob candidate) < to
     then next_laco ob cs (to_absolute (ob candidate)) (Some candidate)
     else next_laco ob cs to chosen)"

definition timeout_next :: "('cb, 'z) relogio_scheme \<Rightarrow> rat \<times> nat option" where
  "timeout_next w = next_laco (tobjs w) (pending w) (agora w + 86400) None"

definition next_absolute :: "('cb, 'z) relogio_scheme \<Rightarrow> rat \<times> string option" where
  "next_absolute w =
    (case timeout_next w of (to, chosen) \<Rightarrow> (to, map_option (\<lambda>t. to_label (tobjs w t)) chosen))"

definition next_relative :: "('cb, 'z) relogio_scheme \<Rightarrow> rat \<times> string option" where
  "next_relative w =
    (case next_absolute w of (absolute_to, chosen) \<Rightarrow> (max 0 (absolute_to - agora w), chosen))"

definition timeout_handle ::
  "('cb \<Rightarrow> nat \<Rightarrow> ('cb, 'z) relogio_scheme \<Rightarrow> ('cb, 'z) relogio_scheme res) \<Rightarrow>
    ('cb, 'z) relogio_scheme \<Rightarrow> (bool \<times> ('cb, 'z) relogio_scheme) res" where
  "timeout_handle chamar w =
    (case timeout_next w of
       (to, None) \<Rightarrow> Inr (False, w)
     | (to, Some chosen) \<Rightarrow>
         if to > agora w then Inr (False, w)
         else res_bind (chamar (to_callback (tobjs w chosen)) chosen
                         (w\<lparr>pending := remove1 chosen (pending w)\<rparr>))
                (\<lambda>w. Inr (True, w)))"

definition invalidate :: "nat \<Rightarrow> ('cb, 'z) relogio_scheme \<Rightarrow> ('cb, 'z) relogio_scheme res" where
  "invalidate t w =
    (if to_invalid (tobjs w t) then Inl (Excecao ''called Timeout.invalidate() twice'')
     else Inr (w\<lparr>tobjs := (tobjs w)(t := (tobjs w t)\<lparr>to_invalid := True\<rparr>)\<rparr>))"

fun cancel_inval_laco :: "nat option \<Rightarrow> nat list \<Rightarrow> ('cb, 'z) relogio_scheme \<Rightarrow> ('cb, 'z) relogio_scheme res" where
  "cancel_inval_laco owner [] w = Inr w"
| "cancel_inval_laco owner (candidate # cs) w =
    (if owner = to_owner (tobjs w candidate)
     then res_bind (invalidate candidate w) (\<lambda>w.
            cancel_inval_laco owner cs (w\<lparr>pending := remove1 candidate (pending w)\<rparr>))
     else cancel_inval_laco owner cs w)"

definition cancel_and_inval_by_owner :: "nat option \<Rightarrow> ('cb, 'z) relogio_scheme \<Rightarrow> ('cb, 'z) relogio_scheme res" where
  "cancel_and_inval_by_owner owner w = cancel_inval_laco owner (pending w) w"

text \<open>Storing under a key that is present keeps its place in the dict.\<close>

definition arma :: "nat \<Rightarrow> ('cb, 'z) relogio_scheme \<Rightarrow> ('cb, 'z) relogio_scheme" where
  "arma t w = w\<lparr>tobjs := (tobjs w)(t := (tobjs w t)\<lparr>to_absolute := agora w + to_relative (tobjs w t)\<rparr>),
                 pending := (if t \<in> set (pending w) then pending w else pending w @ [t])\<rparr>"

definition restart_int :: "nat \<Rightarrow> ('cb, 'z) relogio_scheme \<Rightarrow> ('cb, 'z) relogio_scheme res" where
  "restart_int t w =
    (if to_invalid (tobjs w t) then Inl (Excecao ''called Timeout._restart() on invalidated'')
     else Inr (arma t w))"

definition timeout_new ::
  "nat option \<Rightarrow> string \<Rightarrow> rat \<Rightarrow> 'cb \<Rightarrow> ('cb, 'z) relogio_scheme \<Rightarrow> nat \<times> ('cb, 'z) relogio_scheme" where
  "timeout_new owner label relative_to callback w =
    (let t = prox w;
         ob = \<lparr>to_owner = owner, to_label = label, to_relative = relative_to, to_absolute = 0,
               to_callback = callback, to_invalid = False\<rparr>
     in (t, arma t (w\<lparr>prox := Suc t, tobjs := (tobjs w)(t := ob)\<rparr>)))"

definition remaining :: "nat \<Rightarrow> ('cb, 'z) relogio_scheme \<Rightarrow> rat res" where
  "remaining t w =
    (if to_invalid (tobjs w t) then Inl (Excecao ''called Timeout.remaining() on invalidated'')
     else Inr (max 0 (to_absolute (tobjs w t) - agora w)))"

definition restart :: "nat \<Rightarrow> ('cb, 'z) relogio_scheme \<Rightarrow> ('cb, 'z) relogio_scheme res" where
  "restart t w =
    (if to_invalid (tobjs w t) then Inl (Excecao ''called Timeout.restart() on invalidated'')
     else restart_int t w)"

definition reset :: "nat \<Rightarrow> rat \<Rightarrow> ('cb, 'z) relogio_scheme \<Rightarrow> ('cb, 'z) relogio_scheme res" where
  "reset t relative_to w =
    (if to_invalid (tobjs w t) then Inl (Excecao ''called Timeout.reset() on invalidated'')
     else restart t (w\<lparr>tobjs := (tobjs w)(t := (tobjs w t)\<lparr>to_relative := relative_to\<rparr>)\<rparr>))"

definition alive :: "nat \<Rightarrow> ('cb, 'z) relogio_scheme \<Rightarrow> bool res" where
  "alive t w =
    (if to_invalid (tobjs w t) then Inl (Excecao ''called Timeout.alive() on invalidated'')
     else Inr (t \<in> set (pending w)))"

definition cancel :: "nat \<Rightarrow> ('cb, 'z) relogio_scheme \<Rightarrow> (bool \<times> ('cb, 'z) relogio_scheme) res" where
  "cancel t w =
    (if to_invalid (tobjs w t) then Inl (Excecao ''called Timeout.cancel() on invalidated'')
     else res_bind (alive t w) (\<lambda>vivo.
       if \<not> vivo then Inr (False, w)
       else Inr (True, w\<lparr>pending := remove1 t (pending w)\<rparr>)))"

subsection \<open>Abstraction: the table of pending timeouts\<close>

definition pv :: "('cb, 'z) relogio_scheme \<Rightarrow> nat \<Rightarrow> 'cb timeout option" where
  "pv w t = (if t \<in> set (pending w) then Some (tobjs w t) else None)"

text \<open>No duplicates, only allocated objects, and none of them invalidated.\<close>

definition inv_tempo :: "('cb, 'z) relogio_scheme \<Rightarrow> bool" where
  "inv_tempo w \<longleftrightarrow>
    distinct (pending w) \<and> (\<forall>t\<in>set (pending w). t < prox w \<and> \<not> to_invalid (tobjs w t))"

lemma inv_tempo_frame:
  "pending w' = pending w \<Longrightarrow> tobjs w' = tobjs w \<Longrightarrow> prox w' = prox w \<Longrightarrow> inv_tempo w' = inv_tempo w"
  by (simp add: inv_tempo_def)

lemma pv_frame: "pending w' = pending w \<Longrightarrow> tobjs w' = tobjs w \<Longrightarrow> pv w' = pv w"
  by (simp add: pv_def fun_eq_iff)

lemma pv_Some: "pv w t = Some ob \<longleftrightarrow> t \<in> set (pending w) \<and> ob = tobjs w t"
  by (auto simp: pv_def)

lemma pv_None: "pv w t = None \<longleftrightarrow> t \<notin> set (pending w)"
  by (simp add: pv_def)

lemma inv_tempo_valid: "inv_tempo w \<Longrightarrow> pv w t = Some ob \<Longrightarrow> \<not> to_invalid ob \<and> t < prox w"
  by (auto simp: inv_tempo_def pv_Some)

subsection \<open>What each operation does to the table\<close>

lemma timeout_new_eq:
  "timeout_new own l r c w =
    (prox w,
     w\<lparr>prox := Suc (prox w),
       tobjs := (tobjs w)(prox w := \<lparr>to_owner = own, to_label = l, to_relative = r,
                  to_absolute = agora w + r, to_callback = c, to_invalid = False\<rparr>),
       pending := (if prox w \<in> set (pending w) then pending w else pending w @ [prox w])\<rparr>)"
  by (simp add: timeout_new_def arma_def Let_def)

lemma inv_tempo_new: "inv_tempo w \<Longrightarrow> inv_tempo (snd (timeout_new own l r c w))"
  by (auto simp: inv_tempo_def timeout_new_eq)

lemma pv_new:
  "pv (snd (timeout_new own l r c w)) =
    (pv w)(prox w \<mapsto> \<lparr>to_owner = own, to_label = l, to_relative = r,
                  to_absolute = agora w + r, to_callback = c, to_invalid = False\<rparr>)"
  by (auto simp: fun_eq_iff pv_def timeout_new_eq)

lemma pv_prox: "inv_tempo w \<Longrightarrow> pv w (prox w) = None"
  by (auto simp: inv_tempo_def pv_def)

lemma cancel_eq:
  "\<not> to_invalid (tobjs w t) \<Longrightarrow>
    cancel t w = Inr (t \<in> set (pending w), w\<lparr>pending := remove1 t (pending w)\<rparr>)"
  by (simp add: cancel_def alive_def remove1_idem)

lemma inv_tempo_remove1: "inv_tempo w \<Longrightarrow> inv_tempo (w\<lparr>pending := remove1 t (pending w)\<rparr>)"
  by (auto simp: inv_tempo_def notin_set_remove1 dest: notin_set_remove1 intro: set_remove1_subset [THEN subsetD])

lemma pv_remove1: "inv_tempo w \<Longrightarrow> pv (w\<lparr>pending := remove1 t (pending w)\<rparr>) = (pv w)(t := None)"
  by (auto simp: fun_eq_iff pv_def inv_tempo_def)

lemma restart_eq: "\<not> to_invalid (tobjs w t) \<Longrightarrow> restart t w = Inr (arma t w)"
  by (simp add: restart_def restart_int_def)

lemma restart_invalid: "to_invalid (tobjs w t) \<Longrightarrow> restart t w = Inl (Excecao ''called Timeout.restart() on invalidated'')"
  by (simp add: restart_def)

lemma inv_tempo_arma:
  "inv_tempo w \<Longrightarrow> t < prox w \<Longrightarrow> \<not> to_invalid (tobjs w t) \<Longrightarrow> inv_tempo (arma t w)"
  by (auto simp: inv_tempo_def arma_def)

lemma pv_arma:
  "pv (arma t w) = (pv w)(t \<mapsto> (tobjs w t)\<lparr>to_absolute := agora w + to_relative (tobjs w t)\<rparr>)"
  by (auto simp: fun_eq_iff pv_def arma_def)

lemma reset_eq:
  "\<not> to_invalid (tobjs w t) \<Longrightarrow>
    reset t r w = Inr (arma t (w\<lparr>tobjs := (tobjs w)(t := (tobjs w t)\<lparr>to_relative := r\<rparr>)\<rparr>))"
  by (simp add: reset_def restart_eq)

text \<open>Invalidating the pending timeouts of one owner.\<close>

definition invalida_de :: "nat option \<Rightarrow> nat list \<Rightarrow> (nat \<Rightarrow> 'cb timeout) \<Rightarrow> nat \<Rightarrow> 'cb timeout" where
  "invalida_de own ts ob t =
    (if t \<in> set ts \<and> to_owner (ob t) = own then (ob t)\<lparr>to_invalid := True\<rparr> else ob t)"

lemma cancel_inval_laco_eq:
  assumes "distinct ts" and "\<forall>t\<in>set ts. \<not> to_invalid (tobjs w t)"
  shows "cancel_inval_laco own ts w =
    Inr (w\<lparr>tobjs := invalida_de own ts (tobjs w),
           pending := foldl (\<lambda>p t. if to_owner (tobjs w t) = own then remove1 t p else p) (pending w) ts\<rparr>)"
  using assms
proof (induction ts arbitrary: w)
  case Nil
  have "invalida_de own [] (tobjs w) = tobjs w" by (simp add: invalida_de_def fun_eq_iff)
  then show ?case by simp
next
  case (Cons t ts)
  show ?case
  proof (cases "to_owner (tobjs w t) = own")
    case True
    let ?w = "w\<lparr>tobjs := (tobjs w)(t := (tobjs w t)\<lparr>to_invalid := True\<rparr>),
                pending := remove1 t (pending w)\<rparr>"
    have inv: "\<forall>u\<in>set ts. \<not> to_invalid (tobjs ?w u)" using Cons.prems by auto
    have own': "to_owner (tobjs ?w u) = to_owner (tobjs w u)" for u by simp
    have ob: "invalida_de own ts (tobjs ?w) = invalida_de own (t # ts) (tobjs w)"
      using Cons.prems True by (auto simp: invalida_de_def fun_eq_iff)
    have "cancel_inval_laco own (t # ts) w = cancel_inval_laco own ts ?w"
      using Cons.prems True by (simp add: invalidate_def)
    also have "\<dots> = Inr (?w\<lparr>tobjs := invalida_de own ts (tobjs ?w),
           pending := foldl (\<lambda>p u. if to_owner (tobjs ?w u) = own then remove1 u p else p) (pending ?w) ts\<rparr>)"
      by (rule Cons.IH) (use Cons.prems inv in simp_all)
    finally show ?thesis unfolding own' ob using True by simp
  next
    case False
    then have "invalida_de own (t # ts) (tobjs w) = invalida_de own ts (tobjs w)"
      by (auto simp: invalida_de_def fun_eq_iff)
    with False Cons show ?thesis by simp
  qed
qed

lemma foldl_remove1:
  "distinct p \<Longrightarrow> set (foldl (\<lambda>p t. if P t then remove1 t p else p) p ts) = set p - {t \<in> set ts. P t}
    \<and> distinct (foldl (\<lambda>p t. if P t then remove1 t p else p) p ts)"
  by (induction ts arbitrary: p) auto

lemma cancel_owner_eq:
  assumes "inv_tempo w"
  obtains ps where
    "cancel_and_inval_by_owner own w =
      Inr (w\<lparr>tobjs := invalida_de own (pending w) (tobjs w), pending := ps\<rparr>)"
    and "distinct ps" and "set ps = {t \<in> set (pending w). to_owner (tobjs w t) \<noteq> own}"
proof -
  let ?ps = "foldl (\<lambda>p t. if to_owner (tobjs w t) = own then remove1 t p else p) (pending w) (pending w)"
  from assms have d: "distinct (pending w)" by (simp add: inv_tempo_def)
  have "set ?ps = {t \<in> set (pending w). to_owner (tobjs w t) \<noteq> own}" "distinct ?ps"
    using foldl_remove1 [OF d, of "\<lambda>t. to_owner (tobjs w t) = own" "pending w"] by auto
  moreover have "cancel_and_inval_by_owner own w =
      Inr (w\<lparr>tobjs := invalida_de own (pending w) (tobjs w), pending := ?ps\<rparr>)"
    unfolding cancel_and_inval_by_owner_def
    by (rule cancel_inval_laco_eq) (use assms in \<open>auto simp: inv_tempo_def\<close>)
  ultimately show ?thesis using that by blast
qed

subsection \<open>The next timeout\<close>

lemma next_laco_None:
  "next_laco ob ts to ch = (to', None) \<longleftrightarrow> ch = None \<and> to' = to \<and> (\<forall>t\<in>set ts. to \<le> to_absolute (ob t))"
proof (induction ts arbitrary: to ch)
  case (Cons t ts)
  then show ?case by (cases "to_absolute (ob t) < to") auto
qed auto

lemma next_laco_Some:
  assumes "next_laco ob ts to ch = (to', Some c)"
  shows "(ch = Some c \<and> to' = to \<and> (\<forall>t\<in>set ts. to \<le> to_absolute (ob t))) \<or>
    (\<exists>as bs. ts = as @ c # bs \<and> to' = to_absolute (ob c) \<and> to' < to \<and>
       (\<forall>t\<in>set as. to' < to_absolute (ob t)) \<and> (\<forall>t\<in>set bs. to' \<le> to_absolute (ob t)))"
  using assms
proof (induction ts arbitrary: to ch)
  case Nil
  then show ?case by simp
next
  case (Cons t ts)
  show ?case
  proof (cases "to_absolute (ob t) < to")
    case True
    with Cons.prems have "next_laco ob ts (to_absolute (ob t)) (Some t) = (to', Some c)" by simp
    from Cons.IH [OF this] show ?thesis
    proof (elim disjE exE conjE)
      assume "Some t = Some c" "to' = to_absolute (ob t)" "\<forall>u\<in>set ts. to_absolute (ob t) \<le> to_absolute (ob u)"
      with True have "t # ts = [] @ c # ts \<and> to' = to_absolute (ob c) \<and> to' < to \<and>
        (\<forall>t\<in>set []. to' < to_absolute (ob t)) \<and> (\<forall>t\<in>set ts. to' \<le> to_absolute (ob t))" by simp
      then show ?thesis by blast
    next
      fix as bs
      assume "ts = as @ c # bs" "to' = to_absolute (ob c)" "to' < to_absolute (ob t)"
        "\<forall>t\<in>set as. to' < to_absolute (ob t)" "\<forall>t\<in>set bs. to' \<le> to_absolute (ob t)"
      with True have "t # ts = (t # as) @ c # bs \<and> to' = to_absolute (ob c) \<and> to' < to \<and>
        (\<forall>t\<in>set (t # as). to' < to_absolute (ob t)) \<and> (\<forall>t\<in>set bs. to' \<le> to_absolute (ob t))" by auto
      then show ?thesis by blast
    qed
  next
    case False
    with Cons.prems have "next_laco ob ts to ch = (to', Some c)" by simp
    from Cons.IH [OF this] show ?thesis
    proof (elim disjE exE conjE)
      fix as bs
      assume "ts = as @ c # bs" "to' = to_absolute (ob c)" "to' < to"
        "\<forall>t\<in>set as. to' < to_absolute (ob t)" "\<forall>t\<in>set bs. to' \<le> to_absolute (ob t)"
      with False have "t # ts = (t # as) @ c # bs \<and> to' = to_absolute (ob c) \<and> to' < to \<and>
        (\<forall>t\<in>set (t # as). to' < to_absolute (ob t)) \<and> (\<forall>t\<in>set bs. to' \<le> to_absolute (ob t))" by auto
      then show ?thesis by blast
    qed (use False in auto)
  qed
qed

lemma timeout_next_None:
  "timeout_next w = (to, None) \<longleftrightarrow>
    to = agora w + 86400 \<and> (\<forall>t\<in>set (pending w). agora w + 86400 \<le> to_absolute (tobjs w t))"
  by (auto simp: timeout_next_def next_laco_None)

lemma timeout_next_Some:
  assumes "timeout_next w = (to, Some c)"
  obtains as bs where "pending w = as @ c # bs" and "to = to_absolute (tobjs w c)"
    and "to < agora w + 86400"
    and "\<forall>t\<in>set as. to < to_absolute (tobjs w t)" and "\<forall>t\<in>set bs. to \<le> to_absolute (tobjs w t)"
  using next_laco_Some [OF assms [unfolded timeout_next_def]] by auto

lemma timeout_next_in: "timeout_next w = (to, Some c) \<Longrightarrow> c \<in> set (pending w)"
  by (erule timeout_next_Some) simp

subsection \<open>The timer service as an interface\<close>

text \<open>
  The part of a table that belongs to one owner. Handlers own timeouts; the operations on
  the timeouts of one owner must leave the others' alone.
\<close>

definition de :: "nat option \<Rightarrow> (nat \<Rightarrow> 'cb timeout option) \<Rightarrow> nat \<Rightarrow> 'cb timeout option" where
  "de own m t = (case m t of Some ob \<Rightarrow> if to_owner ob = own then Some ob else None | None \<Rightarrow> None)"

lemma de_upd:
  "de own (m(t \<mapsto> ob)) = (if to_owner ob = own then (de own m)(t \<mapsto> ob) else (de own m)(t := None))"
  by (auto simp: de_def fun_eq_iff)

lemma de_del: "de own (m(t := None)) = (de own m)(t := None)"
  by (auto simp: de_def fun_eq_iff)

lemma de_idem: "de own m t = None \<Longrightarrow> (de own m)(t := None) = de own m"
  by (auto simp: fun_eq_iff)

lemma de_None: "m t = None \<Longrightarrow> de own m t = None"
  by (simp add: de_def)

lemma de_Some: "de own m t = Some ob \<longleftrightarrow> m t = Some ob \<and> to_owner ob = own"
  by (auto simp: de_def split: option.splits)

lemma de_outro: "m t = Some ob \<Longrightarrow> to_owner ob \<noteq> own \<Longrightarrow> de own m t = None"
  by (simp add: de_def)

locale servico_tempo =
  fixes tab :: "'s \<Rightarrow> nat \<Rightarrow> 'cb timeout option"
    and obj :: "'s \<Rightarrow> nat \<Rightarrow> 'cb timeout"
    and ok :: "'s \<Rightarrow> bool"
    and hora_de :: "'s \<Rightarrow> rat"
    and novo :: "nat option \<Rightarrow> string \<Rightarrow> rat \<Rightarrow> 'cb \<Rightarrow> 's \<Rightarrow> nat \<times> 's"
    and cancela :: "nat \<Rightarrow> 's \<Rightarrow> (bool \<times> 's) res"
    and rearma :: "nat \<Rightarrow> 's \<Rightarrow> 's res"
    and encerra :: "nat option \<Rightarrow> 's \<Rightarrow> 's res"
  assumes tab_obj: "tab s t = Some ob \<Longrightarrow> obj s t = ob \<and> \<not> to_invalid ob"
    and novo_fresco: "ok s \<Longrightarrow> tab s (fst (novo own l r c s)) = None"
    and novo_ok: "ok s \<Longrightarrow> ok (snd (novo own l r c s))"
    and novo_tab: "ok s \<Longrightarrow> tab (snd (novo own l r c s)) =
      (tab s)(fst (novo own l r c s) \<mapsto>
        \<lparr>to_owner = own, to_label = l, to_relative = r, to_absolute = hora_de s + r,
         to_callback = c, to_invalid = False\<rparr>)"
    and cancela_tab: "ok s \<Longrightarrow> \<not> to_invalid (obj s t) \<Longrightarrow>
      \<exists>s'. cancela t s = Inr (tab s t \<noteq> None, s') \<and> ok s' \<and> tab s' = (tab s)(t := None)"
    and rearma_tab: "ok s \<Longrightarrow> tab s t = Some ob \<Longrightarrow>
      \<exists>s'. rearma t s = Inr s' \<and> ok s' \<and> hora_de s' = hora_de s \<and>
        tab s' = (tab s)(t \<mapsto> ob\<lparr>to_absolute := hora_de s + to_relative ob\<rparr>)"
    and encerra_tab: "ok s \<Longrightarrow>
      \<exists>s'. encerra own s = Inr s' \<and> ok s' \<and>
        tab s' = (\<lambda>t. case tab s t of Some ob \<Rightarrow> if to_owner ob = own then None else Some ob | None \<Rightarrow> None)"
begin

lemma novo_outro:
  "ok s \<Longrightarrow> own' \<noteq> own \<Longrightarrow> de own' (tab (snd (novo own l r c s))) = de own' (tab s)"
  by (simp add: novo_tab de_upd de_idem de_None novo_fresco)

lemma cancela_outro:
  assumes "ok s" and "tab s t = Some ob" and "to_owner ob \<noteq> own'" and "cancela t s = Inr (b, s')"
  shows "de own' (tab s') = de own' (tab s)"
  using cancela_tab [of s t] tab_obj [OF assms(2)] assms
  by (auto simp: de_del de_idem de_outro)

lemma rearma_outro:
  assumes "ok s" and "tab s t = Some ob" and "to_owner ob \<noteq> own'" and "rearma t s = Inr s'"
  shows "de own' (tab s') = de own' (tab s)"
  using rearma_tab [OF assms(1,2)] assms(2-) by (auto simp: de_upd de_idem de_outro)

lemma encerra_dono: "ok s \<Longrightarrow> encerra own s = Inr s' \<Longrightarrow> de own (tab s') = Map.empty"
  using encerra_tab [of s own] by (auto simp: de_def fun_eq_iff split: option.splits)

lemma encerra_outro:
  "ok s \<Longrightarrow> encerra own s = Inr s' \<Longrightarrow> own' \<noteq> own \<Longrightarrow> de own' (tab s') = de own' (tab s)"
  using encerra_tab [of s own] by (auto simp: de_def fun_eq_iff split: option.splits)

text \<open>A timeout armed and cancelled leaves no trace; one that is restarted is due later.\<close>

lemma novo_cancela:
  assumes "ok s" and "novo own l r c s = (t, s1)"
  shows "\<exists>s2. cancela t s1 = Inr (True, s2) \<and> tab s2 = tab s"
proof -
  from assms have s1: "ok s1" "tab s t = None"
    "tab s1 = (tab s)(t \<mapsto> \<lparr>to_owner = own, to_label = l, to_relative = r,
       to_absolute = hora_de s + r, to_callback = c, to_invalid = False\<rparr>)"
    using novo_ok [of s own l r c] novo_fresco [of s own l r c] novo_tab [of s own l r c] by simp_all
  then have "\<not> to_invalid (obj s1 t)" using tab_obj [of s1 t] by simp
  from cancela_tab [OF s1(1) this] s1 show ?thesis by (auto simp: fun_upd_idem)
qed

end

lemma pv_invalida_de:
  assumes "set ps = {t \<in> set (pending w). to_owner (tobjs w t) \<noteq> own}"
  shows "pv (w\<lparr>tobjs := invalida_de own (pending w) (tobjs w), pending := ps\<rparr>) t =
    (case pv w t of Some ob \<Rightarrow> if to_owner ob = own then None else Some ob | None \<Rightarrow> None)"
  using assms by (auto simp: pv_def invalida_de_def)

lemma inv_tempo_encerra:
  assumes "inv_tempo w" and "distinct ps" and "set ps = {t \<in> set (pending w). to_owner (tobjs w t) \<noteq> own}"
  shows "inv_tempo (w\<lparr>tobjs := invalida_de own (pending w) (tobjs w), pending := ps\<rparr>)"
  using assms by (auto simp: inv_tempo_def invalida_de_def)

interpretation tempo: servico_tempo "\<lambda>w. if inv_tempo w then pv w else Map.empty" tobjs inv_tempo agora
    timeout_new cancel restart cancel_and_inval_by_owner
proof
  fix s :: "('a, 'b) relogio_scheme" and t ob own l r and c :: 'a
  show "(if inv_tempo s then pv s else Map.empty) t = Some ob \<Longrightarrow> tobjs s t = ob \<and> \<not> to_invalid ob"
    by (auto simp: pv_Some inv_tempo_def split: if_splits)
  assume ok: "inv_tempo s"
  show "(if inv_tempo s then pv s else Map.empty) (fst (timeout_new own l r c s)) = None"
    using ok by (simp add: timeout_new_eq pv_prox)
  show "inv_tempo (snd (timeout_new own l r c s))" using ok by (rule inv_tempo_new)
  with ok show "(if inv_tempo (snd (timeout_new own l r c s)) then pv (snd (timeout_new own l r c s)) else Map.empty) =
      (if inv_tempo s then pv s else Map.empty)(fst (timeout_new own l r c s) \<mapsto>
        \<lparr>to_owner = own, to_label = l, to_relative = r, to_absolute = agora s + r,
         to_callback = c, to_invalid = False\<rparr>)"
    by (simp add: pv_new) (simp add: timeout_new_eq)
  show "\<exists>s'. cancel t s = Inr ((if inv_tempo s then pv s else Map.empty) t \<noteq> None, s') \<and> inv_tempo s' \<and>
      (if inv_tempo s' then pv s' else Map.empty) = (if inv_tempo s then pv s else Map.empty)(t := None)"
    if "\<not> to_invalid (tobjs s t)"
    using that ok by (auto simp: cancel_eq inv_tempo_remove1 pv_remove1 pv_None)
  show "\<exists>s'. restart t s = Inr s' \<and> inv_tempo s' \<and> agora s' = agora s \<and>
      (if inv_tempo s' then pv s' else Map.empty) =
      (if inv_tempo s then pv s else Map.empty)(t \<mapsto> ob\<lparr>to_absolute := agora s + to_relative ob\<rparr>)"
    if "(if inv_tempo s then pv s else Map.empty) t = Some ob"
  proof -
    from that ok have "t \<in> set (pending s)" "ob = tobjs s t" by (simp_all add: pv_Some)
    moreover from this ok have "\<not> to_invalid (tobjs s t)" "t < prox s" by (simp_all add: inv_tempo_def)
    moreover from this ok have "inv_tempo (arma t s)" by (simp add: inv_tempo_arma)
    ultimately show ?thesis using ok by (simp add: restart_eq pv_arma) (simp add: arma_def)
  qed
  show "\<exists>s'. cancel_and_inval_by_owner own s = Inr s' \<and> inv_tempo s' \<and>
      (if inv_tempo s' then pv s' else Map.empty) =
      (\<lambda>t. case (if inv_tempo s then pv s else Map.empty) t of
         Some ob \<Rightarrow> if to_owner ob = own then None else Some ob | None \<Rightarrow> None)"
  proof -
    obtain ps where e: "cancel_and_inval_by_owner own s =
        Inr (s\<lparr>tobjs := invalida_de own (pending s) (tobjs s), pending := ps\<rparr>)"
      and d: "distinct ps" "set ps = {t \<in> set (pending s). to_owner (tobjs s t) \<noteq> own}"
      using ok by (rule cancel_owner_eq)
    then show ?thesis using ok inv_tempo_encerra [OF ok d] pv_invalida_de [OF d(2)]
      by (simp add: fun_eq_iff)
  qed
qed

subsection \<open>Properties\<close>

lemma foldl_remove1_filter:
  "distinct p \<Longrightarrow>
    foldl (\<lambda>p t. if P t then remove1 t p else p) p ts = filter (\<lambda>u. \<not> (u \<in> set ts \<and> P u)) p"
proof (induction ts arbitrary: p)
  case (Cons t ts)
  have "foldl (\<lambda>p t. if P t then remove1 t p else p) p (t # ts) =
      filter (\<lambda>u. \<not> (u \<in> set ts \<and> P u)) (if P t then remove1 t p else p)"
    using Cons.IH [of "if P t then remove1 t p else p"] Cons.prems by simp
  also have "(if P t then remove1 t p else p) = filter (\<lambda>u. \<not> (u = t \<and> P t)) p"
    using Cons.prems by (auto simp: distinct_remove1_removeAll removeAll_filter_not_eq intro: filter_cong)
  finally show ?case by (auto intro: filter_cong)
qed simp

text \<open>A table of three timeouts, the last two due, for the examples.\<close>

definition relogio_exemplo :: "nat relogio" where
  "relogio_exemplo =
    (let w = \<lparr>agora = 0, tobjs = (\<lambda>_. \<lparr>to_owner = None, to_label = [], to_relative = 0, to_absolute = 0,
                to_callback = 0, to_invalid = False\<rparr>), pending = [], prox = 10\<rparr>;
         (_, w) = timeout_new (Some 7) ''a'' 60 10 w;
         (_, w) = timeout_new (Some 8) ''b'' 5 11 w;
         (_, w) = timeout_new (Some 7) ''c'' 5 12 w
     in w\<lparr>agora := 9\<rparr>)"

lemma relogio_exemplo_sel:
  "pending relogio_exemplo = [10, 11, 12]" "agora relogio_exemplo = 9"
  "to_absolute (tobjs relogio_exemplo 10) = 60" "to_absolute (tobjs relogio_exemplo 11) = 5"
  "to_absolute (tobjs relogio_exemplo 12) = 5" "inv_tempo relogio_exemplo"
  "to_owner (tobjs relogio_exemplo 10) = Some 7" "to_owner (tobjs relogio_exemplo 11) = Some 8"
  "to_owner (tobjs relogio_exemplo 12) = Some 7" "to_callback (tobjs relogio_exemplo 11) = 11"
  by (simp_all add: relogio_exemplo_def timeout_new_def arma_def Let_def inv_tempo_def eval_nat_numeral)

text \<open>C22. When the loop asks what to wait for, the timeout it is given is the first to expire among all the pending
  ones and, of those that expire together, the oldest in the table. It is given none exactly when none expires within
  a day.\<close>

theorem proximo_prazo:
  "case timeout_next w of
     (to, None) \<Rightarrow> to = agora w + 86400 \<and> (\<forall>t\<in>set (pending w). agora w + 86400 \<le> to_absolute (tobjs w t))
   | (to, Some c) \<Rightarrow> to = to_absolute (tobjs w c) \<and> to < agora w + 86400 \<and>
       (\<exists>antes depois. pending w = antes @ c # depois \<and>
          (\<forall>t\<in>set antes. to < to_absolute (tobjs w t)) \<and> (\<forall>t\<in>set depois. to \<le> to_absolute (tobjs w t)))"
proof (cases "timeout_next w")
  case (Pair to ch)
  show ?thesis
  proof (cases ch)
    case None
    with Pair have "timeout_next w = (to, None)" by simp
    then show ?thesis unfolding timeout_next_None using Pair None by simp
  next
    case (Some c)
    with Pair have "timeout_next w = (to, Some c)" by simp
    then show ?thesis by (rule timeout_next_Some) (use Pair Some in auto)
  qed
qed

theorem proximo_prazo_exemplo: "\<exists>to c. timeout_next relogio_exemplo = (to, Some c) \<and> to = 5"
proof -
  have "snd (timeout_next relogio_exemplo) = Some 11"
    by (simp add: timeout_next_def relogio_exemplo_sel)
  then show ?thesis
    using proximo_prazo [of relogio_exemplo]
    by (cases "timeout_next relogio_exemplo") (auto simp: relogio_exemplo_sel)
qed

text \<open>C23. \<^verbatim>\<open>Timeout.handle\<close> runs a callback exactly when some pending timeout is due: then the one that expired first,
  after taking it out of the table, so that the callback may arm it again; nothing else changes.\<close>

theorem handle_dispara:
  "if \<forall>t\<in>set (pending w). agora w < to_absolute (tobjs w t)
   then timeout_handle chamar w = Inr (False, w)
   else \<exists>t\<in>set (pending w). to_absolute (tobjs w t) \<le> agora w \<and>
     (\<forall>u\<in>set (pending w). to_absolute (tobjs w t) \<le> to_absolute (tobjs w u)) \<and>
     timeout_handle chamar w =
       res_bind (chamar (to_callback (tobjs w t)) t (w\<lparr>pending := remove1 t (pending w)\<rparr>)) (\<lambda>w. Inr (True, w))"
proof (cases "timeout_next w")
  case (Pair to ch)
  show ?thesis
  proof (cases ch)
    case None
    with Pair have "\<forall>t\<in>set (pending w). agora w + 86400 \<le> to_absolute (tobjs w t)"
      by (simp add: timeout_next_None)
    then have "\<forall>t\<in>set (pending w). agora w < to_absolute (tobjs w t)"
      by (auto intro: less_le_trans [of _ "agora w + 86400"])
    with Pair None show ?thesis by (simp add: timeout_handle_def)
  next
    case (Some c)
    with Pair have n: "timeout_next w = (to, Some c)" by simp
    then obtain as bs where p: "pending w = as @ c # bs" "to = to_absolute (tobjs w c)"
      "\<forall>t\<in>set as. to < to_absolute (tobjs w t)" "\<forall>t\<in>set bs. to \<le> to_absolute (tobjs w t)"
      by (rule timeout_next_Some)
    have le: "to \<le> to_absolute (tobjs w u)" if "u \<in> set (pending w)" for u
      using that p bspec [OF p(3), of u, THEN less_imp_le] by auto
    then have c: "c \<in> set (pending w)" "to = to_absolute (tobjs w c)"
      "\<forall>u\<in>set (pending w). to_absolute (tobjs w c) \<le> to_absolute (tobjs w u)"
      using p(1,2) by simp_all
    show ?thesis
    proof (cases "agora w < to")
      case True
      with c have "\<forall>t\<in>set (pending w). agora w < to_absolute (tobjs w t)" by (auto intro: less_le_trans)
      with n True show ?thesis by (simp add: timeout_handle_def)
    next
      case False
      with c(1,2) have "\<not> (\<forall>t\<in>set (pending w). agora w < to_absolute (tobjs w t))" by auto
      moreover have "timeout_handle chamar w =
          res_bind (chamar (to_callback (tobjs w c)) c (w\<lparr>pending := remove1 c (pending w)\<rparr>)) (\<lambda>w. Inr (True, w))"
        using n False by (simp add: timeout_handle_def)
      ultimately show ?thesis using c False by (subst if_not_P) (auto intro!: bexI [of _ c])
    qed
  qed
qed

theorem handle_dispara_exemplo:
  "\<exists>t. timeout_handle (\<lambda>cb t w. Inr w) relogio_exemplo =
    Inr (True, relogio_exemplo\<lparr>pending := remove1 t [10, 11, 12]\<rparr>)"
proof -
  have "\<not> (\<forall>t\<in>set (pending relogio_exemplo). agora relogio_exemplo < to_absolute (tobjs relogio_exemplo t))"
    by (simp add: relogio_exemplo_sel)
  with handle_dispara [of relogio_exemplo "\<lambda>cb t w. Inr w"] show ?thesis
    by (auto simp only: if_False relogio_exemplo_sel(1) res_bind_Inr)
qed

text \<open>C24. Cancelling by owner takes from the table exactly the pending timeouts of that owner and marks them
  invalid, so that arming or cancelling one of them again raises; the others keep their place, and no other
  object changes, not even one of the owner that is not pending.\<close>

theorem cancelamento_por_dono:
  assumes "inv_tempo w"
  shows "\<exists>w'. cancel_and_inval_by_owner own w = Inr w' \<and>
    pending w' = filter (\<lambda>t. to_owner (tobjs w t) \<noteq> own) (pending w) \<and>
    (\<forall>t. if t \<in> set (pending w) \<and> to_owner (tobjs w t) = own
         then restart t w' = Inl (Excecao ''called Timeout.restart() on invalidated'') \<and>
           cancel t w' = Inl (Excecao ''called Timeout.cancel() on invalidated'')
         else tobjs w' t = tobjs w t)"
proof -
  have d: "distinct (pending w)" using assms by (simp add: inv_tempo_def)
  have cong: "filter (\<lambda>t. t \<in> set (pending w) \<longrightarrow> to_owner (tobjs w t) \<noteq> own) (pending w) =
      filter (\<lambda>t. to_owner (tobjs w t) \<noteq> own) (pending w)"
    by (rule filter_cong) auto
  have "cancel_and_inval_by_owner own w = Inr (w\<lparr>tobjs := invalida_de own (pending w) (tobjs w),
      pending := filter (\<lambda>t. to_owner (tobjs w t) \<noteq> own) (pending w)\<rparr>)"
    unfolding cancel_and_inval_by_owner_def
    using assms d cong by (subst cancel_inval_laco_eq) (auto simp: inv_tempo_def foldl_remove1_filter)
  then show ?thesis by (auto simp: invalida_de_def restart_def cancel_def)
qed

theorem cancelamento_por_dono_exemplo:
  "\<exists>w'. cancel_and_inval_by_owner (Some 7) relogio_exemplo = Inr w' \<and> pending w' = [11]"
  using cancelamento_por_dono [OF relogio_exemplo_sel(6), of "Some 7"]
  by (auto simp: relogio_exemplo_sel)

end
