(* ===== verification/Manipulador.thy ===== *)
theory Manipulador
  imports Temporizador
begin

text \<open>
  Handlers and the event loop of \<^verbatim>\<open>alarmeitbl/myeventloop/__init__.py\<close> (classes \<^verbatim>\<open>Handler\<close> and
  \<^verbatim>\<open>EventLoop\<close>). \<open>Handler.items\<close> is a dict in insertion order: \<open>items\<close> holds its keys, \<open>hobjs\<close>
  the objects. The virtual methods of a program are the record \<open>metodos\<close>, a parameter of the
  loop; the class tag of an object is \<open>h_classe\<close>. The answer of \<^verbatim>\<open>select\<close>, with the clock and
  the outcome of the system calls of the cycle, is the record \<open>resposta\<close>.
\<close>

record 'k handler =
  h_label :: string
  h_fd :: nat
  h_destroyed :: bool
  h_classe :: 'k

record ('cb, 'k) registro = "'cb relogio" +
  items :: "nat list"
  hobjs :: "nat \<Rightarrow> 'k handler"
  amb :: ambiente

record ('cb, 'w) metodos =
  is_readable :: "nat \<Rightarrow> 'w \<Rightarrow> bool"
  is_writable :: "nat \<Rightarrow> 'w \<Rightarrow> bool"
  is_exceptional :: "nat \<Rightarrow> 'w \<Rightarrow> bool"
  m_read_callback :: "nat \<Rightarrow> 'w \<Rightarrow> 'w res"
  m_write_callback :: "nat \<Rightarrow> 'w \<Rightarrow> 'w res"
  m_exceptional_callback :: "nat \<Rightarrow> 'w \<Rightarrow> 'w res"
  m_timeout :: "'cb \<Rightarrow> nat \<Rightarrow> 'w \<Rightarrow> 'w res"

record resposta =
  r_rd :: "nat list"
  r_wr :: "nat list"
  r_ex :: "nat list"
  r_agora :: rat
  r_amb :: ambiente

subsection \<open>Handlers\<close>

abbreviation fd_de :: "('cb, 'k, 'z) registro_scheme \<Rightarrow> nat \<Rightarrow> nat" where
  "fd_de w h \<equiv> h_fd (hobjs w h)"

definition readable_fds ::
  "('cb, ('cb, 'k, 'z) registro_scheme) metodos \<Rightarrow> ('cb, 'k, 'z) registro_scheme \<Rightarrow> nat list" where
  "readable_fds M w = map (fd_de w) (filter (\<lambda>h. is_readable M h w) (items w))"

definition writable_fds ::
  "('cb, ('cb, 'k, 'z) registro_scheme) metodos \<Rightarrow> ('cb, 'k, 'z) registro_scheme \<Rightarrow> nat list" where
  "writable_fds M w = map (fd_de w) (filter (\<lambda>h. is_writable M h w) (items w))"

definition exceptional_fds ::
  "('cb, ('cb, 'k, 'z) registro_scheme) metodos \<Rightarrow> ('cb, 'k, 'z) registro_scheme \<Rightarrow> nat list" where
  "exceptional_fds M w = map (fd_de w) (filter (\<lambda>h. is_exceptional M h w) (items w))"

definition find_by_fd :: "nat \<Rightarrow> ('cb, 'k, 'z) registro_scheme \<Rightarrow> nat option" where
  "find_by_fd fd w = List.find (\<lambda>h. fd = fd_de w h) (items w)"

text \<open>The base implementations of the selection predicates.\<close>

definition handler_is_readable :: "nat \<Rightarrow> 'w \<Rightarrow> bool" where
  "handler_is_readable h w = True"

definition handler_is_writable :: "nat \<Rightarrow> 'w \<Rightarrow> bool" where
  "handler_is_writable h w = False"

definition handler_is_exceptional :: "nat \<Rightarrow> 'w \<Rightarrow> bool" where
  "handler_is_exceptional h w = False"

definition handler_init ::
  "string \<Rightarrow> nat \<Rightarrow> 'k \<Rightarrow> ('cb, 'k, 'z) registro_scheme \<Rightarrow> nat \<times> ('cb, 'k, 'z) registro_scheme" where
  "handler_init label fd classe w =
    (let h = prox w;
         ob = \<lparr>h_label = label, h_fd = fd, h_destroyed = False, h_classe = classe\<rparr>
     in (h, w\<lparr>prox := Suc h, hobjs := (hobjs w)(h := ob), items := items w @ [h]\<rparr>))"

text \<open>The base \<^verbatim>\<open>write_callback\<close> does nothing.\<close>

definition handler_write_callback :: "nat \<Rightarrow> 'w \<Rightarrow> 'w res" where
  "handler_write_callback h w = Inr w"

lemma handler_write_callback_eq [simp]: "handler_write_callback h w = Inr w"
  by (simp add: handler_write_callback_def)

text \<open>The base \<^verbatim>\<open>exceptional_callback\<close> destroys the handler.\<close>

definition handler_exceptional_callback :: "(nat \<Rightarrow> 'w \<Rightarrow> 'w res) \<Rightarrow> nat \<Rightarrow> 'w \<Rightarrow> 'w res" where
  "handler_exceptional_callback destroy h w = destroy h w"

text \<open>Logging with the label of the handler in front.\<close>

definition handler_log_error :: "log_estado \<Rightarrow> nat \<Rightarrow> string list \<Rightarrow> ('cb, 'k, 'z) registro_scheme \<Rightarrow> destino list" where
  "handler_log_error l h msg w = log_error l (a_data_hora (amb w)) (h_label (hobjs w h) # msg)"

definition handler_log_warn :: "log_estado \<Rightarrow> nat \<Rightarrow> string list \<Rightarrow> ('cb, 'k, 'z) registro_scheme \<Rightarrow> destino list" where
  "handler_log_warn l h msg w = log_warn l (a_data_hora (amb w)) (h_label (hobjs w h) # msg)"

definition handler_log_info :: "log_estado \<Rightarrow> nat \<Rightarrow> string list \<Rightarrow> ('cb, 'k, 'z) registro_scheme \<Rightarrow> destino list" where
  "handler_log_info l h msg w = log_info l (a_data_hora (amb w)) (h_label (hobjs w h) # msg)"

definition handler_log_debug :: "log_estado \<Rightarrow> nat \<Rightarrow> string list \<Rightarrow> ('cb, 'k, 'z) registro_scheme \<Rightarrow> destino list" where
  "handler_log_debug l h msg w = log_debug l (a_data_hora (amb w)) (h_label (hobjs w h) # msg)"

definition handler_log_debug2 :: "log_estado \<Rightarrow> nat \<Rightarrow> string list \<Rightarrow> ('cb, 'k, 'z) registro_scheme \<Rightarrow> destino list" where
  "handler_log_debug2 l h msg w = log_debug2 l (a_data_hora (amb w)) (h_label (hobjs w h) # msg)"

text \<open>A new socket object: only its identity matters.\<close>

definition novo_socket :: "('cb, 'z) relogio_scheme \<Rightarrow> nat \<times> ('cb, 'z) relogio_scheme" where
  "novo_socket w = (prox w, w\<lparr>prox := Suc (prox w)\<rparr>)"

text \<open>\<open>dcb\<close> is the virtual \<^verbatim>\<open>destroyed_callback\<close>; errors of \<^verbatim>\<open>fd.close()\<close> are swallowed by the code.\<close>

definition handler_destroy ::
  "(nat \<Rightarrow> ('cb, 'k, 'z) registro_scheme \<Rightarrow> ('cb, 'k, 'z) registro_scheme res) \<Rightarrow>
    nat \<Rightarrow> ('cb, 'k, 'z) registro_scheme \<Rightarrow> ('cb, 'k, 'z) registro_scheme res" where
  "handler_destroy dcb h w =
    (if h_destroyed (hobjs w h) then Inl (Excecao ''called Handler.destroy() twice'')
     else res_bind (dcb h w) (\<lambda>w.
       let w = w\<lparr>hobjs := (hobjs w)(h := (hobjs w h)\<lparr>h_destroyed := True\<rparr>)\<rparr>
       in if h \<notin> set (items w) then Inl KeyError
          else cancel_and_inval_by_owner (Some h) (w\<lparr>items := remove1 h (items w)\<rparr>)))"

definition handler_timeout ::
  "nat \<Rightarrow> string \<Rightarrow> rat \<Rightarrow> 'cb \<Rightarrow> ('cb, 'k, 'z) registro_scheme \<Rightarrow>
    (nat \<times> ('cb, 'k, 'z) registro_scheme) res" where
  "handler_timeout h label relative_to callback w =
    (if h_destroyed (hobjs w h) then Inl (Excecao ''called Handler.timeout() after destroy()'')
     else Inr (timeout_new (Some h) label relative_to callback w))"

subsection \<open>The event loop\<close>

text \<open>What is logged before each \<^verbatim>\<open>select\<close>.\<close>

definition before_select :: "log_estado \<Rightarrow> rat \<Rightarrow> string option \<Rightarrow> ('cb, 'k, 'z) registro_scheme \<Rightarrow> destino list" where
  "before_select l next_to rotulo w =
    (case rotulo of
       None \<Rightarrow> []
     | Some s \<Rightarrow> if s = [] then []
         else log_debug2 l (a_data_hora (amb w)) [''Next timeout '' @ fmt_6f next_to @ '' '' @ s])"

text \<open>
  \<^verbatim>\<open>handler = Handler.find_by_fd(...)\<close> followed by a method call: calling a method of
  \<^verbatim>\<open>None\<close> raises \<^verbatim>\<open>AttributeError\<close>.
\<close>

definition chama_handler ::
  "(nat \<Rightarrow> ('cb, 'k, 'z) registro_scheme \<Rightarrow> ('cb, 'k, 'z) registro_scheme res) \<Rightarrow> nat \<Rightarrow>
    ('cb, 'k, 'z) registro_scheme \<Rightarrow> ('cb, 'k, 'z) registro_scheme res" where
  "chama_handler metodo fd w =
    (case find_by_fd fd w of None \<Rightarrow> Inl AttributeError | Some h \<Rightarrow> metodo h w)"

definition sem_tarefas ::
  "('cb, ('cb, 'k, 'z) registro_scheme) metodos \<Rightarrow> ('cb, 'k, 'z) registro_scheme \<Rightarrow> bool" where
  "sem_tarefas M w \<longleftrightarrow>
    readable_fds M w = [] \<and> writable_fds M w = [] \<and> exceptional_fds M w = [] \<and>
    (case snd (next_relative w) of None \<Rightarrow> True | Some label \<Rightarrow> label = [])"

definition despacha ::
  "('cb, ('cb, 'k, 'z) registro_scheme) metodos \<Rightarrow> resposta \<Rightarrow> ('cb, 'k, 'z) registro_scheme \<Rightarrow>
    ('cb, 'k, 'z) registro_scheme res" where
  "despacha M r w =
    (if r_rd r \<noteq> [] then chama_handler (m_read_callback M) (hd (r_rd r)) w
     else if r_wr r \<noteq> [] then chama_handler (m_write_callback M) (hd (r_wr r)) w
     else if r_ex r \<noteq> [] then chama_handler (m_exceptional_callback M) (hd (r_ex r)) w
     else res_bind (timeout_handle (m_timeout M) w) (\<lambda>(tratou, w). Inr w))"

definition cycle ::
  "('cb, ('cb, 'k, 'z) registro_scheme) metodos \<Rightarrow> resposta \<Rightarrow> ('cb, 'k, 'z) registro_scheme \<Rightarrow>
    (bool \<times> ('cb, 'k, 'z) registro_scheme) res" where
  "cycle M r w =
    (if sem_tarefas M w then Inr (False, w)
     else res_bind (despacha M r (w\<lparr>agora := r_agora r, amb := r_amb r\<rparr>)) (\<lambda>w. Inr (True, w)))"

text \<open>
  \<^verbatim>\<open>loop()\<close> over the answers that \<^verbatim>\<open>select\<close> gives: it stops when a cycle finds nothing left to
  do; with the answers exhausted it is still running (\<open>False\<close>).
\<close>

fun loop ::
  "('cb, ('cb, 'k, 'z) registro_scheme) metodos \<Rightarrow> resposta list \<Rightarrow> ('cb, 'k, 'z) registro_scheme \<Rightarrow>
    (bool \<times> ('cb, 'k, 'z) registro_scheme) res" where
  "loop M [] w = Inr (sem_tarefas M w, w)"
| "loop M (r # rs) w =
    res_bind (cycle M r w) (\<lambda>(continua, w). if continua then loop M rs w else Inr (True, w))"

text \<open>
  Documented behaviour of \<^verbatim>\<open>select(crd, cwr, cex, next_to)\<close>: the lists returned are sub-lists of
  the arguments. Nothing is assumed of the clock, which may also go back.
\<close>

definition select_valido ::
  "('cb, ('cb, 'k, 'z) registro_scheme) metodos \<Rightarrow> resposta \<Rightarrow> ('cb, 'k, 'z) registro_scheme \<Rightarrow> bool" where
  "select_valido M r w \<longleftrightarrow>
    set (r_rd r) \<subseteq> set (readable_fds M w) \<and> set (r_wr r) \<subseteq> set (writable_fds M w) \<and>
    set (r_ex r) \<subseteq> set (exceptional_fds M w)"

subsection \<open>The registry\<close>

text \<open>
  The registered handlers are distinct allocated objects that have not been destroyed, with
  distinct sockets, and every pending timeout that has an owner belongs to one of them.
\<close>

definition inv_registro :: "('cb, 'k, 'z) registro_scheme \<Rightarrow> bool" where
  "inv_registro w \<longleftrightarrow>
    distinct (items w) \<and>
    (\<forall>h\<in>set (items w). h < prox w \<and> \<not> h_destroyed (hobjs w h) \<and> fd_de w h < prox w) \<and>
    inj_on (fd_de w) (set (items w)) \<and>
    (\<forall>t ob h. pv w t = Some ob \<longrightarrow> to_owner ob = Some h \<longrightarrow> h \<in> set (items w))"

lemma find_inj: "inj_on f (set xs) \<Longrightarrow> h \<in> set xs \<Longrightarrow> List.find (\<lambda>x. f h = f x) xs = Some h"
  by (induction xs) (auto simp: inj_on_def)

lemma find_by_fd_in:
  "inj_on (fd_de w) (set (items w)) \<Longrightarrow> h \<in> set (items w) \<Longrightarrow> find_by_fd (fd_de w h) w = Some h"
  unfolding find_by_fd_def by (rule find_inj)

lemma find_by_fd_SomeD: "find_by_fd fd w = Some h \<Longrightarrow> h \<in> set (items w) \<and> fd_de w h = fd"
  by (auto simp: find_by_fd_def find_Some_iff)

lemma handler_destroy_eq:
  assumes "\<not> h_destroyed (hobjs w h)" and "dcb h w = Inr w1" and "h \<in> set (items w1)" and "inv_tempo w1"
  obtains ps where
    "handler_destroy dcb h w =
      Inr (w1\<lparr>hobjs := (hobjs w1)(h := (hobjs w1 h)\<lparr>h_destroyed := True\<rparr>),
             items := remove1 h (items w1),
             tobjs := invalida_de (Some h) (pending w1) (tobjs w1), pending := ps\<rparr>)"
    and "distinct ps" and "set ps = {t \<in> set (pending w1). to_owner (tobjs w1 t) \<noteq> Some h}"
proof -
  let ?w = "w1\<lparr>hobjs := (hobjs w1)(h := (hobjs w1 h)\<lparr>h_destroyed := True\<rparr>), items := remove1 h (items w1)\<rparr>"
  have "inv_tempo ?w" using assms(4) by (simp add: inv_tempo_def)
  then obtain ps where
    "cancel_and_inval_by_owner (Some h) ?w =
      Inr (?w\<lparr>tobjs := invalida_de (Some h) (pending ?w) (tobjs ?w), pending := ps\<rparr>)"
    and "distinct ps" and "set ps = {t \<in> set (pending ?w). to_owner (tobjs ?w t) \<noteq> Some h}"
    by (rule cancel_owner_eq)
  with assms that [of ps] show ?thesis by (simp add: handler_destroy_def Let_def)
qed

subsection \<open>What the loop needs of the handlers\<close>

text \<open>What a cycle does with the answer of \<^verbatim>\<open>select\<close>: one callback of one handler, or the timeouts.\<close>

datatype ocorrencia = Leitura "nat option" | Escrita "nat option" | Excepcional "nat option" | Prazo

definition ocorrencia_de :: "resposta \<Rightarrow> ('cb, 'k, 'z) registro_scheme \<Rightarrow> ocorrencia" where
  "ocorrencia_de r w =
    (if r_rd r \<noteq> [] then Leitura (find_by_fd (hd (r_rd r)) w)
     else if r_wr r \<noteq> [] then Escrita (find_by_fd (hd (r_wr r)) w)
     else if r_ex r \<noteq> [] then Excepcional (find_by_fd (hd (r_ex r)) w)
     else Prazo)"

text \<open>
  A program's virtual methods: called in a state of \<open>I\<close> by the loop, each leads to a state related by
  \<open>J\<close> to what happened and to the state before, or raises an exception of \<open>E\<close>, which may depend on what
  the operating system answers; \<open>V\<close> is what the program assumes of these answers.
\<close>

locale laco =
  fixes M :: "('cb, ('cb, 'k, 'z) registro_scheme) metodos"
    and I :: "('cb, 'k, 'z) registro_scheme \<Rightarrow> bool"
    and J :: "ocorrencia \<Rightarrow> ('cb, 'k, 'z) registro_scheme \<Rightarrow> ('cb, 'k, 'z) registro_scheme \<Rightarrow> bool"
    and E :: "ambiente \<Rightarrow> excecao \<Rightarrow> bool"
    and V :: "('cb, 'k, 'z) registro_scheme \<Rightarrow> bool"
  assumes I_inj: "I w \<Longrightarrow> inj_on (fd_de w) (set (items w))"
    and I_ambiente: "I w \<Longrightarrow> I (w\<lparr>agora := a, amb := b\<rparr>)"
    and J_nada: "I w \<Longrightarrow> J Prazo w w"
    and I_read: "I w \<Longrightarrow> h \<in> set (items w) \<Longrightarrow> V w \<Longrightarrow>
      res_sat (E (amb w)) (J (Leitura (Some h)) w) (m_read_callback M h w)"
    and I_write: "I w \<Longrightarrow> h \<in> set (items w) \<Longrightarrow>
      res_sat (E (amb w)) (J (Escrita (Some h)) w) (m_write_callback M h w)"
    and I_exceptional: "I w \<Longrightarrow> h \<in> set (items w) \<Longrightarrow> is_exceptional M h w \<Longrightarrow>
      res_sat (E (amb w)) (J (Excepcional (Some h)) w) (m_exceptional_callback M h w)"
    and I_timeout: "I w \<Longrightarrow> t \<in> set (pending w) \<Longrightarrow>
      res_sat (E (amb w)) (J Prazo w)
        (m_timeout M (to_callback (tobjs w t)) t (w\<lparr>pending := remove1 t (pending w)\<rparr>))"
begin

lemma chama_preserva:
  assumes "I w" and "fd \<in> set (map (fd_de w) hs)" and "set hs \<subseteq> set (items w)"
    and "\<And>h. h \<in> set hs \<Longrightarrow> res_sat F (P (Some h)) (m h w)"
  shows "res_sat F (P (find_by_fd fd w)) (chama_handler m fd w)"
proof -
  from assms(2) obtain h where h: "h \<in> set hs" "fd = fd_de w h" by auto
  with find_by_fd_in [OF I_inj [OF assms(1)]] assms(3) have "find_by_fd fd w = Some h" by auto
  with assms(4) [OF h(1)] show ?thesis by (simp add: chama_handler_def)
qed

lemma handle_preserva:
  "I w \<Longrightarrow> res_sat (E (amb w)) (\<lambda>(b, w'). J Prazo w w') (timeout_handle (m_timeout M) w)"
proof -
  assume i: "I w"
  obtain to ch where n: "timeout_next w = (to, ch)" by force
  show ?thesis
  proof (cases ch)
    case None
    with n J_nada [OF i] show ?thesis by (simp add: timeout_handle_def)
  next
    case (Some t)
    with n have "t \<in> set (pending w)" by (auto elim: timeout_next_Some)
    from I_timeout [OF i this] n Some J_nada [OF i] show ?thesis by (simp add: timeout_handle_def)
  qed
qed

lemma ciclo_preserva:
  assumes i: "I w" and s: "select_valido M r w" and v: "V (w\<lparr>agora := r_agora r, amb := r_amb r\<rparr>)"
    and sel: "\<And>h. is_exceptional M h (w\<lparr>agora := r_agora r, amb := r_amb r\<rparr>) = is_exceptional M h w"
    and t: "\<not> sem_tarefas M w"
  shows "res_sat (E (r_amb r)) (\<lambda>(b, w'). b \<and> J (ocorrencia_de r w) (w\<lparr>agora := r_agora r, amb := r_amb r\<rparr>) w')
    (cycle M r w)"
proof -
  let ?w = "w\<lparr>agora := r_agora r, amb := r_amb r\<rparr>"
  have i': "I ?w" using i by (rule I_ambiente)
  have amb: "amb ?w = r_amb r" and fd: "find_by_fd f ?w = find_by_fd f w" for f
    by (simp_all add: find_by_fd_def)
  have rd: "r_rd r \<noteq> [] \<Longrightarrow> hd (r_rd r) \<in> set (readable_fds M w)"
    and wr: "r_wr r \<noteq> [] \<Longrightarrow> hd (r_wr r) \<in> set (writable_fds M w)"
    and ex: "r_ex r \<noteq> [] \<Longrightarrow> hd (r_ex r) \<in> set (exceptional_fds M w)"
    using s by (auto simp: select_valido_def dest: hd_in_set)
  have r: "res_sat (E (r_amb r)) (J (Leitura (find_by_fd (hd (r_rd r)) ?w)) ?w)
      (chama_handler (m_read_callback M) (hd (r_rd r)) ?w)" if "r_rd r \<noteq> []"
    by (rule chama_preserva [where hs = "items w" and P = "\<lambda>h. J (Leitura h) ?w", OF i'])
      (use rd [OF that] I_read [OF i' _ v] in \<open>auto simp: readable_fds_def\<close>)
  have e: "res_sat (E (r_amb r)) (J (Escrita (find_by_fd (hd (r_wr r)) ?w)) ?w)
      (chama_handler (m_write_callback M) (hd (r_wr r)) ?w)" if "r_wr r \<noteq> []"
    by (rule chama_preserva [where hs = "items w" and P = "\<lambda>h. J (Escrita h) ?w", OF i'])
      (use wr [OF that] I_write [OF i'] in \<open>auto simp: writable_fds_def\<close>)
  have x: "res_sat (E (r_amb r)) (J (Excepcional (find_by_fd (hd (r_ex r)) ?w)) ?w)
      (chama_handler (m_exceptional_callback M) (hd (r_ex r)) ?w)" if "r_ex r \<noteq> []"
    by (rule chama_preserva [where hs = "filter (\<lambda>h. is_exceptional M h w) (items w)"
          and P = "\<lambda>h. J (Excepcional h) ?w", OF i'])
      (use ex [OF that] I_exceptional [OF i'] sel in \<open>auto simp: exceptional_fds_def\<close>)
  have p: "res_sat (E (r_amb r)) (J Prazo ?w) (res_bind (timeout_handle (m_timeout M) ?w) (\<lambda>(tratou, w). Inr w))"
    by (rule res_sat_bindI [OF handle_preserva [OF i', unfolded amb]]) auto
  have "res_sat (E (r_amb r)) (J (ocorrencia_de r w) ?w) (despacha M r ?w)"
    unfolding despacha_def ocorrencia_de_def using r e x p by (simp add: fd)
  with t show ?thesis by (simp add: cycle_def)
qed

end

end
