(* ===== verification/Conexao.thy ===== *)
theory Conexao
  imports Manipulador
begin

text \<open>
  TCP handlers: \<^verbatim>\<open>TCPServerHandler\<close> and \<^verbatim>\<open>TCPListener\<close> of \<^verbatim>\<open>myeventloop/tcpserver.py\<close>,
  \<^verbatim>\<open>TCPClientHandler\<close> of \<^verbatim>\<open>myeventloop/tcpclient.py\<close>. The buffers of a connection are the record
  \<open>conexao\<close>, kept in the store \<open>conns\<close>; the abstract methods and \<^verbatim>\<open>destroy\<close> of the subclass are
  arguments.
\<close>

record conexao =
  recv_buf :: "int list"
  send_buf :: "int list"
  connecting :: bool

record ('cb, 'k) tcp = "('cb, 'k) registro" +
  conns :: "nat \<Rightarrow> conexao"

definition muda_conn :: "nat \<Rightarrow> (conexao \<Rightarrow> conexao) \<Rightarrow> ('cb, 'k, 'z) tcp_scheme \<Rightarrow> ('cb, 'k, 'z) tcp_scheme" where
  "muda_conn h f w = w\<lparr>conns := (conns w)(h := f (conns w h))\<rparr>"

definition poe_recv_buf :: "nat \<Rightarrow> int list \<Rightarrow> ('cb, 'k, 'z) tcp_scheme \<Rightarrow> ('cb, 'k, 'z) tcp_scheme" where
  "poe_recv_buf h b = muda_conn h (\<lambda>c. c\<lparr>recv_buf := b\<rparr>)"

subsection \<open>Connections received\<close>

definition server_init ::
  "string \<Rightarrow> int \<Rightarrow> 'k \<Rightarrow> ('cb, 'k, 'z) tcp_scheme \<Rightarrow> nat \<times> ('cb, 'k, 'z) tcp_scheme" where
  "server_init ip port classe w =
    (let (fd, w) = novo_socket w;
         (h, w) = handler_init (ip @ '':'' @ fmt_d port) fd classe w
     in (h, muda_conn h (\<lambda>c. \<lparr>recv_buf = [], send_buf = [], connecting = False\<rparr>) w))"

definition tcp_read_callback ::
  "(nat \<Rightarrow> ('cb, 'k, 'z) tcp_scheme \<Rightarrow> ('cb, 'k, 'z) tcp_scheme res) \<Rightarrow>
    (nat \<Rightarrow> int list \<Rightarrow> ('cb, 'k, 'z) tcp_scheme \<Rightarrow> ('cb, 'k, 'z) tcp_scheme res) \<Rightarrow>
    (nat \<Rightarrow> ('cb, 'k, 'z) tcp_scheme \<Rightarrow> ('cb, 'k, 'z) tcp_scheme res) \<Rightarrow>
    nat \<Rightarrow> ('cb, 'k, 'z) tcp_scheme \<Rightarrow> ('cb, 'k, 'z) tcp_scheme res" where
  "tcp_read_callback destroy recv_callback shutdown_callback h w =
    (case a_recv (amb w) of
       RecvErro \<Rightarrow> destroy h w
     | RecvDados data \<Rightarrow>
         if data = [] then shutdown_callback h w
         else recv_callback h data (poe_recv_buf h (recv_buf (conns w h) @ data) w))"

text \<open>The base \<^verbatim>\<open>shutdown_callback\<close>.\<close>

definition server_shutdown_callback :: "(nat \<Rightarrow> 'w \<Rightarrow> 'w res) \<Rightarrow> nat \<Rightarrow> 'w \<Rightarrow> 'w res" where
  "server_shutdown_callback destroy h w = destroy h w"

definition server_is_writable :: "nat \<Rightarrow> ('cb, 'k, 'z) tcp_scheme \<Rightarrow> bool" where
  "server_is_writable h w \<longleftrightarrow> send_buf (conns w h) \<noteq> []"

definition tcp_send :: "nat \<Rightarrow> int list \<Rightarrow> ('cb, 'k, 'z) tcp_scheme \<Rightarrow> ('cb, 'k, 'z) tcp_scheme" where
  "tcp_send h data = muda_conn h (\<lambda>c. c\<lparr>send_buf := send_buf c @ data\<rparr>)"

text \<open>\<^verbatim>\<open>bytearray(...)\<close> raises \<^verbatim>\<open>ValueError\<close> on a value that is not an octet.\<close>

definition server_send_callback ::
  "(nat \<Rightarrow> ('cb, 'k, 'z) tcp_scheme \<Rightarrow> ('cb, 'k, 'z) tcp_scheme res) \<Rightarrow>
    nat \<Rightarrow> ('cb, 'k, 'z) tcp_scheme \<Rightarrow> ('cb, 'k, 'z) tcp_scheme res" where
  "server_send_callback destroy h w =
    (if \<not> bytes (take 4096 (send_buf (conns w h))) then Inl ValueError
     else case a_send (amb w) of
       SendErro \<Rightarrow> destroy h w
     | SendOk sent \<Rightarrow>
         if sent \<le> 0 then destroy h w
         else Inr (muda_conn h (\<lambda>c. c\<lparr>send_buf := drop (nat sent) (send_buf c)\<rparr>) w))"

definition server_write_callback ::
  "(nat \<Rightarrow> ('cb, 'k, 'z) tcp_scheme \<Rightarrow> ('cb, 'k, 'z) tcp_scheme res) \<Rightarrow>
    nat \<Rightarrow> ('cb, 'k, 'z) tcp_scheme \<Rightarrow> ('cb, 'k, 'z) tcp_scheme res" where
  "server_write_callback send_callback h w = send_callback h w"

lemma server_write_callback_eq [simp]: "server_write_callback f = f"
  by (simp add: server_write_callback_def fun_eq_iff)

text \<open>\<^verbatim>\<open>accept\<close> on a listening socket; \<open>handler_class\<close> is the constructor of the connection's class.\<close>

definition listener_init :: "'k \<Rightarrow> ('cb, 'k, 'z) tcp_scheme \<Rightarrow> nat \<times> ('cb, 'k, 'z) tcp_scheme" where
  "listener_init classe w =
    (let (fd, w) = novo_socket w in handler_init ''listener'' fd classe w)"

definition listener_read_callback ::
  "(string \<Rightarrow> int \<Rightarrow> ('cb, 'k, 'z) tcp_scheme \<Rightarrow> ('cb, 'k, 'z) tcp_scheme res) \<Rightarrow>
    ('cb, 'k, 'z) tcp_scheme \<Rightarrow> ('cb, 'k, 'z) tcp_scheme res" where
  "listener_read_callback handler_class w =
    (case a_accept (amb w) of AcceptErro \<Rightarrow> Inr w | AcceptOk ip port \<Rightarrow> handler_class ip port w)"

subsection \<open>Connections initiated\<close>

text \<open>
  \<^verbatim>\<open>connect((ip, port))\<close> of the standard library: \<^verbatim>\<open>TypeError\<close> when the host name cannot be encoded
  (\<open>ConnectNome\<close>), \<^verbatim>\<open>OverflowError\<close> when the port is not a C integer, then \<^verbatim>\<open>OSError\<close> when the name is
  not resolved or the connection is refused at once (\<open>ConnectErro\<close>), \<^verbatim>\<open>OverflowError\<close> when the port is not
  between 0 and 65535. Only \<^verbatim>\<open>BlockingIOError\<close> (\<open>ConnectPendente\<close>) is caught.
\<close>

definition c_int :: "int \<Rightarrow> bool" where
  "c_int n \<longleftrightarrow> - 2147483648 \<le> n \<and> n \<le> 2147483647"

definition porta_ok :: "int \<Rightarrow> bool" where
  "porta_ok n \<longleftrightarrow> 0 \<le> n \<and> n \<le> 65535"

lemma c_int_porta [simp]: "porta_ok n \<Longrightarrow> c_int n"
  by (simp add: porta_ok_def c_int_def)

definition client_init ::
  "string \<Rightarrow> int \<Rightarrow> 'k \<Rightarrow> ('cb, 'k, 'z) tcp_scheme \<Rightarrow> (nat \<times> ('cb, 'k, 'z) tcp_scheme) res" where
  "client_init ip port classe w =
    (let (fd, w) = novo_socket w;
         (h, w) = handler_init (''client '' @ ip @ '':'' @ fmt_d port) fd classe w;
         w = muda_conn h (\<lambda>c. \<lparr>recv_buf = [], send_buf = [], connecting = True\<rparr>) w
     in case a_connect (amb w) of
          ConnectNome \<Rightarrow> Inl TypeError
        | ConnectErro \<Rightarrow> if c_int port then Inl OSErro else Inl OverflowError
        | ConnectPendente \<Rightarrow> if porta_ok port then Inr (h, w) else Inl OverflowError
        | ConnectOk \<Rightarrow> if porta_ok port then Inr (h, w) else Inl OverflowError)"

definition client_read_callback ::
  "(nat \<Rightarrow> ('cb, 'k, 'z) tcp_scheme \<Rightarrow> ('cb, 'k, 'z) tcp_scheme res) \<Rightarrow>
    (nat \<Rightarrow> int list \<Rightarrow> ('cb, 'k, 'z) tcp_scheme \<Rightarrow> ('cb, 'k, 'z) tcp_scheme res) \<Rightarrow>
    (nat \<Rightarrow> ('cb, 'k, 'z) tcp_scheme \<Rightarrow> ('cb, 'k, 'z) tcp_scheme res) \<Rightarrow>
    nat \<Rightarrow> ('cb, 'k, 'z) tcp_scheme \<Rightarrow> ('cb, 'k, 'z) tcp_scheme res" where
  "client_read_callback destroy recv_callback shutdown_callback h w =
    (case a_recv (amb w) of
       RecvErro \<Rightarrow> destroy h w
     | RecvDados data \<Rightarrow>
         if data = [] then shutdown_callback h w
         else recv_callback h data (poe_recv_buf h (recv_buf (conns w h) @ data) w))"

definition client_shutdown_callback :: "(nat \<Rightarrow> 'w \<Rightarrow> 'w res) \<Rightarrow> nat \<Rightarrow> 'w \<Rightarrow> 'w res" where
  "client_shutdown_callback destroy h w = destroy h w"

definition client_send :: "nat \<Rightarrow> int list \<Rightarrow> ('cb, 'k, 'z) tcp_scheme \<Rightarrow> ('cb, 'k, 'z) tcp_scheme" where
  "client_send h data = muda_conn h (\<lambda>c. c\<lparr>send_buf := send_buf c @ data\<rparr>)"

text \<open>The two classes treat the buffers alike.\<close>

lemma client_read_callback_eq [simp]: "client_read_callback d r s = tcp_read_callback d r s"
  by (simp add: fun_eq_iff client_read_callback_def tcp_read_callback_def)

lemma client_shutdown_callback_eq [simp]: "client_shutdown_callback d = d"
  by (simp add: client_shutdown_callback_def fun_eq_iff)

lemma client_send_eq [simp]: "client_send = tcp_send"
  by (simp add: fun_eq_iff client_send_def tcp_send_def)

definition client_is_readable :: "nat \<Rightarrow> ('cb, 'k, 'z) tcp_scheme \<Rightarrow> bool" where
  "client_is_readable h w \<longleftrightarrow> \<not> connecting (conns w h)"

definition client_is_writable :: "nat \<Rightarrow> ('cb, 'k, 'z) tcp_scheme \<Rightarrow> bool" where
  "client_is_writable h w \<longleftrightarrow> connecting (conns w h) \<or> send_buf (conns w h) \<noteq> []"

definition client_conectou ::
  "(nat \<Rightarrow> ('cb, 'k, 'z) tcp_scheme \<Rightarrow> ('cb, 'k, 'z) tcp_scheme res) \<Rightarrow>
    (nat \<Rightarrow> bool \<Rightarrow> ('cb, 'k, 'z) tcp_scheme \<Rightarrow> ('cb, 'k, 'z) tcp_scheme res) \<Rightarrow>
    nat \<Rightarrow> ('cb, 'k, 'z) tcp_scheme \<Rightarrow> ('cb, 'k, 'z) tcp_scheme res" where
  "client_conectou destroy connection_callback h w =
    (let w = muda_conn h (\<lambda>c. c\<lparr>connecting := False\<rparr>) w
     in if a_so_error (amb w)
        then res_bind (connection_callback h False w) (destroy h)
        else connection_callback h True w)"

definition client_send_callback ::
  "(nat \<Rightarrow> ('cb, 'k, 'z) tcp_scheme \<Rightarrow> ('cb, 'k, 'z) tcp_scheme res) \<Rightarrow>
    (nat \<Rightarrow> bool \<Rightarrow> ('cb, 'k, 'z) tcp_scheme \<Rightarrow> ('cb, 'k, 'z) tcp_scheme res) \<Rightarrow>
    nat \<Rightarrow> ('cb, 'k, 'z) tcp_scheme \<Rightarrow> ('cb, 'k, 'z) tcp_scheme res" where
  "client_send_callback destroy connection_callback h w =
    (if connecting (conns w h) then client_conectou destroy connection_callback h w
     else if \<not> bytes (take 4096 (send_buf (conns w h))) then Inl ValueError
     else case a_send (amb w) of
       SendErro \<Rightarrow> destroy h w
     | SendOk sent \<Rightarrow>
         if sent \<le> 0 then destroy h w
         else Inr (muda_conn h (\<lambda>c. c\<lparr>send_buf := drop (nat sent) (send_buf c)\<rparr>) w))"

text \<open>Documented behaviour of \<^verbatim>\<open>send\<close>: it takes a prefix of what it is given.\<close>

definition send_valido :: "send_res \<Rightarrow> int list \<Rightarrow> bool" where
  "send_valido r buf = (case r of SendErro \<Rightarrow> True | SendOk n \<Rightarrow> 0 \<le> n \<and> n \<le> int (length (take 4096 buf)))"

lemma muda_conn_sel [simp]:
  "conns (muda_conn h f w) = (conns w)(h := f (conns w h))"
  "items (muda_conn h f w) = items w"
  "hobjs (muda_conn h f w) = hobjs w"
  "amb (muda_conn h f w) = amb w"
  "agora (muda_conn h f w) = agora w"
  "tobjs (muda_conn h f w) = tobjs w"
  "pending (muda_conn h f w) = pending w"
  "prox (muda_conn h f w) = prox w"
  by (simp_all add: muda_conn_def)

lemma pv_muda_conn [simp]: "pv (muda_conn h f w) = pv w"
  by (rule pv_frame) simp_all

lemma inv_tempo_muda_conn [simp]: "inv_tempo (muda_conn h f w) = inv_tempo w"
  by (rule inv_tempo_frame) simp_all

end
