(* ===== verification/Mundo.thy ===== *)
theory Mundo
  imports Conexao
begin

text \<open>
  The whole state of the program: the layers of timeouts, handlers and connections, extended
  with the attributes of the classes of \<^verbatim>\<open>alarmeitbl\<close>, and the effects seen outside (commands
  run, files written, reports printed) in the order they happen.
\<close>

subsection \<open>Callbacks and classes\<close>

text \<open>The bound methods that the program passes to its timeouts; the number is the handler.\<close>

datatype callback =
    CbIdent nat            \<comment> \<open>\<open>Tratador.timeout_identificacao\<close>\<close>
  | CbComm nat             \<comment> \<open>\<open>Tratador.timeout_comunicacao\<close>\<close>
  | CbMsgIncompleta nat    \<comment> \<open>\<open>Tratador.timeout_msgincompleta\<close>\<close>
  | CbProcMsg nat          \<comment> \<open>\<open>Tratador.processar_msg\<close>\<close>
  | CbRecuarBackoff nat    \<comment> \<open>\<open>Tratador.recuar_backoff\<close>\<close>
  | CbConn nat             \<comment> \<open>\<open>ComandarCentral.conn_timeout\<close>\<close>
  | CbFoto                 \<comment> \<open>\<open>TratadorDeFotos.obtem_foto\<close>\<close>
  | CbWatchdog
  | CbCentralNC

datatype classe = CListener | CTratador | CComando

subsection \<open>Attributes of the classes\<close>

record tratador =
  backoff :: rat
  ignorar :: bool
  central_identificada :: bool
  to_ident :: "nat option"
  to_comm :: nat
  to_processa :: "nat option"
  to_incompleta :: "nat option"
  to_backoff :: "nat option"
  ip_addr :: string

text \<open>The handler of the next response, attribute \<^verbatim>\<open>tratador\<close> of \<^verbatim>\<open>ComandarCentral\<close>.\<close>

datatype fase = SemTratador | RespostaAutenticacao | RespostaComando

record obtencao =
  of_indice :: int
  of_nrfoto :: int
  of_arquivo :: string
  of_folder :: string
  fragmento_corrente :: int
  jpeg_corrente :: "int list"

text \<open>The subclasses of \<^verbatim>\<open>ComandarCentral\<close> with their own attributes.\<close>

datatype subclasse =
    AtivarDesativarCentral "int option" int
  | DesligarSirene "int option"
  | LimparDisparo
  | CancelarZona "int option"
  | ReativarZona "int option"
  | SolicitarStatus
  | ObtemFotosDeEvento obtencao

record comando =
  observer :: bool
  conn_timeout :: nat
  senha :: int
  tam_senha :: int
  status :: int
  tratador_fase :: fase
  cmd_enviado :: int
  sub :: subclasse

text \<open>An entry of the photo queue: address of the panel, index, photo number, attempts left.\<close>

type_synonym foto = "string \<times> int \<times> int \<times> int"

record tratador_de_fotos =
  fila :: "foto list"
  task :: "nat option"

subsection \<open>Configuration and effects\<close>

text \<open>
  \<open>centrais\<close> is the match of the configured regular expression. \<open>gancho_arquivo\<close> is \<open>None\<close>
  when \<^verbatim>\<open>TratadorDeFotos\<close> is built without a hook, as \<^verbatim>\<open>comandar\<close> does.
\<close>

record config =
  centrais :: "string \<Rightarrow> bool"
  maxconn :: int
  caddr :: string
  cport :: int
  cfg_senha :: int
  cfg_tam_senha :: int
  folder_dlfoto :: string
  gancho_arquivo :: "string option"
  gancho_central :: string
  gancho_ev :: string
  gancho_msg :: string
  gancho_watchdog :: string

record particao_status =
  p_numero :: nat
  p_stay :: bool
  p_delay_saida :: bool
  p_pronto :: bool
  p_alarme_ocorreu :: bool
  p_em_alarme :: bool
  p_armado_stay :: bool
  p_armado :: bool

datatype armado = Desarmado | ParticoesArmadas | TodasArmadas

record central_status =
  s_amt8000 :: bool
  s_firmware :: "int \<times> int \<times> int"
  s_armado :: armado
  s_zonas_em_alarme :: bool
  s_zonas_canceladas :: bool
  s_zonas_fechadas :: bool
  s_sirene :: bool
  s_problemas :: bool
  s_particoes :: "particao_status list"
  s_abertas :: string
  s_disparadas :: string
  s_bypass :: string
  s_sirenes :: string

datatype saida =
    Popen string
  | GravaArquivo string "int list"
  | ImprimeStatus central_status

record mundo = "(callback, classe) tcp" +
  trats :: "nat \<Rightarrow> tratador"
  coms :: "nat \<Rightarrow> comando"
  fotos :: tratador_de_fotos
  saidas :: "saida list"
  alarme :: int

abbreviation classe_de :: "mundo \<Rightarrow> nat \<Rightarrow> classe" where
  "classe_de w h \<equiv> h_classe (hobjs w h)"

definition muda_trat :: "nat \<Rightarrow> (tratador \<Rightarrow> tratador) \<Rightarrow> mundo \<Rightarrow> mundo" where
  "muda_trat h f w = w\<lparr>trats := (trats w)(h := f (trats w h))\<rparr>"

definition muda_com :: "nat \<Rightarrow> (comando \<Rightarrow> comando) \<Rightarrow> mundo \<Rightarrow> mundo" where
  "muda_com h f w = w\<lparr>coms := (coms w)(h := f (coms w h))\<rparr>"

definition emite :: "saida \<Rightarrow> mundo \<Rightarrow> mundo" where
  "emite s w = w\<lparr>saidas := saidas w @ [s]\<rparr>"

lemma muda_trat_sel [simp]:
  "trats (muda_trat h f w) = (trats w)(h := f (trats w h))"
  "coms (muda_trat h f w) = coms w"
  "fotos (muda_trat h f w) = fotos w"
  "saidas (muda_trat h f w) = saidas w"
  "alarme (muda_trat h f w) = alarme w"
  "conns (muda_trat h f w) = conns w"
  "items (muda_trat h f w) = items w"
  "hobjs (muda_trat h f w) = hobjs w"
  "amb (muda_trat h f w) = amb w"
  "agora (muda_trat h f w) = agora w"
  "tobjs (muda_trat h f w) = tobjs w"
  "pending (muda_trat h f w) = pending w"
  "prox (muda_trat h f w) = prox w"
  by (simp_all add: muda_trat_def)

lemma muda_com_sel [simp]:
  "trats (muda_com h f w) = trats w"
  "coms (muda_com h f w) = (coms w)(h := f (coms w h))"
  "fotos (muda_com h f w) = fotos w"
  "saidas (muda_com h f w) = saidas w"
  "alarme (muda_com h f w) = alarme w"
  "conns (muda_com h f w) = conns w"
  "items (muda_com h f w) = items w"
  "hobjs (muda_com h f w) = hobjs w"
  "amb (muda_com h f w) = amb w"
  "agora (muda_com h f w) = agora w"
  "tobjs (muda_com h f w) = tobjs w"
  "pending (muda_com h f w) = pending w"
  "prox (muda_com h f w) = prox w"
  by (simp_all add: muda_com_def)

lemma emite_sel [simp]:
  "trats (emite s w) = trats w"
  "coms (emite s w) = coms w"
  "fotos (emite s w) = fotos w"
  "saidas (emite s w) = saidas w @ [s]"
  "alarme (emite s w) = alarme w"
  "conns (emite s w) = conns w"
  "items (emite s w) = items w"
  "hobjs (emite s w) = hobjs w"
  "amb (emite s w) = amb w"
  "agora (emite s w) = agora w"
  "tobjs (emite s w) = tobjs w"
  "pending (emite s w) = pending w"
  "prox (emite s w) = prox w"
  by (simp_all add: emite_def)

lemma muda_conn_mundo [simp]:
  "trats (muda_conn h f w) = trats w"
  "coms (muda_conn h f w) = coms w"
  "fotos (muda_conn h f w) = fotos w"
  "saidas (muda_conn h f w) = saidas w"
  "alarme (muda_conn h f w) = alarme w"
  by (simp_all add: muda_conn_def)

end
