(* ===== verification/Fotos.thy ===== *)
theory Fotos
  imports Mundo
begin

text \<open>
  The queue of photos to download, \<^verbatim>\<open>alarmeitbl/tratador_fotos.py\<close> (class
  \<^verbatim>\<open>TratadorDeFotos\<close>), except \<^verbatim>\<open>obtem_foto\<close>, which creates a connection and is defined with
  the commands. The instance is the field \<open>fotos\<close> of the state, its constructor arguments
  are the configuration.
\<close>

definition muda_fotos :: "(tratador_de_fotos \<Rightarrow> tratador_de_fotos) \<Rightarrow> mundo \<Rightarrow> mundo" where
  "muda_fotos f w = w\<lparr>fotos := f (fotos w)\<rparr>"

definition fotos_init :: tratador_de_fotos where
  "fotos_init = \<lparr>fila = [], task = None\<rparr>"

definition enfileirar :: "config \<Rightarrow> string \<Rightarrow> int \<Rightarrow> int \<Rightarrow> mundo \<Rightarrow> mundo" where
  "enfileirar cfg ip_addr_cli indice nrfoto w =
    (if cfg_tam_senha cfg \<le> 0 then w
     else
       let w = muda_fotos (\<lambda>f. f\<lparr>fila := fila f @ [(ip_addr_cli, indice, nrfoto, 10)]\<rparr>) w
       in if task (fotos w) = None
          then let (t, w) = timeout_new None ''trata_foto'' 20 CbFoto w
               in muda_fotos (\<lambda>f. f\<lparr>task := Some t\<rparr>) w
          else w)"

definition imediato :: "mundo \<Rightarrow> mundo res" where
  "imediato w = (case task (fotos w) of None \<Rightarrow> Inl AttributeError | Some t \<Rightarrow> reset t (1/10) w)"

definition msg_para_gancho_arquivo :: "string \<Rightarrow> string \<Rightarrow> mundo \<Rightarrow> mundo" where
  "msg_para_gancho_arquivo gancho arquivo w = emite (Popen (gancho @ '' '' @ arquivo)) w"

definition del_fila_0 :: "mundo \<Rightarrow> mundo res" where
  "del_fila_0 w =
    (case fila (fotos w) of [] \<Rightarrow> Inl IndexError
     | _ # resto \<Rightarrow> Inr (muda_fotos (\<lambda>f. f\<lparr>fila := resto\<rparr>) w))"

definition resultado_foto :: "config \<Rightarrow> int \<Rightarrow> int \<Rightarrow> int \<Rightarrow> string \<Rightarrow> mundo \<Rightarrow> mundo res" where
  "resultado_foto cfg indice nrfoto resultado arquivo w =
    res_bind
      (if resultado = 0 then
         del_fila_0
           (case gancho_arquivo cfg of
              None \<Rightarrow> w
            | Some gancho \<Rightarrow> if gancho = [] then w else msg_para_gancho_arquivo gancho arquivo w)
       else if resultado = 2 then del_fila_0 w
       else
         (case fila (fotos w) of
            [] \<Rightarrow> Inl IndexError
          | (ip, i, n, tentativas) # resto \<Rightarrow>
              let w = muda_fotos (\<lambda>f. f\<lparr>fila := (ip, i, n, tentativas - 1) # resto\<rparr>) w
              in if tentativas - 1 \<le> 0 then del_fila_0 w else Inr w))
      (\<lambda>w. case task (fotos w) of None \<Rightarrow> Inl AttributeError | Some t \<Rightarrow> restart t w)"

lemma muda_fotos_sel [simp]:
  "trats (muda_fotos f w) = trats w"
  "coms (muda_fotos f w) = coms w"
  "fotos (muda_fotos f w) = f (fotos w)"
  "saidas (muda_fotos f w) = saidas w"
  "alarme (muda_fotos f w) = alarme w"
  "conns (muda_fotos f w) = conns w"
  "items (muda_fotos f w) = items w"
  "hobjs (muda_fotos f w) = hobjs w"
  "amb (muda_fotos f w) = amb w"
  "agora (muda_fotos f w) = agora w"
  "tobjs (muda_fotos f w) = tobjs w"
  "pending (muda_fotos f w) = pending w"
  "prox (muda_fotos f w) = prox w"
  by (simp_all add: muda_fotos_def)

subsection \<open>What a result does to the queue\<close>

text \<open>
  The queue after a result: the photo at its head leaves it on success, on a fatal error and
  with its last attempt; otherwise one attempt is taken from it.
\<close>

fun proxima_fila :: "int \<Rightarrow> foto list \<Rightarrow> foto list" where
  "proxima_fila st [] = []"
| "proxima_fila st ((ip, i, n, k) # resto) =
    (if st = 0 \<or> st = 2 \<or> k \<le> 1 then resto else (ip, i, n, k - 1) # resto)"

text \<open>The commands run when a photo has been saved.\<close>

definition avisa_arquivo :: "config \<Rightarrow> int \<Rightarrow> string \<Rightarrow> saida list" where
  "avisa_arquivo cfg st arquivo =
    (case gancho_arquivo cfg of
       Some g \<Rightarrow> if st = 0 \<and> g \<noteq> [] then [Popen (g @ '' '' @ arquivo)] else []
     | None \<Rightarrow> [])"

lemma resultado_foto_eq:
  assumes "fila (fotos w) = e # resto" and "task (fotos w) = Some t"
  shows "resultado_foto cfg i n st arquivo w =
    restart t (w\<lparr>saidas := saidas w @ avisa_arquivo cfg st arquivo,
                 fotos := (fotos w)\<lparr>fila := proxima_fila st (e # resto)\<rparr>\<rparr>)"
proof -
  obtain ip i' n' k where e: "e = (ip, i', n', k)" by (cases e) auto
  show ?thesis
    using assms e
    by (cases "gancho_arquivo cfg")
      (auto simp: resultado_foto_def avisa_arquivo_def del_fila_0_def msg_para_gancho_arquivo_def muda_fotos_def emite_def)
qed

end
