(* ===== verification/Codec.thy ===== *)
theory Codec
  imports Prelude
begin

text \<open>
  The two interfaces of the wire formats. \<open>codec\<close>: an encoder into octets with a
  decoder that undoes it. \<open>enquadramento\<close>: a length function that finds the first
  complete frame of a receive buffer, with what a stream protocol needs of it, so that
  the frames cut from a stream are the messages sent however TCP splits it.
\<close>

subsection \<open>Encoders with a decoder\<close>

locale codec =
  fixes cod :: "'a \<Rightarrow> int list"
    and dec :: "int list \<Rightarrow> 'a res"
    and valido :: "'a \<Rightarrow> bool"
  assumes dec_cod: "valido x \<Longrightarrow> dec (cod x) = Inr x"
    and bytes_cod: "valido x \<Longrightarrow> bytes (cod x)"
begin

lemma cod_eq_iff: "valido x \<Longrightarrow> valido y \<Longrightarrow> cod x = cod y \<longleftrightarrow> x = y"
  by (metis dec_cod sum.inject(2))

lemma cod_inj_on: "inj_on cod {x. valido x}"
  by (auto simp: inj_on_def cod_eq_iff)

lemma bytes_concat_cod: "list_all valido xs \<Longrightarrow> bytes (concat (map cod xs))"
  by (induction xs) (auto simp: bytes_cod)

end

subsection \<open>Cutting a stream into frames\<close>

text \<open>
  \<open>tam b\<close> is the length of the complete frame at the head of \<open>b\<close>, or \<open>0\<close>. \<open>cortado tam ts s b\<close>:
  taking from the stream \<open>s\<close> the frames \<open>ts\<close>, each where \<open>tam\<close> says, leaves \<open>b\<close>.
\<close>

fun cortado :: "(int list \<Rightarrow> nat) \<Rightarrow> int list list \<Rightarrow> int list \<Rightarrow> int list \<Rightarrow> bool" where
  "cortado tam [] s b \<longleftrightarrow> s = b"
| "cortado tam (t # ts) s b \<longleftrightarrow>
    0 < tam s \<and> t = take (tam s) s \<and> cortado tam ts (drop (tam s) s) b"

lemma cortado_mais:
  "cortado tam ts s b \<Longrightarrow> 0 < tam b \<Longrightarrow> cortado tam (ts @ [take (tam b) b]) s (drop (tam b) b)"
  by (induction ts arbitrary: s) auto

locale enquadramento =
  fixes tam :: "int list \<Rightarrow> nat"
  assumes tam_le: "tam b \<le> length b"
    and tam_append: "0 < tam b \<Longrightarrow> tam (b @ c) = tam b"
begin

text \<open>More octets do not change where the stream has been cut.\<close>

lemma cortado_append: "cortado tam ts s b \<Longrightarrow> cortado tam ts (s @ d) (b @ d)"
  by (induction ts arbitrary: s) (auto simp: tam_append tam_le)

text \<open>No frame is reported before its last octet has arrived.\<close>

lemma prefixo_incompleto:
  "0 < tam f \<Longrightarrow> tam f = length f \<Longrightarrow> k < length f \<Longrightarrow> tam (take k f) = 0"
  using tam_append [of "take k f" "drop k f"] tam_le [of "take k f"] by (cases "tam (take k f)") auto

end

locale codec_fluxo = codec + enquadramento +
  assumes tam_cod: "valido x \<Longrightarrow> tam (cod x) = length (cod x)"
    and cod_nao_vazio: "valido x \<Longrightarrow> cod x \<noteq> []"
begin

lemma tam_cod_append: "valido x \<Longrightarrow> tam (cod x @ r) = length (cod x)"
  using tam_append [of "cod x" r] by (simp add: tam_cod cod_nao_vazio)

text \<open>The frames cut from a stream of messages are the messages, in order.\<close>

lemma cortado_fluxo:
  "cortado tam ts (concat (map cod xs)) b \<Longrightarrow> list_all valido xs \<Longrightarrow>
    \<exists>ys zs. xs = ys @ zs \<and> ts = map cod ys \<and> b = concat (map cod zs)"
proof (induction ts arbitrary: xs)
  case (Cons t ts)
  show ?case
  proof (cases xs)
    case Nil
    with Cons.prems tam_le [of "[]"] show ?thesis by simp
  next
    case (Cons x xs')
    with Cons.prems have c: "t = cod x" "cortado tam ts (concat (map cod xs')) b" "list_all valido xs'"
      by (auto simp: tam_cod_append)
    from Cons.IH [OF c(2,3)] obtain ys zs where "xs' = ys @ zs" "ts = map cod ys" "b = concat (map cod zs)"
      by blast
    with Cons c(1) show ?thesis by (intro exI [of _ "x # ys"] exI [of _ zs]) simp
  qed
qed simp

end

end
