(* ===== verification/Protocolo.thy ===== *)
theory Protocolo
  imports Codec
begin

unbundle bit_operations_syntax

text \<open>
  The protocol helpers of \<^verbatim>\<open>alarmeitbl/utils_proto.py\<close> (class \<^verbatim>\<open>UtilsProtocolo\<close>): the
  checksum of long frames, the Contact-ID digit codec, BCD, 16-bit big-endian numbers and
  the ISECNet2 packet format. Python integers are \<open>int\<close>; a buffer is a list of integers.
\<close>

subsection \<open>Definitions\<close>

fun checksum_laco :: "int \<Rightarrow> int list \<Rightarrow> int" where
  "checksum_laco c [] = c"
| "checksum_laco c (n # ns) = checksum_laco (c XOR n) ns"

definition checksum :: "int list \<Rightarrow> int" where
  "checksum dados = ((checksum_laco 0 dados) XOR 0xff) AND 0xff"

fun contact_id_laco :: "int list \<Rightarrow> int \<Rightarrow> int \<Rightarrow> int" where
  "contact_id_laco [] numero posicao = numero"
| "contact_id_laco (digito # resto) numero posicao =
    (if digito = 0x0a then contact_id_laco resto numero (posicao * 10)
     else if 0x01 \<le> digito \<and> digito \<le> 0x09
       then contact_id_laco resto (numero + posicao * digito) (posicao * 10)
     else -1)"

definition contact_id_decode :: "int list \<Rightarrow> int" where
  "contact_id_decode dados = contact_id_laco (rev dados) 0 1"

fun contact_id_encode_laco :: "nat \<Rightarrow> int \<Rightarrow> int list \<Rightarrow> int list" where
  "contact_id_encode_laco 0 number buf = buf"
| "contact_id_encode_laco (Suc i) number buf =
    (let digit = number mod 10
     in contact_id_encode_laco i (number div 10) ((if digit = 0 then 0x0a else digit) # buf))"

definition contact_id_encode :: "int \<Rightarrow> int \<Rightarrow> int list" where
  "contact_id_encode number tamanho = contact_id_encode_laco (nat tamanho) \<bar>number\<bar> []"

definition bcd :: "int \<Rightarrow> int" where
  "bcd n = (if n > 99 \<or> n < 0 then 0 else push_bit 4 (n div 10) + n mod 10)"

fun from_bcd_laco :: "int list \<Rightarrow> int \<Rightarrow> int \<Rightarrow> int" where
  "from_bcd_laco [] numero posicao = numero"
| "from_bcd_laco (nibbles # resto) numero posicao =
    from_bcd_laco resto
      (numero + drop_bit 4 nibbles * 10 * posicao + (nibbles AND 0x0f) * posicao)
      (posicao * 100)"

definition from_bcd :: "int list \<Rightarrow> int" where
  "from_bcd dados = from_bcd_laco (rev dados) 0 1"

definition be16 :: "int \<Rightarrow> int list" where
  "be16 n = [n div 256, n mod 256]"

definition parse_be16 :: "int list \<Rightarrow> int res" where
  "parse_be16 buf =
    res_bind (py_nth buf 0) (\<lambda>a. res_bind (py_nth buf 1) (\<lambda>b. Inr (a * 256 + b)))"

definition pacote_isecnet2 :: "int \<Rightarrow> int list \<Rightarrow> int list" where
  "pacote_isecnet2 cmd payload =
    (let dst_id = be16 0x0000;
         src_id = be16 0x8fff;
         len = be16 (int (length payload) + 2);
         cmd_enc = be16 cmd;
         pacote = dst_id @ src_id @ len @ cmd_enc @ payload
     in pacote @ [checksum pacote])"

definition pacote_isecnet2_auth :: "int \<Rightarrow> int \<Rightarrow> int list" where
  "pacote_isecnet2_auth senha tam_senha =
    (let sw_type = [0x02];
         senha' = contact_id_encode senha tam_senha;
         sw_ver = [0x10];
         payload = sw_type @ senha' @ sw_ver
     in pacote_isecnet2 0xf0f0 payload)"

definition pacote_isecnet2_completo :: "int list \<Rightarrow> int res" where
  "pacote_isecnet2_completo data =
    (if length data < 9 then Inr 0
     else res_bind (parse_be16 (fatia 4 6 data)) (\<lambda>n.
       let compr = 6 + n + 1
       in if int (length data) < compr then Inr 0 else Inr compr))"

definition pacote_isecnet2_correto :: "int list \<Rightarrow> bool res" where
  "pacote_isecnet2_correto pct =
    res_bind (parse_be16 (fatia 4 6 pct)) (\<lambda>compr_liquido.
      if compr_liquido < 2 then Inr False else Inr (checksum pct = 0x00))"

text \<open>The slice \<^verbatim>\<open>pct[8:8+compr_payload]\<close>; a negative upper bound would count from the end.\<close>

definition py_fatia :: "nat \<Rightarrow> int \<Rightarrow> 'a list \<Rightarrow> 'a list" where
  "py_fatia a b xs = fatia a (nat (if b < 0 then int (length xs) + b else b)) xs"

definition pacote_isecnet2_parse :: "int list \<Rightarrow> (int \<times> int list) res" where
  "pacote_isecnet2_parse pct =
    res_bind (parse_be16 (fatia 4 6 pct)) (\<lambda>compr_liquido.
      let compr_payload = compr_liquido - 2
      in res_bind (parse_be16 (fatia 6 8 pct)) (\<lambda>cmd.
        Inr (cmd, py_fatia 8 (8 + compr_payload) pct)))"

definition pacote_isecnet2_bye :: "int list" where
  "pacote_isecnet2_bye = pacote_isecnet2 0xf0f1 []"


subsection \<open>Checksum\<close>

lemma checksum_laco_append [simp]:
  "checksum_laco c (xs @ ys) = checksum_laco (checksum_laco c xs) ys"
  by (induction xs arbitrary: c) simp_all

lemma checksum_laco_xor: "checksum_laco c xs = c XOR checksum_laco 0 xs"
proof (induction xs arbitrary: c)
  case Nil
  then show ?case by simp
next
  case (Cons x xs)
  have "checksum_laco (c XOR x) xs = (c XOR x) XOR checksum_laco 0 xs" by (rule Cons.IH)
  moreover have "checksum_laco (0 XOR x) xs = (0 XOR x) XOR checksum_laco 0 xs" by (rule Cons.IH)
  ultimately show ?case by (simp add: xor.assoc)
qed

lemma and_255: "(x::int) AND 255 = x mod 256"
  using take_bit_eq_mask [of 8 x] by (simp add: take_bit_eq_mod mask_eq_exp_minus_1)

lemma byte_checksum [simp]: "byte (checksum xs)"
  by (simp add: checksum_def and_255 byte_def)

lemma byte_xor: "byte a \<Longrightarrow> byte b \<Longrightarrow> byte (a XOR b)"
  using XOR_upper [of a 8 b] by (simp add: byte_def)

lemma byte_checksum_laco: "byte c \<Longrightarrow> bytes xs \<Longrightarrow> byte (checksum_laco c xs)"
  by (induction xs arbitrary: c) (simp_all add: byte_xor)

lemma checksum_anexado: "checksum (xs @ [checksum xs]) = 0"
  by (rule bit_eqI) (auto simp: checksum_def bit_simps)

lemma checksum_bytes: "bytes xs \<Longrightarrow> checksum xs = checksum_laco 0 xs XOR 255"
proof -
  assume "bytes xs"
  then have "byte (checksum_laco 0 xs XOR 255)"
    by (intro byte_xor byte_checksum_laco) (simp_all add: byte_def)
  then show ?thesis by (simp add: checksum_def and_255 byte_def)
qed

lemma checksum_um_octeto:
  assumes "bytes (xs @ a # ys)" and "byte b"
  shows "checksum (xs @ a # ys) = checksum (xs @ b # ys) \<longleftrightarrow> a = b"
proof
  let ?X = "checksum_laco 0 xs" and ?Y = "checksum_laco 0 ys"
  have *: "checksum_laco 0 (xs @ z # ys) = ?X XOR z XOR ?Y" for z
    using checksum_laco_xor [of "?X XOR z" ys] by (simp add: xor.assoc)
  assume "checksum (xs @ a # ys) = checksum (xs @ b # ys)"
  then have "(?X XOR a XOR ?Y) XOR 255 = (?X XOR b XOR ?Y) XOR 255"
    using assms by (simp only: checksum_bytes bytes_append bytes_Cons *)
  then have "?X XOR ((?X XOR a XOR ?Y) XOR 255) XOR 255 XOR ?Y
      = ?X XOR ((?X XOR b XOR ?Y) XOR 255) XOR 255 XOR ?Y" by simp
  then show "a = b" by (simp add: xor.assoc xor.left_commute xor.commute)
qed simp

subsection \<open>Contact-ID digits\<close>

definition contact_ok :: "int list \<Rightarrow> bool" where
  "contact_ok ds \<longleftrightarrow> list_all (\<lambda>d. 1 \<le> d \<and> d \<le> 10) ds"

lemma contact_ok_simps [simp]:
  "contact_ok []"
  "contact_ok (d # ds) \<longleftrightarrow> 1 \<le> d \<and> d \<le> 10 \<and> contact_ok ds"
  "contact_ok (xs @ ys) \<longleftrightarrow> contact_ok xs \<and> contact_ok ys"
  by (simp_all add: contact_ok_def)

lemma contact_ok_rev [simp]: "contact_ok (rev ds) \<longleftrightarrow> contact_ok ds"
  by (simp add: contact_ok_def list_all_iff)

lemma contact_ok_bytes: "contact_ok ds \<Longrightarrow> bytes ds"
  by (induction ds) (auto simp: byte_def)

lemma encode_laco_acc: "contact_id_encode_laco k n buf = contact_id_encode_laco k n [] @ buf"
proof (induction k arbitrary: n buf)
  case 0
  show ?case by simp
next
  case (Suc k)
  show ?case
    using Suc.IH [of _ "_ # buf"] Suc.IH [of _ "[_]"] by (simp add: Let_def)
qed

lemma encode_laco_Suc:
  "contact_id_encode_laco (Suc k) n [] =
    contact_id_encode_laco k (n div 10) [] @ [if n mod 10 = 0 then 10 else n mod 10]"
  by (simp add: Let_def encode_laco_acc [of k "n div 10" "[_]"])

lemma length_encode_laco: "length (contact_id_encode_laco k n []) = k"
proof (induction k arbitrary: n)
  case (Suc k)
  then show ?case by (simp add: encode_laco_Suc del: contact_id_encode_laco.simps)
qed simp

lemma encode_laco_ok: "contact_ok (contact_id_encode_laco k n [])"
proof (induction k arbitrary: n)
  case 0
  show ?case by simp
next
  case (Suc k)
  have "0 \<le> n mod 10" "n mod 10 < 10" by simp_all
  then have "1 \<le> (if n mod 10 = 0 then 10 else n mod 10)" "(if n mod 10 = 0 then 10 else n mod 10) \<le> 10"
    by (smt (verit))+
  with Suc show ?case by (simp add: encode_laco_Suc del: contact_id_encode_laco.simps)
qed

lemma length_contact_id_encode [simp]: "length (contact_id_encode n k) = nat k"
  by (simp add: contact_id_encode_def length_encode_laco)

lemma contact_ok_encode [simp]: "contact_ok (contact_id_encode n k)"
  by (simp add: contact_id_encode_def encode_laco_ok)

lemma decode_encode_laco:
  "0 \<le> n \<Longrightarrow> contact_id_laco (rev (contact_id_encode_laco k n [])) num pos = num + pos * (n mod 10 ^ k)"
proof (induction k arbitrary: n num pos)
  case 0
  then show ?case by simp
next
  case (Suc k)
  have dig: "0 \<le> n mod 10" "n mod 10 < 10" by simp_all
  have split: "n mod 10 ^ Suc k = n mod 10 + 10 * (n div 10 mod 10 ^ k)"
    by (simp add: zmod_zmult2_eq)
  have IH: "contact_id_laco (rev (contact_id_encode_laco k (n div 10) [])) m p
      = m + p * (n div 10 mod 10 ^ k)" for m p
    using Suc by simp
  show ?case
  proof (cases "n mod 10 = 0")
    case True
    with IH split show ?thesis
      by (simp add: encode_laco_Suc algebra_simps del: contact_id_encode_laco.simps)
  next
    case False
    with dig have "1 \<le> n mod 10" "n mod 10 \<le> 9" by linarith+
    with IH split False show ?thesis
      by (simp add: encode_laco_Suc algebra_simps del: contact_id_encode_laco.simps)
  qed
qed

lemma contact_id_decode_encode: "contact_id_decode (contact_id_encode n k) = \<bar>n\<bar> mod 10 ^ nat k"
  by (simp add: contact_id_decode_def contact_id_encode_def decode_encode_laco)

lemma contact_id_laco_ok:
  "contact_ok ds \<Longrightarrow> contact_id_laco ds num pos = num + pos * contact_id_laco ds 0 1"
proof (induction ds arbitrary: num pos)
  case Nil
  then show ?case by simp
next
  case (Cons d ds)
  have IH: "contact_id_laco ds m p = m + p * contact_id_laco ds 0 1" for m p
    by (rule Cons.IH) (use Cons.prems in simp)
  have dez: "contact_id_laco (d # ds) m p = m + p * (if d = 10 then 0 else d) + p * 10 * contact_id_laco ds 0 1"
    for m p using Cons.prems IH [of m "p * 10"] IH [of "m + p * d" "p * 10"] by auto
  show ?case unfolding dez [of num pos] dez [of 0 1] by (simp add: algebra_simps)
qed

lemma contact_id_laco_mau: "\<not> contact_ok ds \<Longrightarrow> contact_id_laco ds num pos = -1"
  by (induction ds arbitrary: num pos) auto

lemma contact_id_decode_mau: "\<not> contact_ok ds \<Longrightarrow> contact_id_decode ds = -1"
  by (simp add: contact_id_decode_def contact_id_laco_mau)

lemma contact_id_decode_snoc:
  assumes "contact_ok (ds @ [d])"
  shows "contact_id_decode (ds @ [d]) = 10 * contact_id_decode ds + (if d = 10 then 0 else d)"
proof -
  from assms have "d \<le> 10" "1 \<le> d" "contact_ok (rev ds)" by simp_all
  moreover have "d \<noteq> 10 \<Longrightarrow> d \<le> 9" using \<open>d \<le> 10\<close> by simp
  ultimately show ?thesis
    by (simp add: contact_id_decode_def contact_id_laco_ok [of "rev ds" _ 10])
qed

lemma contact_id_decode_range:
  "contact_ok ds \<Longrightarrow> 0 \<le> contact_id_decode ds \<and> contact_id_decode ds < 10 ^ length ds"
proof (induction ds rule: rev_induct)
  case Nil
  then show ?case by (simp add: contact_id_decode_def)
next
  case (snoc d ds)
  then show ?case by (auto simp: contact_id_decode_snoc)
qed

lemma contact_id_encode_decode:
  "contact_ok ds \<Longrightarrow> contact_id_encode (contact_id_decode ds) (int (length ds)) = ds"
proof (induction ds rule: rev_induct)
  case Nil
  then show ?case by (simp add: contact_id_encode_def)
next
  case (snoc d ds)
  let ?v = "contact_id_decode ds"
  have r: "0 \<le> ?v" using contact_id_decode_range [of ds] snoc.prems by simp
  have ih: "contact_id_encode_laco (length ds) ?v [] = ds"
    using snoc r by (simp add: contact_id_encode_def)
  have d: "1 \<le> d" "d \<le> 10" using snoc.prems by simp_all
  define w where "w = 10 * ?v + (if d = 10 then 0 else d)"
  have w: "w div 10 = ?v" "(if w mod 10 = 0 then 10 else w mod 10) = d" "0 \<le> w"
    using d r unfolding w_def by (auto split: if_splits)
  show ?case
    using snoc.prems w by (simp only: contact_id_encode_def contact_id_decode_snoc w_def [symmetric])
      (simp only: abs_of_nonneg length_append list.size nat_int add_Suc_right add_0_right encode_laco_Suc ih)
qed

subsection \<open>BCD and 16-bit numbers\<close>

lemma bcd_eq: "0 \<le> n \<Longrightarrow> n \<le> 99 \<Longrightarrow> bcd n = 16 * (n div 10) + n mod 10"
  by (simp add: bcd_def push_bit_eq_mult)

lemma and_15: "(x::int) AND 15 = x mod 16"
  using take_bit_eq_mask [of 4 x] by (simp add: take_bit_eq_mod mask_eq_exp_minus_1)

lemma bcd_range: "0 \<le> bcd n \<and> bcd n \<le> 0x99"
proof (cases "n > 99 \<or> n < 0")
  case False
  then have "n div 10 \<le> 9" "0 \<le> n div 10" "n mod 10 \<le> 9" "0 \<le> n mod 10" by auto
  with False show ?thesis by (simp add: bcd_eq)
qed (auto simp: bcd_def)

lemma byte_bcd [simp]: "byte (bcd n)"
  using bcd_range [of n] by (simp add: byte_def)

lemma from_bcd_laco_eq:
  "from_bcd_laco ds num pos = num + pos * from_bcd_laco ds 0 1"
proof (induction ds arbitrary: num pos)
  case Nil
  then show ?case by simp
next
  case (Cons d ds)
  let ?v = "drop_bit 4 d * 10 + (d AND 15)"
  have passo: "from_bcd_laco (d # ds) m p = m + p * ?v + p * 100 * from_bcd_laco ds 0 1" for m p
    using Cons.IH [of "m + drop_bit 4 d * 10 * p + (d AND 15) * p" "p * 100"]
    by (simp add: algebra_simps)
  show ?case unfolding passo [of num pos] passo [of 0 1] by (simp add: algebra_simps)
qed

lemma from_bcd_snoc:
  "from_bcd (ds @ [d]) = 100 * from_bcd ds + (d div 16) * 10 + d mod 16"
  by (simp add: from_bcd_def from_bcd_laco_eq [of "rev ds" _ 100] and_15 drop_bit_eq_div)

lemma from_bcd_Nil [simp]: "from_bcd [] = 0"
  by (simp add: from_bcd_def)

text \<open>Decimal value of a list of base-100 digits, most significant first.\<close>

definition valor100 :: "int list \<Rightarrow> int" where
  "valor100 ns = foldl (\<lambda>v n. 100 * v + n) 0 ns"

lemma from_bcd_map_bcd:
  "list_all (\<lambda>n. 0 \<le> n \<and> n \<le> 99) ns \<Longrightarrow> from_bcd (map bcd ns) = valor100 ns"
proof (induction ns rule: rev_induct)
  case Nil
  then show ?case by (simp add: valor100_def)
next
  case (snoc n ns)
  then have n: "0 \<le> n" "n \<le> 99" by simp_all
  then have "bcd n div 16 = n div 10" "bcd n mod 16 = n mod 10"
    by (simp_all add: bcd_eq)
  with snoc show ?case by (simp add: from_bcd_snoc valor100_def)
qed

lemma from_bcd_range: "bytes ds \<Longrightarrow> 0 \<le> from_bcd ds"
proof (induction ds rule: rev_induct)
  case (snoc d ds)
  then have "0 \<le> d div 16" by (simp add: byte_def pos_imp_zdiv_nonneg_iff)
  with snoc show ?case by (simp add: from_bcd_snoc)
qed simp

lemma parse_be16_be16 [simp]: "parse_be16 (be16 n @ resto) = Inr n"
  by (simp add: parse_be16_def be16_def)

lemma parse_be16_2: "parse_be16 [a, b] = Inr (a * 256 + b)"
  by (simp add: parse_be16_def)

lemma parse_be16_curto: "length buf < 2 \<Longrightarrow> parse_be16 buf = Inl IndexError"
  by (cases buf) (auto simp: parse_be16_def)

lemma length_be16 [simp]: "length (be16 n) = 2"
  by (simp add: be16_def)

lemma bytes_be16: "bytes (be16 n) \<longleftrightarrow> 0 \<le> n \<and> n < 65536"
  by (auto simp: be16_def byte_def)

lemma be16_octetos: "byte a \<Longrightarrow> byte b \<Longrightarrow> be16 (a * 256 + b) = [a, b]"
  by (simp add: be16_def byte_def)

interpretation be: codec be16 parse_be16 "\<lambda>n. 0 \<le> n \<and> n < 65536"
proof
  show "parse_be16 (be16 n) = Inr n" for n using parse_be16_be16 [of n "[]"] by simp
qed (simp add: bytes_be16)

interpretation contact: codec "\<lambda>n. contact_id_encode n (int k)" "\<lambda>ds. Inr (contact_id_decode ds)"
    "\<lambda>n. 0 \<le> n \<and> n < 10 ^ k" for k
  by unfold_locales (simp_all add: contact_id_decode_encode contact_ok_bytes)

interpretation bcds: codec "map bcd" "\<lambda>ds. Inr (map (\<lambda>d. from_bcd [d]) ds)"
    "list_all (\<lambda>n. 0 \<le> n \<and> n \<le> 99)"
proof
  fix ns :: "int list"
  assume "list_all (\<lambda>n. 0 \<le> n \<and> n \<le> 99) ns"
  then show "(Inr (map (\<lambda>d. from_bcd [d]) (map bcd ns)) :: int list res) = Inr ns"
    using from_bcd_map_bcd [of "[_]"] by (simp add: list_all_iff valor100_def map_idI)
qed (simp add: bytes_iff)

subsection \<open>ISECNet2 packets\<close>

lemma pacote_eq:
  "pacote_isecnet2 cmd p =
    (be16 0 @ be16 0x8fff @ be16 (int (length p) + 2) @ be16 cmd @ p) @
    [checksum (be16 0 @ be16 0x8fff @ be16 (int (length p) + 2) @ be16 cmd @ p)]"
  by (simp add: pacote_isecnet2_def Let_def)

lemma length_pacote [simp]: "length (pacote_isecnet2 cmd p) = 9 + length p"
  by (simp add: pacote_eq)

lemma fatia_4_6: "fatia 4 6 (pacote_isecnet2 cmd p @ r) = be16 (int (length p) + 2)"
  by (simp add: pacote_eq fatia_def be16_def)

lemma fatia_6_8: "fatia 6 8 (pacote_isecnet2 cmd p @ r) = be16 cmd"
  by (simp add: pacote_eq fatia_def be16_def)

lemma fatia_8: "fatia 8 (8 + length p) (pacote_isecnet2 cmd p @ r) = p"
  by (simp add: pacote_eq fatia_def)

lemma bytes_pacote:
  "0 \<le> cmd \<Longrightarrow> cmd < 65536 \<Longrightarrow> bytes p \<Longrightarrow> length p \<le> 65533 \<Longrightarrow> bytes (pacote_isecnet2 cmd p)"
  by (simp add: pacote_eq bytes_be16)

lemma be16_append_Nil: "parse_be16 (be16 n) = Inr n"
  using parse_be16_be16 [of n "[]"] by simp

lemma pacote_completo:
  "pacote_isecnet2_completo (pacote_isecnet2 cmd p @ r) = Inr (int (length (pacote_isecnet2 cmd p)))"
  by (simp add: pacote_isecnet2_completo_def fatia_4_6 be16_append_Nil)

lemma pacote_correto: "pacote_isecnet2_correto (pacote_isecnet2 cmd p) = Inr True"
  using fatia_4_6 [of cmd p "[]"]
  by (simp add: pacote_isecnet2_correto_def be16_append_Nil)
    (simp only: pacote_eq checksum_anexado)

lemma pacote_parse: "pacote_isecnet2_parse (pacote_isecnet2 cmd p) = Inr (cmd, p)"
  using fatia_4_6 [of cmd p "[]"] fatia_6_8 [of cmd p "[]"] fatia_8 [of p cmd "[]"]
  by (simp add: pacote_isecnet2_parse_def be16_append_Nil py_fatia_def nat_add_distrib)

text \<open>The length function that \<open>ComandarCentral.recv_callback\<close> uses on its buffer.\<close>

definition tam_isecnet :: "int list \<Rightarrow> nat" where
  "tam_isecnet b = (case pacote_isecnet2_completo b of Inl _ \<Rightarrow> 0 | Inr n \<Rightarrow> nat n)"

lemma parse_be16_fatia:
  "6 \<le> length b \<Longrightarrow> parse_be16 (fatia 4 6 b) = Inr (b ! 4 * 256 + b ! 5)"
  by (simp add: parse_be16_def)

lemma completo_eq:
  "pacote_isecnet2_completo b =
    Inr (if length b < 9 \<or> int (length b) < 7 + (b ! 4 * 256 + b ! 5) then 0
         else 7 + (b ! 4 * 256 + b ! 5))"
  by (simp add: pacote_isecnet2_completo_def parse_be16_fatia Let_def)

lemma tam_isecnet_eq:
  "tam_isecnet b =
    (if length b < 9 \<or> int (length b) < 7 + (b ! 4 * 256 + b ! 5) then 0
     else nat (7 + (b ! 4 * 256 + b ! 5)))"
  by (simp add: tam_isecnet_def completo_eq)

lemma tam_isecnet_pacote: "tam_isecnet (pacote_isecnet2 cmd p) = length (pacote_isecnet2 cmd p)"
  using pacote_completo [of cmd p "[]"] by (simp add: tam_isecnet_def)

lemma pacote_nao_vazio: "pacote_isecnet2 cmd p \<noteq> []"
  using length_pacote [of cmd p] by (metis add_eq_0_iff_both_eq_0 list.size(3) zero_neq_numeral)

interpretation isec: codec_fluxo "\<lambda>(cmd, p). pacote_isecnet2 cmd p" pacote_isecnet2_parse
    "\<lambda>(cmd, p). 0 \<le> cmd \<and> cmd < 65536 \<and> bytes p \<and> length p \<le> 65533" tam_isecnet
proof
  show "tam_isecnet b \<le> length b" for b unfolding tam_isecnet_eq by (simp split: if_splits; linarith)
  show "0 < tam_isecnet b \<Longrightarrow> tam_isecnet (b @ c) = tam_isecnet b" for b c
    by (auto simp: tam_isecnet_eq nth_append split: if_splits)
qed (auto simp: pacote_parse bytes_pacote tam_isecnet_pacote pacote_nao_vazio)

subsection \<open>Properties\<close>

lemma checksum_troca:
  assumes "bytes p" and "i < length p" and "byte b" and "b \<noteq> p ! i"
  shows "checksum (p[i := b]) \<noteq> checksum p"
proof -
  have p: "p = take i p @ p ! i # drop (Suc i) p" using assms(2) by (simp add: id_take_nth_drop)
  have q: "p[i := b] = take i p @ b # drop (Suc i) p" using assms(2) by (simp add: upd_conv_take_nth_drop)
  have "bytes (take i p @ p ! i # drop (Suc i) p)" using assms(1) p by simp
  from checksum_um_octeto [OF this assms(3)] assms(4) show ?thesis unfolding q by (subst (2) p) auto
qed

lemma pacote_curto:
  assumes "k < length (pacote_isecnet2 cmd p)"
  shows "pacote_isecnet2_completo (take k (pacote_isecnet2 cmd p)) = Inr 0"
proof -
  let ?q = "pacote_isecnet2 cmd p"
  have c: "?q ! 4 * 256 + ?q ! 5 = int (length p) + 2"
    by (simp add: pacote_eq be16_def)
  show ?thesis using assms c by (cases "k < 9") (simp_all add: completo_eq)
qed

text \<open>C9. A packet built by \<^verbatim>\<open>pacote_isecnet2\<close>, with anything after it in the buffer, is found complete at
  its exact length, is correct, and parses back to its command and payload; none of its proper
  prefixes is reported complete.\<close>

theorem isecnet2_ida_e_volta:
  "pacote_isecnet2_completo (pacote_isecnet2 cmd p @ r) = Inr (9 + int (length p)) \<and>
   pacote_isecnet2_correto (pacote_isecnet2 cmd p) = Inr True \<and>
   pacote_isecnet2_parse (pacote_isecnet2 cmd p) = Inr (cmd, p) \<and>
   (\<forall>k < length (pacote_isecnet2 cmd p).
      pacote_isecnet2_completo (take k (pacote_isecnet2 cmd p)) = Inr 0)"
  by (simp add: pacote_completo pacote_correto pacote_parse pacote_curto del: length_pacote)
    simp

theorem isecnet2_ida_e_volta_exemplo:
  "pacote_isecnet2_completo (take 5 (pacote_isecnet2 0x0b4a [])) = Inr 0"
  using isecnet2_ida_e_volta [of "0x0b4a" "[]" "[]"] length_pacote [of "0x0b4a" "[]"] by simp

text \<open>C10. Any change of a single octet of an ISECNet2 packet, wherever it falls, is detected by
  \<^verbatim>\<open>pacote_isecnet2_correto\<close>.\<close>

theorem isecnet2_octeto_corrompido:
  assumes "0 \<le> cmd" "cmd < 65536" "bytes p" "length p \<le> 65533"
    and "i < 9 + length p" "byte b" "b \<noteq> pacote_isecnet2 cmd p ! i"
  shows "pacote_isecnet2_correto ((pacote_isecnet2 cmd p)[i := b]) = Inr False"
proof -
  let ?q = "pacote_isecnet2 cmd p"
  have "checksum ?q = 0" by (simp only: pacote_eq checksum_anexado)
  moreover have "checksum (?q[i := b]) \<noteq> checksum ?q"
    using assms by (intro checksum_troca bytes_pacote) simp_all
  ultimately show ?thesis
    by (simp add: pacote_isecnet2_correto_def parse_be16_fatia)
qed

theorem isecnet2_octeto_corrompido_exemplo:
  "pacote_isecnet2_correto ((pacote_isecnet2 0x0b4a [])[5 := 3]) = Inr False"
  by (rule isecnet2_octeto_corrompido [of "0x0b4a" "[]" 5 3])
    (simp_all add: byte_def pacote_eq be16_def)

text \<open>C16. The checksum of a frame followed by its own checksum is zero, and changing any one octet of a
  frame changes the checksum.\<close>

theorem checksum_detecta:
  assumes "bytes p" and "i < length p" and "byte b"
  shows "checksum (p @ [checksum p]) = 0 \<and> (checksum (p[i := b]) = checksum p \<longleftrightarrow> b = p ! i)"
  using checksum_anexado [of p] checksum_troca [OF assms] by (metis list_update_id)

theorem checksum_detecta_exemplo:
  "checksum ([1, 0x80] @ [checksum [1, 0x80]]) = 0 \<and> checksum ([1, 0x80][0 := 2]) \<noteq> checksum [1, 0x80]"
  using checksum_detecta [of "[1, 0x80]" 0 2] by (simp add: byte_def)

text \<open>C13. \<^verbatim>\<open>contact_id_decode\<close> yields -1 exactly when some digit is not between 1 and 10; otherwise its
  value has at most as many decimal digits as the field, and \<^verbatim>\<open>contact_id_encode\<close> gives the field
  back.\<close>

theorem contact_id_decodifica:
  "if list_all (\<lambda>d. 1 \<le> d \<and> d \<le> 10) ds
   then 0 \<le> contact_id_decode ds \<and> contact_id_decode ds < 10 ^ length ds \<and>
     contact_id_encode (contact_id_decode ds) (int (length ds)) = ds
   else contact_id_decode ds = -1"
  using contact_id_decode_mau [of ds] contact_id_decode_range [of ds] contact_id_encode_decode [of ds]
  by (simp add: contact_ok_def)

text \<open>C14. \<^verbatim>\<open>contact_id_encode\<close> writes a field of the length asked for, of digits between 1 and 10, which
  decodes to the number's absolute value without the digits that do not fit.\<close>

theorem contact_id_codifica:
  "length (contact_id_encode n k) = nat k \<and>
   list_all (\<lambda>d. 1 \<le> d \<and> d \<le> 10) (contact_id_encode n k) \<and>
   contact_id_decode (contact_id_encode n k) = \<bar>n\<bar> mod 10 ^ nat k"
  using contact_ok_encode [of n k] by (simp add: contact_id_decode_encode contact_ok_def)

text \<open>C17. \<^verbatim>\<open>from_bcd\<close> reads the number whose two-digit groups \<^verbatim>\<open>bcd\<close> wrote, and \<^verbatim>\<open>bcd\<close> always writes an
  octet, 0 when the number does not fit.\<close>

theorem bcd_ida_e_volta:
  "(\<forall>n. byte (bcd n) \<and> (n < 0 \<or> 99 < n \<longrightarrow> bcd n = 0)) \<and>
   (list_all (\<lambda>n. 0 \<le> n \<and> n \<le> 99) ns \<longrightarrow> from_bcd (map bcd ns) = valor100 ns)"
  using from_bcd_map_bcd [of ns] byte_bcd by (auto simp: bcd_def simp del: byte_bcd)

theorem bcd_ida_e_volta_exemplo: "from_bcd (map bcd [12, 34]) = 1234"
  using bcd_ida_e_volta [of "[12, 34]"] by (simp add: valor100_def)

text \<open>C15. The authentication packet is a correct ISECNet2 packet of octets that carries command 0xf0f0, the
  software type, the password's last digits in Contact-ID, and the version.\<close>

theorem auth_pacote:
  assumes "tam \<le> 65531"
  shows "bytes (pacote_isecnet2_auth senha tam) \<and>
    pacote_isecnet2_correto (pacote_isecnet2_auth senha tam) = Inr True \<and>
    (\<exists>ds. pacote_isecnet2_parse (pacote_isecnet2_auth senha tam) = Inr (0xf0f0, 0x02 # ds @ [0x10]) \<and>
       length ds = nat tam \<and> contact_id_decode ds = \<bar>senha\<bar> mod 10 ^ nat tam)"
proof -
  have "bytes (contact_id_encode senha tam)" by (rule contact_ok_bytes) simp
  with assms show ?thesis unfolding pacote_isecnet2_auth_def Let_def
    by (auto simp: pacote_correto pacote_parse contact_id_decode_encode byte_def intro!: bytes_pacote)
qed

theorem auth_pacote_exemplo: "bytes (pacote_isecnet2_auth 123456 6)"
  using auth_pacote [of 6 123456] by simp

end
