(* ===== verification/Comandos.thy ===== *)
theory Comandos
  imports Fotos Protocolo
begin

text \<open>
  The ISECNet2 client: \<^verbatim>\<open>alarmeitbl/comandos.py\<close> (class \<^verbatim>\<open>ComandarCentral\<close> and its
  subclasses) and \<^verbatim>\<open>alarmeitbl/obtem_fotos.py\<close> (class \<^verbatim>\<open>ObtemFotosDeEvento\<close>). A virtual
  method of the subclasses is one definition by cases on \<open>sub\<close>. The \<^verbatim>\<open>Observer\<close> of the
  script \<^verbatim>\<open>comandar\<close> is \<open>observador_resultado\<close>.
\<close>

subsection \<open>Creation and destruction\<close>

text \<open>The attribute \<^verbatim>\<open>cmd\<close> is set by the first \<^verbatim>\<open>envia_comando\<close>, before any use; 0 stands for unset.\<close>

definition comandar_init ::
  "bool \<Rightarrow> string \<Rightarrow> int \<Rightarrow> int \<Rightarrow> int \<Rightarrow> subclasse \<Rightarrow> mundo \<Rightarrow> (nat \<times> mundo) res" where
  "comandar_init obs ip port sen tam s w =
    res_bind (client_init ip port CComando w) (\<lambda>(h, w).
    res_bind (handler_timeout h ''conn_timeout'' 15 (CbConn h) w) (\<lambda>(t, w).
      Inr (h, muda_com h (\<lambda>_. \<lparr>observer = obs, conn_timeout = t, senha = sen, tam_senha = tam,
               status = 1, tratador_fase = SemTratador, cmd_enviado = 0, sub = s\<rparr>) w)))"

definition obtem_fotos_init ::
  "string \<Rightarrow> int \<Rightarrow> int \<Rightarrow> int \<Rightarrow> int \<Rightarrow> int \<Rightarrow> string \<Rightarrow> mundo \<Rightarrow> (nat \<times> mundo) res" where
  "obtem_fotos_init ip port indice nrfoto sen tam folder w =
    res_bind
      (comandar_init True ip port sen tam
        (ObtemFotosDeEvento \<lparr>of_indice = indice, of_nrfoto = nrfoto, of_arquivo = [],
           of_folder = folder, fragmento_corrente = 0, jpeg_corrente = []\<rparr>) w)
      (\<lambda>(h, w). Inr (h, muda_com h (\<lambda>c. c\<lparr>status := 2, tratador_fase := SemTratador\<rparr>) w))"

definition observador_resultado :: "int \<Rightarrow> mundo \<Rightarrow> mundo res" where
  "observador_resultado st w = (if st \<noteq> 0 then Inl (SystemExit st) else Inr w)"

definition com_destroyed_callback :: "config \<Rightarrow> nat \<Rightarrow> mundo \<Rightarrow> mundo res" where
  "com_destroyed_callback cfg h w =
    (case sub (coms w h) of
       ObtemFotosDeEvento f \<Rightarrow>
         resultado_foto cfg (of_indice f) (of_nrfoto f) (status (coms w h)) (of_arquivo f) w
     | _ \<Rightarrow> if observer (coms w h) then observador_resultado (status (coms w h)) w else Inr w)"

definition destroyed_callback :: "config \<Rightarrow> nat \<Rightarrow> mundo \<Rightarrow> mundo res" where
  "destroyed_callback cfg h w =
    (if classe_de w h = CComando then com_destroyed_callback cfg h w else Inr w)"

definition destroy :: "config \<Rightarrow> nat \<Rightarrow> mundo \<Rightarrow> mundo res" where
  "destroy cfg = handler_destroy (destroyed_callback cfg)"

subsection \<open>Sending\<close>

definition rearma_conn_timeout :: "nat \<Rightarrow> mundo \<Rightarrow> mundo res" where
  "rearma_conn_timeout h w = restart (conn_timeout (coms w h)) w"

definition cancela_conn_timeout :: "nat \<Rightarrow> mundo \<Rightarrow> mundo res" where
  "cancela_conn_timeout h w =
    res_bind (cancel (conn_timeout (coms w h)) w) (\<lambda>(cancelou, w). Inr w)"

definition autenticacao :: "nat \<Rightarrow> mundo \<Rightarrow> mundo res" where
  "autenticacao h w =
    (let pct = pacote_isecnet2_auth (senha (coms w h)) (tam_senha (coms w h));
         w = client_send h pct w;
         w = muda_com h (\<lambda>c. c\<lparr>tratador_fase := RespostaAutenticacao\<rparr>) w
     in rearma_conn_timeout h w)"

definition envia_comando :: "nat \<Rightarrow> int \<Rightarrow> int list \<Rightarrow> mundo \<Rightarrow> mundo res" where
  "envia_comando h cmd payload w =
    (let pct = pacote_isecnet2 cmd payload;
         w = client_send h pct w;
         w = muda_com h (\<lambda>c. c\<lparr>cmd_enviado := cmd, tratador_fase := RespostaComando\<rparr>) w
     in rearma_conn_timeout h w)"

definition despedida :: "nat \<Rightarrow> mundo \<Rightarrow> mundo res" where
  "despedida h w =
    (let w = client_send h pacote_isecnet2_bye w;
         w = muda_com h (\<lambda>c. c\<lparr>tratador_fase := SemTratador, status := 0\<rparr>) w
     in rearma_conn_timeout h w)"

definition obtem_fragmento_foto :: "nat \<Rightarrow> obtencao \<Rightarrow> mundo \<Rightarrow> mundo res" where
  "obtem_fragmento_foto h f w =
    envia_comando h 0x0bb0 (be16 (of_indice f) @ [of_nrfoto f, fragmento_corrente f]) w"

definition zona_invalida :: "int option \<Rightarrow> bool" where
  "zona_invalida z = (case z of None \<Rightarrow> True | Some z \<Rightarrow> z = 0 \<or> z < 1 \<or> z > 254)"

definition envia_comando_in :: "nat \<Rightarrow> mundo \<Rightarrow> mundo res" where
  "envia_comando_in h w =
    (case sub (coms w h) of
       AtivarDesativarCentral particao subcmd \<Rightarrow>
         envia_comando h 0x401e
           (case particao of None \<Rightarrow> [0xff, subcmd] | Some p \<Rightarrow> [p, subcmd]) w
     | DesligarSirene particao \<Rightarrow>
         envia_comando h 0x4019 (case particao of None \<Rightarrow> [0xff] | Some p \<Rightarrow> [p]) w
     | LimparDisparo \<Rightarrow> envia_comando h 0x4013 [] w
     | CancelarZona zona \<Rightarrow>
         if zona_invalida zona then Inl (Excecao ''Zona precisa ser especificada.'')
         else envia_comando h 0x401f [the zona - 1, 0x01] w
     | ReativarZona zona \<Rightarrow>
         if zona_invalida zona then Inl (Excecao ''Zona precisa ser especificada.'')
         else envia_comando h 0x401f [the zona - 1, 0x00] w
     | SolicitarStatus \<Rightarrow> envia_comando h 0x0b4a [] w
     | ObtemFotosDeEvento f \<Rightarrow>
         let f = f\<lparr>fragmento_corrente := 1, jpeg_corrente := []\<rparr>
         in obtem_fragmento_foto h f (muda_com h (\<lambda>c. c\<lparr>sub := ObtemFotosDeEvento f\<rparr>) w))"

subsection \<open>Status report\<close>

definition bits_para_numeros :: "int list \<Rightarrow> bool \<Rightarrow> string list" where
  "bits_para_numeros octetos inverso =
    concat (map (\<lambda>(i, octeto).
      concat (map (\<lambda>j. if ((octeto AND push_bit j 1 \<noteq> 0) \<and> \<not> inverso) \<or>
                          (\<not> (octeto AND push_bit j 1 \<noteq> 0) \<and> inverso)
                       then [fmt_d (int (1 + j + i * 8))] else []) [0..<8]))
      (enumerate 0 octetos))"

definition armado_de :: "int \<Rightarrow> armado res" where
  "armado_de n = (if n = 0x00 then Inr Desarmado else if n = 0x01 then Inr ParticoesArmadas
                  else if n = 0x03 then Inr TodasArmadas else Inl KeyError)"

definition tem_bit :: "int \<Rightarrow> int \<Rightarrow> bool" where
  "tem_bit n mascara \<longleftrightarrow> n AND mascara \<noteq> 0"

definition particao_status_de :: "nat \<Rightarrow> int \<Rightarrow> particao_status" where
  "particao_status_de particao n =
    \<lparr>p_numero = particao, p_stay = tem_bit n 0x40, p_delay_saida = tem_bit n 0x20,
     p_pronto = tem_bit n 0x10, p_alarme_ocorreu = tem_bit n 0x08, p_em_alarme = tem_bit n 0x04,
     p_armado_stay = tem_bit n 0x02, p_armado = tem_bit n 0x01\<rparr>"

fun particoes_laco :: "nat list \<Rightarrow> int list \<Rightarrow> particao_status list res" where
  "particoes_laco [] payload = Inr []"
| "particoes_laco (particao # ps) payload =
    res_bind (py_nth payload (22 + particao)) (\<lambda>n.
    res_bind (particoes_laco ps payload) (\<lambda>r.
      Inr (if tem_bit n 0x80 then particao_status_de particao n # r else r)))"

definition firmware_de :: "int list \<Rightarrow> (int \<times> int \<times> int) res" where
  "firmware_de v = (case v of [a, b, c] \<Rightarrow> Inr (a, b, c) | _ \<Rightarrow> Inl TypeError)"

definition status_de :: "int list \<Rightarrow> central_status res" where
  "status_de payload0 =
    (let payload = 0 # payload0
     in res_bind (py_nth payload 1) (\<lambda>tipo.
        res_bind (firmware_de (fatia 2 5 payload)) (\<lambda>fw.
        res_bind (py_nth payload 21) (\<lambda>geral.
        res_bind (armado_de (drop_bit 5 geral AND 0x03)) (\<lambda>arm.
        res_bind (particoes_laco [0..<17] payload) (\<lambda>ps.
          Inr \<lparr>s_amt8000 = (tipo = 0x01), s_firmware = fw, s_armado = arm,
               s_zonas_em_alarme = tem_bit geral 0x8, s_zonas_canceladas = tem_bit geral 0x10,
               s_zonas_fechadas = tem_bit geral 0x4, s_sirene = tem_bit geral 0x2,
               s_problemas = tem_bit geral 0x1, s_particoes = ps,
               s_abertas = join '', '' (bits_para_numeros (fatia 39 47 payload) False),
               s_disparadas = join '', '' (bits_para_numeros (fatia 47 55 payload) False),
               s_bypass = join '', '' (bits_para_numeros (fatia 55 63 payload) False),
               s_sirenes = join '', '' (bits_para_numeros (fatia 63 65 payload) False)\<rparr>))))))"

subsection \<open>Responses\<close>

definition nak :: "config \<Rightarrow> nat \<Rightarrow> int list \<Rightarrow> mundo \<Rightarrow> mundo res" where
  "nak cfg h payload w =
    (let w = (if length payload \<noteq> 1 then w else muda_com h (\<lambda>c. c\<lparr>status := 1\<rparr>) w)
     in destroy cfg h w)"

definition resposta_autenticacao :: "config \<Rightarrow> nat \<Rightarrow> int \<Rightarrow> int list \<Rightarrow> mundo \<Rightarrow> mundo res" where
  "resposta_autenticacao cfg h cmd payload w =
    (if cmd = 0xf0fd then nak cfg h payload w
     else if cmd \<noteq> 0xf0f0 then destroy cfg h w
     else if length payload \<noteq> 1 then destroy cfg h w
     else res_bind (py_nth payload 0) (\<lambda>resposta.
       if resposta > 0 then destroy cfg h w else envia_comando_in h w))"

definition foto_resposta_comando_in :: "config \<Rightarrow> nat \<Rightarrow> obtencao \<Rightarrow> int list \<Rightarrow> mundo \<Rightarrow> mundo res" where
  "foto_resposta_comando_in cfg h f payload w =
    (if length payload < 6 then destroy cfg h w
     else
       res_bind (parse_be16 (fatia 0 2 payload)) (\<lambda>indice.
       let foto = payload ! 2; fragmento = payload ! 4; nr_fragmentos = payload ! 5;
           fragmento_jpeg = drop 6 payload
       in if indice \<noteq> of_indice f then destroy cfg h w
          else if foto \<noteq> of_nrfoto f then destroy cfg h w
          else if fragmento \<noteq> fragmento_corrente f then destroy cfg h w
          else
            let f = f\<lparr>jpeg_corrente := jpeg_corrente f @ fragmento_jpeg\<rparr>
            in if fragmento < nr_fragmentos
               then let f = f\<lparr>fragmento_corrente := fragmento_corrente f + 1\<rparr>
                    in obtem_fragmento_foto h f (muda_com h (\<lambda>c. c\<lparr>sub := ObtemFotosDeEvento f\<rparr>) w)
               else
                 let arquivo = of_folder f @ ''/'' @ ''imagem.'' @ fmt_d indice @ ''.'' @ fmt_d foto @
                                 ''.'' @ fmt_6f (agora w) @ ''.jpeg'';
                     f = f\<lparr>of_arquivo := arquivo\<rparr>
                 in if \<not> a_open_ok (amb w) then Inl OSErro
                    else if \<not> bytes (jpeg_corrente f) then Inl ValueError
                    else despedida h
                           (emite (GravaArquivo arquivo (jpeg_corrente f))
                             (muda_com h (\<lambda>c. c\<lparr>sub := ObtemFotosDeEvento f\<rparr>) w))))"

definition resposta_comando_in :: "config \<Rightarrow> nat \<Rightarrow> int list \<Rightarrow> mundo \<Rightarrow> mundo res" where
  "resposta_comando_in cfg h payload w =
    (case sub (coms w h) of
       SolicitarStatus \<Rightarrow>
         res_bind (status_de payload) (\<lambda>s. despedida h (emite (ImprimeStatus s) w))
     | ObtemFotosDeEvento f \<Rightarrow> foto_resposta_comando_in cfg h f payload w
     | _ \<Rightarrow> despedida h w)"

definition resposta_comando :: "config \<Rightarrow> nat \<Rightarrow> int \<Rightarrow> int list \<Rightarrow> mundo \<Rightarrow> mundo res" where
  "resposta_comando cfg h cmd payload w =
    (if cmd = 0xf0fd then nak cfg h payload w
     else if cmd = 0xf0f7 then destroy cfg h w
     else if cmd \<noteq> cmd_enviado (coms w h) \<and> cmd \<noteq> 0xf0fe then destroy cfg h w
     else resposta_comando_in cfg h payload w)"

subsection \<open>Callbacks\<close>

definition com_conn_timeout :: "config \<Rightarrow> nat \<Rightarrow> mundo \<Rightarrow> mundo res" where
  "com_conn_timeout cfg h w =
    (let w = (if status (coms w h) \<noteq> 0 then muda_com h (\<lambda>c. c\<lparr>status := 1\<rparr>) w else w)
     in destroy cfg h w)"

definition connection_callback :: "nat \<Rightarrow> bool \<Rightarrow> mundo \<Rightarrow> mundo res" where
  "connection_callback h ok w =
    res_bind (cancela_conn_timeout h w) (\<lambda>w.
      if \<not> ok then Inr (muda_com h (\<lambda>c. c\<lparr>status := 1\<rparr>) w)
      else autenticacao h w)"

definition com_recv_callback :: "config \<Rightarrow> nat \<Rightarrow> int list \<Rightarrow> mundo \<Rightarrow> mundo res" where
  "com_recv_callback cfg h latest w =
    res_bind (pacote_isecnet2_completo (recv_buf (conns w h))) (\<lambda>compr.
      if compr = 0 then Inr w
      else
        let pct = take (nat compr) (recv_buf (conns w h));
            w = poe_recv_buf h (drop (nat compr) (recv_buf (conns w h))) w
        in res_bind (pacote_isecnet2_correto pct) (\<lambda>correto.
             if \<not> correto then destroy cfg h w
             else res_bind (pacote_isecnet2_parse pct) (\<lambda>(cmd, payload).
               case tratador_fase (coms w h) of
                 SemTratador \<Rightarrow> destroy cfg h w
               | RespostaAutenticacao \<Rightarrow>
                   res_bind (cancela_conn_timeout h w) (resposta_autenticacao cfg h cmd payload)
               | RespostaComando \<Rightarrow>
                   res_bind (cancela_conn_timeout h w) (resposta_comando cfg h cmd payload))))"

definition com_read_callback :: "config \<Rightarrow> nat \<Rightarrow> mundo \<Rightarrow> mundo res" where
  "com_read_callback cfg =
    client_read_callback (destroy cfg) (com_recv_callback cfg) (client_shutdown_callback (destroy cfg))"

definition com_write_callback :: "config \<Rightarrow> nat \<Rightarrow> mundo \<Rightarrow> mundo res" where
  "com_write_callback cfg = client_send_callback (destroy cfg) connection_callback"

subsection \<open>The photo queue starts a download\<close>

definition obtem_foto :: "config \<Rightarrow> mundo \<Rightarrow> mundo res" where
  "obtem_foto cfg w =
    (case fila (fotos w) of
       [] \<Rightarrow> Inr (muda_fotos (\<lambda>f. f\<lparr>task := None\<rparr>) w)
     | (ip_addr_cli, indice, nrfoto, tentativas) # _ \<Rightarrow>
         let ip = (if caddr cfg \<noteq> ''auto'' then caddr cfg else ip_addr_cli)
         in res_bind (obtem_fotos_init ip (cport cfg) indice nrfoto (cfg_senha cfg)
                        (cfg_tam_senha cfg) (folder_dlfoto cfg) w)
              (\<lambda>(h, w). Inr w))"

end
