(* ===== verification/Eventos.thy ===== *)
theory Eventos
  imports Ambiente
begin

text \<open>
  The Contact-ID events of \<^verbatim>\<open>alarmeitbl/tratador.py\<close>: the table \<^verbatim>\<open>eventos_contact_id\<close> and the
  choice of a description from the code and the qualifier, as \<^verbatim>\<open>evento_alarme\<close> makes it.
\<close>

definition eventos_contact_id :: "(int \<times> (string \<times> string) list) list" where
  "eventos_contact_id = [
    (100, [(''*'', ''Emergencia medica'')]),
    (110, [(''*'', ''Alarme de incendio'')]),
    (120, [(''*'', ''Panico'')]),
    (121, [(''*'', ''Ativacao/desativacao sob coacao'')]),
    (122, [(''*'', ''Panico silencioso'')]),
    (130, [(''aber'', ''Disparo de zona {zona}''), (''rest'', ''Restauracao de zona {zona}'')]),
    (133, [(''*'', ''Disparo de zona 24h {zona}'')]),
    (146, [(''*'', ''Disparo silencioso {zona}'')]),
    (301, [(''aber'', ''Falta de energia AC''), (''rest'', ''Retorno de energia AC'')]),
    (342, [(''aber'', ''Falta de energia AC em componente sem fio {zona}''), (''rest'', ''Retorno energia AC em componente sem fio {zona}'')]),
    (302, [(''aber'', ''Bateria do sistema baixa''), (''rest'', ''Recuperacao bateria do sistema baixa'')]),
    (305, [(''*'', ''Reset do sistema'')]),
    (306, [(''*'', ''Alteracao programacao'')]),
    (311, [(''aber'', ''Bateria ausente''), (''rest'', ''Recuperacao bateria ausente'')]),
    (351, [(''aber'', ''Corte linha telefonica''), (''rest'', ''Restauro linha telefonica'')]),
    (354, [(''*'', ''Falha ao comunicar evento'')]),
    (147, [(''aber'', ''Falha de supervisao {zona}''), (''rest'', ''Recuperacao falha de supervisao {zona}'')]),
    (145, [(''aber'', ''Tamper em dispositivo expansor {zona}''), (''rest'', ''Restauro tamper em dispositivo expansor {zona}'')]),
    (383, [(''aber'', ''Tamper em sensor {zona}''), (''rest'', ''Restauro tamper em sensor {zona}'')]),
    (384, [(''aber'', ''Bateria baixa em componente sem fio {zona}''), (''rest'', ''Recuperacao bateria baixa em componente sem fio {zona}'')]),
    (401, [(''rest'', ''Ativacao manual P{particao}''), (''aber'', ''Desativacao manual P{particao}'')]),
    (403, [(''rest'', ''Ativacao automatica P{particao}''), (''aber'', ''Desativacao automatica P{particao}'')]),
    (404, [(''rest'', ''Ativacao remota P{particao}''), (''aber'', ''Desativacao remota P{particao}'')]),
    (407, [(''rest'', ''Ativacao remota app P{particao}''), (''aber'', ''Desativacao remota app P{particao}'')]),
    (408, [(''*'', ''Ativacao por uma tecla P{particao}'')]),
    (410, [(''*'', ''Acesso remoto'')]),
    (461, [(''*'', ''Senha incorreta'')]),
    (533, [(''aber'', ''Adicao de zona {zona}''), (''rest'', ''Remocao de zona {zona}'')]),
    (570, [(''aber'', ''Bypass de zona {zona}''), (''rest'', ''Cancel bypass de zona {zona}'')]),
    (602, [(''*'', ''Teste periodico'')]),
    (621, [(''*'', ''Reset do buffer de eventos'')]),
    (601, [(''*'', ''Teste manual'')]),
    (616, [(''*'', ''Solicitacao de manutencao'')]),
    (422, [(''aber'', ''Acionamento de PGM {zona}''), (''rest'', ''Desligamento de PGM {zona}'')]),
    (625, [(''*'', ''Data e hora reiniciados'')])
  ]"

text \<open>
  \<open>None\<close> is the flag \<^verbatim>\<open>desconhecido\<close> left set; \<open>Some s\<close> is the format string chosen.
\<close>

definition squalif :: "(string \<times> string) list \<Rightarrow> int \<Rightarrow> string" where
  "squalif ev qualificador =
    (if qualificador = 1 then (if map_of ev ''aber'' = None then ''*'' else ''aber'')
     else if qualificador = 3 then (if map_of ev ''rest'' = None then ''*'' else ''rest'')
     else ''*'')"

definition scodigo :: "int \<Rightarrow> int \<Rightarrow> int \<Rightarrow> string option" where
  "scodigo tipo_msg codigo qualificador =
    (if tipo_msg = 18
     then (case map_of eventos_contact_id codigo of
             None \<Rightarrow> None
           | Some ev \<Rightarrow> map_of ev (squalif ev qualificador))
     else None)"

text \<open>A format string whose every replacement field is \<^verbatim>\<open>{zona}\<close> or \<^verbatim>\<open>{particao}\<close>.\<close>

definition formato_ok :: "string \<Rightarrow> bool" where
  "formato_ok s \<longleftrightarrow> (\<forall>zona particao. \<exists>r. formatar zona particao s = Inr r)"

end
