(* ===== verification/Tratador.thy ===== *)
theory Tratador
  imports Comandos Eventos
begin

text \<open>
  One connection from an alarm panel: \<^verbatim>\<open>alarmeitbl/tratador.py\<close> (class \<^verbatim>\<open>Tratador\<close>), with
  \<^verbatim>\<open>valida_central\<close>, \<^verbatim>\<open>centrais_conectadas\<close> and \<^verbatim>\<open>valida_maxconn\<close> of the script \<^verbatim>\<open>receptorip\<close>,
  which are attributes of the class. The attributes of an instance are \<open>trats w h\<close>, its buffers
  \<open>conns w h\<close>.
\<close>

definition backoff_minimo :: rat where
  "backoff_minimo = 1/8"

definition recuo_backoff_minimo :: rat where
  "recuo_backoff_minimo = 1"

subsection \<open>Admission\<close>

definition centrais_conectadas :: "mundo \<Rightarrow> int" where
  "centrais_conectadas w =
    int (length (filter (\<lambda>h. classe_de w h = CTratador \<and> central_identificada (trats w h)) (items w)))"

definition valida_maxconn :: "config \<Rightarrow> mundo \<Rightarrow> bool" where
  "valida_maxconn cfg w \<longleftrightarrow> centrais_conectadas w < maxconn cfg"

definition tratador_init :: "config \<Rightarrow> string \<Rightarrow> int \<Rightarrow> mundo \<Rightarrow> mundo res" where
  "tratador_init cfg ip port w =
    (let (h, w) = server_init ip port CTratador w
     in res_bind (handler_timeout h ''ident'' 120 (CbIdent h) w) (\<lambda>(ti, w).
        res_bind (handler_timeout h ''comm'' 600 (CbComm h) w) (\<lambda>(tc, w).
        let w = muda_trat h (\<lambda>_. \<lparr>backoff = backoff_minimo, ignorar = False,
                  central_identificada = False, to_ident = Some ti, to_comm = tc,
                  to_processa = None, to_incompleta = None, to_backoff = None, ip_addr = ip\<rparr>) w
        in Inr (if \<not> valida_maxconn cfg w
                then muda_trat h (\<lambda>t. t\<lparr>ignorar := True\<rparr>) w else w))))"

subsection \<open>Sending\<close>

definition envia :: "nat \<Rightarrow> int list \<Rightarrow> mundo \<Rightarrow> mundo res" where
  "envia h resposta w = (if bytes resposta then Inr (tcp_send h resposta w) else Inl ValueError)"

definition enquadrar :: "int list \<Rightarrow> int list" where
  "enquadrar dados0 =
    (let dados = [int (length dados0)] @ dados0
     in dados @ [checksum dados])"

definition envia_longo :: "nat \<Rightarrow> int list \<Rightarrow> mundo \<Rightarrow> mundo res" where
  "envia_longo h resposta w = (let resposta = enquadrar resposta in envia h resposta w)"

definition envia_curto :: "nat \<Rightarrow> int list \<Rightarrow> mundo \<Rightarrow> mundo res" where
  "envia_curto h resposta w = envia h resposta w"

subsection \<open>Hooks\<close>

definition msg_para_gancho :: "config \<Rightarrow> string list \<Rightarrow> mundo \<Rightarrow> mundo" where
  "msg_para_gancho cfg msg w =
    (let now = data_hora_str (a_data_hora (amb w));
         msgw = log_texto now msg
     in emite (Popen (gancho_msg cfg @ '' '' @ shlex_quote msgw)) w)"

definition ev_para_gancho :: "config \<Rightarrow> int \<Rightarrow> int \<Rightarrow> int \<Rightarrow> int \<Rightarrow> mundo \<Rightarrow> mundo" where
  "ev_para_gancho cfg codigo particao zona qualificador w =
    emite (Popen (gancho_ev cfg @ '' '' @ fmt_d codigo @ '' '' @ fmt_d particao @ '' '' @
             fmt_d zona @ '' '' @ fmt_d qualificador)) w"

subsection \<open>Messages\<close>

definition resposta_generica :: "nat \<Rightarrow> int list \<Rightarrow> mundo \<Rightarrow> mundo res" where
  "resposta_generica h msg w = envia_curto h [0xfe] w"

text \<open>The second half of \<^verbatim>\<open>identificacao_central\<close>, once the identifier is known.\<close>

definition admite_central :: "config \<Rightarrow> nat \<Rightarrow> string \<Rightarrow> mundo \<Rightarrow> mundo res" where
  "admite_central cfg h macaddr_s w =
    (if \<not> centrais cfg macaddr_s then Inr (muda_trat h (\<lambda>t. t\<lparr>ignorar := True\<rparr>) w)
     else if \<not> valida_maxconn cfg w then Inr (muda_trat h (\<lambda>t. t\<lparr>ignorar := True\<rparr>) w)
     else
       let w = muda_trat h (\<lambda>t. t\<lparr>central_identificada := True\<rparr>) w
       in res_bind
            (case to_ident (trats w h) of
               None \<Rightarrow> Inr w
             | Some t \<Rightarrow> res_bind (cancel t w) (\<lambda>(c, w).
                 Inr (muda_trat h (\<lambda>t. t\<lparr>to_ident := None\<rparr>) w)))
            (envia_curto h [0xfe]))"

definition identificacao_central :: "config \<Rightarrow> nat \<Rightarrow> int list \<Rightarrow> mundo \<Rightarrow> mundo res" where
  "identificacao_central cfg h msg w =
    res_bind (if length msg \<noteq> 7 then envia_curto h [0xfe] w else Inr w) (\<lambda>w.
    res_bind (py_nth msg 0) (\<lambda>canal.
      let conta = from_bcd (fatia 1 3 msg);
          macaddr = fatia 3 6 msg;
          macaddr_s = join '':'' (map fmt_02x macaddr)
      in admite_central cfg h macaddr_s w))"

definition solicita_data_hora :: "nat \<Rightarrow> int list \<Rightarrow> mundo \<Rightarrow> mundo res" where
  "solicita_data_hora h msg w =
    (let agora = a_data_hora (amb w);
         dow = (dia_semana agora + 1) mod 7;
         resposta = [0x80, bcd (ano agora - 2000), bcd (mes agora), bcd (dia agora), bcd dow,
                     bcd (hora agora), bcd (minuto agora), bcd (segundo agora)]
     in envia_longo h resposta w)"

fun enfileira_fotos :: "config \<Rightarrow> string \<Rightarrow> int \<Rightarrow> nat list \<Rightarrow> mundo \<Rightarrow> mundo" where
  "enfileira_fotos cfg ip indice [] w = w"
| "enfileira_fotos cfg ip indice (n # ns) w =
    enfileira_fotos cfg ip indice ns (enfileirar cfg ip indice (int n) w)"

text \<open>The fields of an event message, read once its length is known to be right.\<close>

record evento =
  ev_canal :: int
  ev_contact_id :: int
  ev_tipo_msg :: int
  ev_qualificador :: int
  ev_codigo :: int
  ev_particao :: int
  ev_zona :: int
  ev_indice :: int
  ev_nr_fotos :: int

definition le_evento :: "int list \<Rightarrow> bool \<Rightarrow> evento" where
  "le_evento msg com_foto =
    \<lparr>ev_canal = msg ! 0,
     ev_contact_id = contact_id_decode (fatia 1 5 msg),
     ev_tipo_msg = contact_id_decode (fatia 5 7 msg),
     ev_qualificador = msg ! 7,
     ev_codigo = contact_id_decode (fatia 8 11 msg),
     ev_particao = contact_id_decode (fatia 11 13 msg),
     ev_zona = contact_id_decode (fatia 13 16 msg),
     ev_indice = (if com_foto then msg ! 17 * 256 + msg ! 18 else 0),
     ev_nr_fotos = (if com_foto then msg ! 19 else 0)\<rparr>"

definition msg_desconhecido :: "evento \<Rightarrow> string" where
  "msg_desconhecido e =
    ''Evento de alarme canal '' @ fmt_02x (ev_canal e) @ '' contact_id '' @ fmt_d (ev_contact_id e) @
    '' tipo '' @ fmt_d (ev_tipo_msg e) @ '' qualificador '' @ fmt_d (ev_qualificador e) @
    '' codigo '' @ fmt_d (ev_codigo e) @ '' particao '' @ fmt_d (ev_particao e) @
    '' zona '' @ fmt_d (ev_zona e)"

definition relata_evento :: "config \<Rightarrow> nat \<Rightarrow> evento \<Rightarrow> bool \<Rightarrow> mundo \<Rightarrow> mundo res" where
  "relata_evento cfg h e com_foto w =
    (case scodigo (ev_tipo_msg e) (ev_codigo e) (ev_qualificador e) of
       Some s \<Rightarrow>
         let fotos_s = (if com_foto
               then ''(com fotos, i='' @ fmt_d (ev_indice e) @ '' n='' @ fmt_d (ev_nr_fotos e) @ '')'' else [])
         in res_bind (formatar (ev_zona e) (ev_particao e) s) (\<lambda>descricao_humana.
              let w = msg_para_gancho cfg [descricao_humana, fotos_s] w
              in Inr (if com_foto
                      then enfileira_fotos cfg (ip_addr (trats w h)) (ev_indice e) [0..<nat (ev_nr_fotos e)] w
                      else w))
     | None \<Rightarrow> Inr (msg_para_gancho cfg [msg_desconhecido e] w))"

definition evento_alarme :: "config \<Rightarrow> nat \<Rightarrow> int list \<Rightarrow> bool \<Rightarrow> mundo \<Rightarrow> mundo res" where
  "evento_alarme cfg h msg com_foto w =
    (let compr = (if com_foto then 20 else 17)
     in if length msg \<noteq> compr then envia_curto h [0xfe] w
        else
          let e = le_evento msg com_foto;
              w = ev_para_gancho cfg (ev_codigo e) (ev_particao e) (ev_zona e) (ev_qualificador e) w
          in res_bind (relata_evento cfg h e com_foto w) (envia_curto h [0xfe]))"

subsection \<open>Consuming the buffer\<close>

definition consome_frame_curto :: "nat \<Rightarrow> mundo \<Rightarrow> (bool \<times> mundo) res" where
  "consome_frame_curto h w =
    (case recv_buf (conns w h) of
       [] \<Rightarrow> Inr (False, w)
     | b # resto \<Rightarrow>
         if b = 0xf7
         then res_bind (envia_curto h [0xfe] (poe_recv_buf h resto w)) (\<lambda>w. Inr (True, w))
         else Inr (False, w))"

definition trata_msg :: "config \<Rightarrow> nat \<Rightarrow> int \<Rightarrow> int list \<Rightarrow> mundo \<Rightarrow> mundo res" where
  "trata_msg cfg h tipo msg w =
    (if tipo = 0x80 then solicita_data_hora h msg w
     else if tipo = 0x94 then identificacao_central cfg h msg w
     else if tipo = 0xb0 then evento_alarme cfg h msg False w
     else if tipo = 0xb5 then evento_alarme cfg h msg True w
     else resposta_generica h msg w)"

text \<open>A checksum error is only logged by the code.\<close>

definition consome_frame_longo :: "config \<Rightarrow> nat \<Rightarrow> mundo \<Rightarrow> (bool \<times> mundo) res" where
  "consome_frame_longo cfg h w =
    (let buf = recv_buf (conns w h)
     in if length buf < 2 then Inr (False, w)
        else
          let esperado = buf ! 0 + 2
          in if int (length buf) < esperado then Inr (False, w)
             else
               let rawmsg = take (nat esperado) buf;
                   w = poe_recv_buf h (drop (nat esperado) buf) w;
                   msg = drop 1 rawmsg
               in case msg of
                    [] \<Rightarrow> Inr (True, w)
                  | tipo # msg \<Rightarrow> res_bind (trata_msg cfg h tipo msg w) (\<lambda>w. Inr (True, w)))"

definition consome_msg :: "config \<Rightarrow> nat \<Rightarrow> mundo \<Rightarrow> (bool \<times> bool \<times> mundo) res" where
  "consome_msg cfg h w =
    res_bind (consome_frame_curto h w) (\<lambda>(curto, w).
    res_bind (if curto then Inr (True, w) else consome_frame_longo cfg h w) (\<lambda>(consumiu, w).
      if consumiu
      then res_bind
             (case to_incompleta (trats w h) of
                None \<Rightarrow> Inr w
              | Some t \<Rightarrow> res_bind (cancel t w) (\<lambda>(c, w).
                  Inr (muda_trat h (\<lambda>t. t\<lparr>to_incompleta := None\<rparr>) w)))
             (\<lambda>w. Inr (True, recv_buf (conns w h) \<noteq> [], w))
      else if recv_buf (conns w h) \<noteq> [] \<and> to_incompleta (trats w h) = None
      then res_bind (handler_timeout h ''msgincompleta'' 60 (CbMsgIncompleta h) w) (\<lambda>(t, w).
             Inr (False, False, muda_trat h (\<lambda>tr. tr\<lparr>to_incompleta := Some t\<rparr>) w))
      else Inr (False, False, w)))"

definition agenda_recuo :: "nat \<Rightarrow> mundo \<Rightarrow> mundo res" where
  "agenda_recuo h w =
    res_bind (handler_timeout h ''recuar_backoff''
                (max recuo_backoff_minimo (backoff (trats w h) * 2)) (CbRecuarBackoff h) w)
      (\<lambda>(t, w). Inr (muda_trat h (\<lambda>tr. tr\<lparr>to_backoff := Some t\<rparr>) w))"

definition avancar_backoff :: "nat \<Rightarrow> mundo \<Rightarrow> mundo res" where
  "avancar_backoff h w =
    (let w = muda_trat h (\<lambda>t. t\<lparr>backoff := backoff t * 2\<rparr>) w
     in res_bind
          (case to_backoff (trats w h) of
             None \<Rightarrow> Inr w
           | Some t \<Rightarrow> res_bind (cancel t w) (\<lambda>(c, w).
               Inr (muda_trat h (\<lambda>t. t\<lparr>to_backoff := None\<rparr>) w)))
          (agenda_recuo h))"

definition recuar_backoff :: "nat \<Rightarrow> mundo \<Rightarrow> mundo res" where
  "recuar_backoff h w =
    (let w = muda_trat h (\<lambda>t. t\<lparr>to_backoff := None\<rparr>) w;
         w = muda_trat h (\<lambda>t. t\<lparr>backoff := max (backoff t / 2) backoff_minimo\<rparr>) w
     in if backoff (trats w h) > backoff_minimo then agenda_recuo h w else Inr w)"

definition agenda_processa :: "nat \<Rightarrow> mundo \<Rightarrow> mundo res" where
  "agenda_processa h w =
    res_bind (handler_timeout h ''proc_msg'' (backoff (trats w h)) (CbProcMsg h) w)
      (\<lambda>(t, w). Inr (muda_trat h (\<lambda>tr. tr\<lparr>to_processa := Some t\<rparr>) w))"

definition processar_msg :: "config \<Rightarrow> nat \<Rightarrow> mundo \<Rightarrow> mundo res" where
  "processar_msg cfg h w =
    (let w = muda_trat h (\<lambda>t. t\<lparr>to_processa := None\<rparr>) w
     in res_bind (consome_msg cfg h w) (\<lambda>(msg_aceita, msgs_pendentes, w).
        res_bind (if msg_aceita then avancar_backoff h w else Inr w) (\<lambda>w.
        if msgs_pendentes then agenda_processa h w else Inr w)))"

subsection \<open>Callbacks\<close>

definition timeout_comunicacao :: "config \<Rightarrow> nat \<Rightarrow> mundo \<Rightarrow> mundo res" where
  "timeout_comunicacao cfg h w = destroy cfg h w"

definition timeout_msgincompleta :: "config \<Rightarrow> nat \<Rightarrow> mundo \<Rightarrow> mundo res" where
  "timeout_msgincompleta cfg h w = destroy cfg h w"

definition timeout_identificacao :: "config \<Rightarrow> nat \<Rightarrow> mundo \<Rightarrow> mundo res" where
  "timeout_identificacao cfg h w = destroy cfg h w"

definition trat_recv_callback :: "nat \<Rightarrow> int list \<Rightarrow> mundo \<Rightarrow> mundo res" where
  "trat_recv_callback h latest w =
    (if ignorar (trats w h) then Inr (poe_recv_buf h [] w)
     else res_bind (restart (to_comm (trats w h)) w) (\<lambda>w.
            if to_processa (trats w h) = None then agenda_processa h w else Inr w))"

definition trat_shutdown_callback :: "config \<Rightarrow> nat \<Rightarrow> mundo \<Rightarrow> mundo res" where
  "trat_shutdown_callback cfg h w = destroy cfg h w"

definition trat_read_callback :: "config \<Rightarrow> nat \<Rightarrow> mundo \<Rightarrow> mundo res" where
  "trat_read_callback cfg =
    tcp_read_callback (destroy cfg) trat_recv_callback (trat_shutdown_callback cfg)"

definition trat_send_callback :: "config \<Rightarrow> nat \<Rightarrow> mundo \<Rightarrow> mundo res" where
  "trat_send_callback cfg = server_write_callback (server_send_callback (destroy cfg))"

end
