(* ===== verification/Receptor.thy ===== *)
theory Receptor
  imports Tratador
begin

text \<open>
  The programs: the dispatch of the virtual methods of every class, the periodic tasks and the
  start-up of the script \<^verbatim>\<open>receptorip\<close>, and the step relation and reachable states of the receiver.
\<close>

definition watchdog :: "config \<Rightarrow> nat \<Rightarrow> mundo \<Rightarrow> mundo res" where
  "watchdog cfg to_obj w = reset to_obj 3600 (emite (Popen (gancho_watchdog cfg)) w)"

definition central_nao_conectada :: "config \<Rightarrow> nat \<Rightarrow> mundo \<Rightarrow> mundo res" where
  "central_nao_conectada cfg to_obj w =
    (let w = (if centrais_conectadas w = 0
              then (if alarme w \<le> 0
                    then emite (Popen (gancho_central cfg @ '' 1'')) (w\<lparr>alarme := 1\<rparr>) else w)
              else (if alarme w > 0
                    then emite (Popen (gancho_central cfg @ '' 0'')) (w\<lparr>alarme := 0\<rparr>) else w))
     in restart to_obj w)"

definition chama_timeout :: "config \<Rightarrow> callback \<Rightarrow> nat \<Rightarrow> mundo \<Rightarrow> mundo res" where
  "chama_timeout cfg cb to_obj w =
    (case cb of
       CbIdent h \<Rightarrow> timeout_identificacao cfg h w
     | CbComm h \<Rightarrow> timeout_comunicacao cfg h w
     | CbMsgIncompleta h \<Rightarrow> timeout_msgincompleta cfg h w
     | CbProcMsg h \<Rightarrow> processar_msg cfg h w
     | CbRecuarBackoff h \<Rightarrow> recuar_backoff h w
     | CbConn h \<Rightarrow> com_conn_timeout cfg h w
     | CbFoto \<Rightarrow> obtem_foto cfg w
     | CbWatchdog \<Rightarrow> watchdog cfg to_obj w
     | CbCentralNC \<Rightarrow> central_nao_conectada cfg to_obj w)"

definition metodos_mundo :: "config \<Rightarrow> (callback, mundo) metodos" where
  "metodos_mundo cfg =
    \<lparr>is_readable = (\<lambda>h w. if classe_de w h = CComando then client_is_readable h w
                          else handler_is_readable h w),
     is_writable = (\<lambda>h w. case classe_de w h of
                            CListener \<Rightarrow> handler_is_writable h w
                          | CTratador \<Rightarrow> server_is_writable h w
                          | CComando \<Rightarrow> client_is_writable h w),
     is_exceptional = handler_is_exceptional,
     m_read_callback = (\<lambda>h w. case classe_de w h of
                            CListener \<Rightarrow> listener_read_callback (tratador_init cfg) w
                          | CTratador \<Rightarrow> trat_read_callback cfg h w
                          | CComando \<Rightarrow> com_read_callback cfg h w),
     m_write_callback = (\<lambda>h w. case classe_de w h of
                            CListener \<Rightarrow> handler_write_callback h w
                          | CTratador \<Rightarrow> trat_send_callback cfg h w
                          | CComando \<Rightarrow> com_write_callback cfg h w),
     m_exceptional_callback = handler_exceptional_callback (destroy cfg),
     m_timeout = chama_timeout cfg\<rparr>"

abbreviation ciclo :: "config \<Rightarrow> resposta \<Rightarrow> mundo \<Rightarrow> (bool \<times> mundo) res" where
  "ciclo cfg \<equiv> cycle (metodos_mundo cfg)"

subsection \<open>Start-up of the receiver\<close>

definition mundo_vazio :: "rat \<Rightarrow> ambiente \<Rightarrow> mundo" where
  "mundo_vazio t0 a =
    \<lparr>agora = t0,
     tobjs = (\<lambda>_. \<lparr>to_owner = None, to_label = [], to_relative = 0, to_absolute = 0,
                   to_callback = CbFoto, to_invalid = False\<rparr>),
     pending = [], prox = 0, items = [],
     hobjs = (\<lambda>_. \<lparr>h_label = [], h_fd = 0, h_destroyed = False, h_classe = CListener\<rparr>),
     amb = a,
     conns = (\<lambda>_. \<lparr>recv_buf = [], send_buf = [], connecting = False\<rparr>),
     trats = (\<lambda>_. \<lparr>backoff = backoff_minimo, ignorar = False, central_identificada = False,
                   to_ident = None, to_comm = 0, to_processa = None, to_incompleta = None,
                   to_backoff = None, ip_addr = []\<rparr>),
     coms = (\<lambda>_. \<lparr>observer = False, conn_timeout = 0, senha = 0, tam_senha = 0, status = 1,
                  tratador_fase = SemTratador, cmd_enviado = 0, sub = LimparDisparo\<rparr>),
     fotos = fotos_init, saidas = [], alarme = 0\<rparr>"

definition receptor_init :: "rat \<Rightarrow> ambiente \<Rightarrow> mundo" where
  "receptor_init t0 a =
    (let w = mundo_vazio t0 a;
         (_, w) = timeout_new None ''watchdog'' 15 CbWatchdog w;
         (_, w) = listener_init CListener w;
         (_, w) = timeout_new None ''central_nc'' 3600 CbCentralNC w
     in w)"

text \<open>What the operating system may answer in state \<open>w\<close>.\<close>

definition resposta_valida :: "config \<Rightarrow> resposta \<Rightarrow> mundo \<Rightarrow> bool" where
  "resposta_valida cfg r w \<longleftrightarrow>
    select_valido (metodos_mundo cfg) r w \<and> recv_valido (a_recv (r_amb r)) \<and>
    (r_wr r \<noteq> [] \<longrightarrow>
      (case find_by_fd (hd (r_wr r)) w of None \<Rightarrow> True
       | Some h \<Rightarrow> send_valido (a_send (r_amb r)) (send_buf (conns w h))))"

inductive passo :: "config \<Rightarrow> mundo \<Rightarrow> resposta \<Rightarrow> mundo \<Rightarrow> bool" for cfg where
  passo: "resposta_valida cfg r w \<Longrightarrow> ciclo cfg r w = Inr (True, w') \<Longrightarrow> passo cfg w r w'"

inductive_cases passo_elim: "passo cfg w r w'"
inductive_simps passo_simp: "passo cfg w r w'"

inductive alcancavel :: "config \<Rightarrow> mundo \<Rightarrow> bool" for cfg where
  inicio: "alcancavel cfg (receptor_init t0 a)"
| avanco: "alcancavel cfg w \<Longrightarrow> passo cfg w r w' \<Longrightarrow> alcancavel cfg w'"

end
