(* ===== verification/Invariante.thy ===== *)
theory Invariante
  imports Receptor
begin

text \<open>
  The invariant of the receiver and the frame of an operation on one handler: which timeouts a
  connection owns, that every reference to a timeout is to a pending one, that the photo queue
  and the download in progress agree, and that an operation on a handler leaves the others alone.
\<close>

subsection \<open>Timeouts of one handler\<close>

definition dono :: "mundo \<Rightarrow> nat \<Rightarrow> nat \<Rightarrow> callback timeout option" where
  "dono w h = de (Some h) (pv w)"

definition sem_dono :: "mundo \<Rightarrow> nat \<Rightarrow> callback timeout option" where
  "sem_dono w = de None (pv w)"

definition arm :: "(nat \<Rightarrow> callback timeout option) \<Rightarrow> nat \<Rightarrow> callback \<Rightarrow> bool" where
  "arm m t cb \<longleftrightarrow> (\<exists>ob. m t = Some ob \<and> to_callback ob = cb)"

definition arm_opt :: "(nat \<Rightarrow> callback timeout option) \<Rightarrow> nat option \<Rightarrow> callback \<Rightarrow> bool" where
  "arm_opt m r cb \<longleftrightarrow> (case r of None \<Rightarrow> True | Some t \<Rightarrow> arm m t cb)"

text \<open>A connection from a panel: its five timeouts, and nothing else, are pending on its behalf.\<close>

definition trat_ok :: "nat \<Rightarrow> tratador \<Rightarrow> conexao \<Rightarrow> (nat \<Rightarrow> callback timeout option) \<Rightarrow> bool" where
  "trat_ok h T c m \<longleftrightarrow>
    (\<forall>t ob. m t = Some ob \<longrightarrow>
       (t = to_comm T \<and> to_callback ob = CbComm h) \<or>
       (to_ident T = Some t \<and> to_callback ob = CbIdent h) \<or>
       (to_processa T = Some t \<and> to_callback ob = CbProcMsg h) \<or>
       (to_incompleta T = Some t \<and> to_callback ob = CbMsgIncompleta h) \<or>
       (to_backoff T = Some t \<and> to_callback ob = CbRecuarBackoff h)) \<and>
    arm m (to_comm T) (CbComm h) \<and>
    arm_opt m (to_ident T) (CbIdent h) \<and>
    arm_opt m (to_processa T) (CbProcMsg h) \<and>
    arm_opt m (to_incompleta T) (CbMsgIncompleta h) \<and>
    arm_opt m (to_backoff T) (CbRecuarBackoff h) \<and>
    (central_identificada T \<longleftrightarrow> to_ident T = None) \<and>
    (to_backoff T = None \<longleftrightarrow> backoff T = backoff_minimo) \<and>
    (\<exists>k. backoff T = backoff_minimo * 2 ^ k) \<and>
    bytes (recv_buf c) \<and> bytes (send_buf c) \<and> \<not> connecting c"

text \<open>Octets waiting in the buffer are waited for by a timeout.\<close>

definition trat_vivo :: "tratador \<Rightarrow> conexao \<Rightarrow> bool" where
  "trat_vivo T c \<longleftrightarrow>
    (recv_buf c \<noteq> [] \<and> \<not> ignorar T \<longrightarrow> to_processa T \<noteq> None \<or> to_incompleta T \<noteq> None)"

text \<open>A download: one timeout, octets in the buffers, and a request that fits its packet.\<close>

definition obtencao_ok :: "obtencao \<Rightarrow> bool" where
  "obtencao_ok f \<longleftrightarrow>
    0 \<le> of_indice f \<and> of_indice f < 65536 \<and> byte (of_nrfoto f) \<and>
    byte (fragmento_corrente f) \<and> bytes (jpeg_corrente f)"

definition com_ok :: "nat \<Rightarrow> comando \<Rightarrow> conexao \<Rightarrow> (nat \<Rightarrow> callback timeout option) \<Rightarrow> bool" where
  "com_ok h C c m \<longleftrightarrow>
    (\<forall>t ob. m t = Some ob \<longrightarrow> t = conn_timeout C \<and> to_callback ob = CbConn h) \<and>
    arm m (conn_timeout C) (CbConn h) \<and> tam_senha C \<le> 6 \<and>
    (\<exists>f. sub C = ObtemFotosDeEvento f \<and> obtencao_ok f) \<and>
    bytes (recv_buf c) \<and> bytes (send_buf c)"

definition objeto_ok :: "nat \<Rightarrow> mundo \<Rightarrow> bool" where
  "objeto_ok h w \<longleftrightarrow>
    (case classe_de w h of
       CListener \<Rightarrow> dono w h = Map.empty
     | CTratador \<Rightarrow> trat_ok h (trats w h) (conns w h) (dono w h) \<and> trat_vivo (trats w h) (conns w h)
     | CComando \<Rightarrow> com_ok h (coms w h) (conns w h) (dono w h))"

subsection \<open>The photo queue and the download in progress\<close>

definition em_curso :: "mundo \<Rightarrow> nat list" where
  "em_curso w = filter (\<lambda>h. classe_de w h = CComando) (items w)"

definition foto_valida :: "foto \<Rightarrow> bool" where
  "foto_valida e = (case e of (ip, i, n, k) \<Rightarrow> 0 \<le> i \<and> i < 65536 \<and> byte n \<and> 1 \<le> k \<and> k \<le> 10)"

text \<open>Handler \<open>h\<close> downloads the photo at the head of the queue.\<close>

definition baixa_primeira :: "mundo \<Rightarrow> nat \<Rightarrow> bool" where
  "baixa_primeira w h \<longleftrightarrow>
    (\<exists>f ip k resto. sub (coms w h) = ObtemFotosDeEvento f \<and>
       fila (fotos w) = (ip, of_indice f, of_nrfoto f, k) # resto)"

definition fotos_ok :: "mundo \<Rightarrow> bool" where
  "fotos_ok w \<longleftrightarrow>
    list_all foto_valida (fila (fotos w)) \<and>
    (case task (fotos w) of
       None \<Rightarrow> fila (fotos w) = [] \<and> em_curso w = []
     | Some t \<Rightarrow>
         t < prox w \<and> to_owner (tobjs w t) = None \<and> to_callback (tobjs w t) = CbFoto \<and>
         \<not> to_invalid (tobjs w t) \<and>
         (if sem_dono w t = None then \<exists>h. em_curso w = [h] \<and> baixa_primeira w h
          else em_curso w = []))"

definition tarefas_ok :: "mundo \<Rightarrow> bool" where
  "tarefas_ok w \<longleftrightarrow>
    (\<forall>t ob. sem_dono w t = Some ob \<longrightarrow>
       (to_callback ob = CbFoto \<and> task (fotos w) = Some t) \<or>
       to_callback ob = CbWatchdog \<or> to_callback ob = CbCentralNC)"

definition periodicas_ok :: "mundo \<Rightarrow> bool" where
  "periodicas_ok w \<longleftrightarrow>
    (\<exists>t. arm (sem_dono w) t CbWatchdog) \<and> (\<exists>t. arm (sem_dono w) t CbCentralNC)"

definition limite :: "config \<Rightarrow> int" where
  "limite cfg = max 0 (maxconn cfg)"

definition invar :: "config \<Rightarrow> mundo \<Rightarrow> bool" where
  "invar cfg w \<longleftrightarrow>
    inv_tempo w \<and> inv_registro w \<and> (\<forall>h\<in>set (items w). objeto_ok h w) \<and>
    fotos_ok w \<and> tarefas_ok w \<and> periodicas_ok w \<and>
    (\<exists>h\<in>set (items w). classe_de w h = CListener) \<and>
    centrais_conectadas w \<le> limite cfg"

subsection \<open>Frame of an operation on one handler\<close>

definition mesmo :: "nat \<Rightarrow> mundo \<Rightarrow> mundo \<Rightarrow> bool" where
  "mesmo h w w' \<longleftrightarrow>
    trats w' h = trats w h \<and> coms w' h = coms w h \<and> conns w' h = conns w h \<and> dono w' h = dono w h"

definition periodica :: "callback \<Rightarrow> bool" where
  "periodica cb \<longleftrightarrow> cb = CbWatchdog \<or> cb = CbCentralNC"

definition local :: "config \<Rightarrow> nat \<Rightarrow> mundo \<Rightarrow> mundo \<Rightarrow> bool" where
  "local cfg h w w' \<longleftrightarrow>
    inv_tempo w' \<and> prox w \<le> prox w' \<and> items w' = items w \<and> hobjs w' = hobjs w \<and>
    agora w' = agora w \<and> amb w' = amb w \<and> alarme w' = alarme w \<and>
    (\<forall>h'. h' \<noteq> h \<longrightarrow> mesmo h' w w') \<and>
    (fotos_ok w \<longrightarrow> fotos_ok w') \<and> (tarefas_ok w \<longrightarrow> tarefas_ok w') \<and>
    (\<forall>t cb. periodica cb \<longrightarrow> arm (sem_dono w) t cb \<longrightarrow> arm (sem_dono w') t cb) \<and>
    centrais_conectadas w' \<le> max (centrais_conectadas w) (limite cfg)"

lemma mesmo_refl [simp]: "mesmo h w w"
  by (simp add: mesmo_def)

lemma mesmo_trans: "mesmo h w w' \<Longrightarrow> mesmo h w' w'' \<Longrightarrow> mesmo h w w''"
  by (simp add: mesmo_def)

lemma local_refl: "inv_tempo w \<Longrightarrow> local cfg h w w"
  by (simp add: local_def)

lemma local_trans: "local cfg h w w' \<Longrightarrow> local cfg h w' w'' \<Longrightarrow> local cfg h w w''"
  unfolding local_def by (auto intro: mesmo_trans)

lemma local_inv_tempo: "local cfg h w w' \<Longrightarrow> inv_tempo w'"
  by (simp add: local_def)

lemma objeto_ok_mesmo: "mesmo h w w' \<Longrightarrow> hobjs w' = hobjs w \<Longrightarrow> objeto_ok h w' = objeto_ok h w"
  by (simp add: mesmo_def objeto_ok_def split: classe.split)

subsection \<open>Primitive changes\<close>

lemma pv_iguais: "pending w' = pending w \<Longrightarrow> tobjs w' = tobjs w \<Longrightarrow> dono w' = dono w \<and> sem_dono w' = sem_dono w"
  by (simp add: dono_def sem_dono_def fun_eq_iff pv_def de_def)

lemma fotos_ok_frame:
  assumes "fotos w' = fotos w" and "em_curso w' = em_curso w" and "sem_dono w' = sem_dono w"
    and "prox w \<le> prox w'" and "\<And>t. t < prox w \<Longrightarrow> to_owner (tobjs w t) = None \<Longrightarrow> tobjs w' t = tobjs w t"
    and "\<And>h. h \<in> set (em_curso w) \<Longrightarrow> baixa_primeira w h \<Longrightarrow> baixa_primeira w' h"
    and "fotos_ok w"
  shows "fotos_ok w'"
proof (cases "task (fotos w)")
  case None
  with assms show ?thesis by (simp add: fotos_ok_def)
next
  case (Some t)
  with assms(7) have t: "t < prox w" "to_owner (tobjs w t) = None" by (simp_all add: fotos_ok_def)
  with assms(5) have "tobjs w' t = tobjs w t" by simp
  with Some t assms show ?thesis by (auto simp: fotos_ok_def split: if_splits)
qed

lemma centrais_frame:
  assumes "items w' = items w" and "hobjs w' = hobjs w"
    and "\<And>h. h \<in> set (items w) \<Longrightarrow> classe_de w h = CTratador \<Longrightarrow>
      central_identificada (trats w' h) \<Longrightarrow> central_identificada (trats w h)"
  shows "centrais_conectadas w' \<le> centrais_conectadas w"
proof -
  have "length (filter (\<lambda>h. classe_de w h = CTratador \<and> central_identificada (trats w' h)) xs) \<le>
      length (filter (\<lambda>h. classe_de w h = CTratador \<and> central_identificada (trats w h)) xs)"
    if "set xs \<subseteq> set (items w)" for xs
    using that by (induction xs) (use assms(3) in auto)
  then show ?thesis by (simp add: centrais_conectadas_def assms(1,2))
qed

lemma local_campos:
  assumes "inv_tempo w"
    and "pending w' = pending w" "tobjs w' = tobjs w" "prox w' = prox w" "items w' = items w"
      "hobjs w' = hobjs w" "agora w' = agora w" "amb w' = amb w" "alarme w' = alarme w" "fotos w' = fotos w"
    and "\<And>h'. h' \<noteq> h \<Longrightarrow> trats w' h' = trats w h' \<and> coms w' h' = coms w h' \<and> conns w' h' = conns w h'"
    and "baixa_primeira w h \<Longrightarrow> baixa_primeira w' h"
    and "central_identificada (trats w' h) \<Longrightarrow> central_identificada (trats w h)"
  shows "local cfg h w w'"
proof -
  have pv: "dono w' = dono w" "sem_dono w' = sem_dono w" using pv_iguais [OF assms(2,3)] by simp_all
  have bp: "baixa_primeira w' h'" if "baixa_primeira w h'" for h'
    using that assms(10,11,12) by (cases "h' = h") (simp_all add: baixa_primeira_def)
  have fo: "fotos_ok w'" if "fotos_ok w"
    using fotos_ok_frame [of w' w] that assms pv bp by (simp add: em_curso_def)
  have ce: "centrais_conectadas w' \<le> centrais_conectadas w"
  proof (rule centrais_frame)
    fix h' assume "central_identificada (trats w' h')"
    then show "central_identificada (trats w h')"
      using assms(11) [of h'] assms(13) by (cases "h' = h") simp_all
  qed (fact assms(5) assms(6))+
  show ?thesis
    unfolding local_def mesmo_def using assms pv fo ce
    by (simp add: inv_tempo_frame [of w' w] tarefas_ok_def)
qed

lemma local_muda_conn: "inv_tempo w \<Longrightarrow> local cfg h w (muda_conn h f w)"
  by (rule local_campos) (simp_all add: baixa_primeira_def)

lemma local_muda_trat:
  "inv_tempo w \<Longrightarrow> (central_identificada (f (trats w h)) \<Longrightarrow> central_identificada (trats w h)) \<Longrightarrow>
    local cfg h w (muda_trat h f w)"
  by (rule local_campos) (simp_all add: baixa_primeira_def)

lemma local_muda_com:
  "inv_tempo w \<Longrightarrow>
    (\<And>g. sub (coms w h) = ObtemFotosDeEvento g \<Longrightarrow>
      \<exists>g'. sub (f (coms w h)) = ObtemFotosDeEvento g' \<and> of_indice g' = of_indice g \<and> of_nrfoto g' = of_nrfoto g) \<Longrightarrow>
    local cfg h w (muda_com h f w)"
  by (rule local_campos) (auto simp: baixa_primeira_def)

lemma local_emite: "inv_tempo w \<Longrightarrow> local cfg h w (emite s w)"
  by (rule local_campos) (simp_all add: baixa_primeira_def)

lemma dono_muda [simp]:
  "dono (muda_conn h f w) = dono w" "dono (muda_trat h g w) = dono w"
  "dono (muda_com h k w) = dono w" "dono (emite s w) = dono w" "dono (muda_fotos l w) = dono w"
  by (simp_all add: dono_def fun_eq_iff pv_def de_def)

lemma sem_dono_muda [simp]:
  "sem_dono (muda_conn h f w) = sem_dono w" "sem_dono (muda_trat h g w) = sem_dono w"
  "sem_dono (muda_com h k w) = sem_dono w" "sem_dono (emite s w) = sem_dono w"
  "sem_dono (muda_fotos l w) = sem_dono w"
  by (simp_all add: sem_dono_def fun_eq_iff pv_def de_def)

text \<open>Changes to the timeouts of handler \<open>h\<close> only.\<close>

lemma local_tempo:
  assumes "inv_tempo w'"
    and w': "w' = w\<lparr>tobjs := X, pending := Y, prox := Z\<rparr>" and "prox w \<le> Z"
    and "\<And>h'. h' \<noteq> h \<Longrightarrow> dono w' h' = dono w h'" and "sem_dono w' = sem_dono w"
    and "\<And>t. t < prox w \<Longrightarrow> to_owner (tobjs w t) = None \<Longrightarrow> X t = tobjs w t"
  shows "local cfg h w w'"
proof -
  have bp: "baixa_primeira w' h'" if "baixa_primeira w h'" for h'
    using that by (simp add: baixa_primeira_def w')
  have fo: "fotos_ok w'" if "fotos_ok w"
    using fotos_ok_frame [of w' w] that assms bp by (simp add: em_curso_def)
  have ce: "centrais_conectadas w' \<le> centrais_conectadas w"
    by (rule centrais_frame) (simp_all add: w')
  have sd: "sem_dono (w\<lparr>tobjs := X, pending := Y, prox := Z\<rparr>) = sem_dono w" using assms(5) w' by simp
  show ?thesis
    unfolding local_def mesmo_def using assms fo ce sd
    by (simp add: tarefas_ok_def)
qed

lemma handler_timeout_dono:
  assumes "inv_tempo w" and "\<not> h_destroyed (hobjs w h)"
  obtains ob w' where "handler_timeout h l r cb w = Inr (prox w, w')"
    and "local cfg h w w'" and "dono w' h = (dono w h)(prox w \<mapsto> ob)" and "to_callback ob = cb"
    and "trats w' = trats w" and "conns w' = conns w" and "coms w' = coms w"
    and "fotos w' = fotos w" and "saidas w' = saidas w" and "dono w h (prox w) = None"
    and "to_absolute ob = agora w + r" and "sem_dono w' = sem_dono w"
    and "\<And>t. t < prox w \<Longrightarrow> tobjs w' t = tobjs w t"
proof -
  let ?w = "snd (timeout_new (Some h) l r cb w)"
  let ?ob = "\<lparr>to_owner = Some h, to_label = l, to_relative = r, to_absolute = agora w + r,
               to_callback = cb, to_invalid = False\<rparr>"
  have pv: "pv ?w = (pv w)(prox w \<mapsto> ?ob)" by (rule pv_new)
  have fr: "pv w (prox w) = None" using assms(1) by (rule pv_prox)
  have "handler_timeout h l r cb w = Inr (prox w, ?w)"
    using assms(2) by (simp add: handler_timeout_def timeout_new_eq)
  moreover have "dono ?w h = (dono w h)(prox w \<mapsto> ?ob)" by (simp add: dono_def pv de_upd)
  moreover have sd: "sem_dono ?w = sem_dono w"
    using fr by (simp add: sem_dono_def pv de_upd de_idem de_None)
  moreover have "local cfg h w ?w"
  proof (rule local_tempo)
    show "inv_tempo ?w" using assms(1) by (rule inv_tempo_new)
    show "dono ?w h' = dono w h'" if "h' \<noteq> h" for h'
      using that fr by (simp add: dono_def pv de_upd de_idem de_None)
    show "sem_dono ?w = sem_dono w" by (rule sd)
    show "?w = w\<lparr>tobjs := tobjs ?w, pending := pending ?w, prox := prox ?w\<rparr>"
      by (simp add: timeout_new_eq)
  qed (auto simp: timeout_new_eq)
  moreover have "dono w h (prox w) = None" using fr by (simp add: dono_def de_None)
  ultimately show ?thesis using that [of ?w ?ob] by (simp add: timeout_new_eq)
qed

lemma cancel_dono:
  assumes "inv_tempo w" and "dono w h t = Some ob"
  obtains w' where "cancel t w = Inr (True, w')"
    and "local cfg h w w'" and "dono w' h = (dono w h)(t := None)"
    and "trats w' = trats w" and "conns w' = conns w" and "coms w' = coms w"
    and "fotos w' = fotos w" and "saidas w' = saidas w"
proof -
  from assms(2) have t: "pv w t = Some ob" "to_owner ob = Some h" by (simp_all add: dono_def de_Some)
  then have p: "t \<in> set (pending w)" "\<not> to_invalid (tobjs w t)"
    using assms(1) by (auto simp: pv_Some inv_tempo_def)
  let ?w = "w\<lparr>pending := remove1 t (pending w)\<rparr>"
  have pv: "pv ?w = (pv w)(t := None)" using assms(1) by (rule pv_remove1)
  have "cancel t w = Inr (True, ?w)" using p by (simp add: cancel_eq)
  moreover have "dono ?w h = (dono w h)(t := None)" by (simp add: dono_def pv de_del)
  moreover have "local cfg h w ?w"
  proof (rule local_tempo)
    show "inv_tempo ?w" using assms(1) by (rule inv_tempo_remove1)
    show "?w = w\<lparr>tobjs := tobjs w, pending := remove1 t (pending w), prox := prox w\<rparr>" by simp
    show "dono ?w h' = dono w h'" if "h' \<noteq> h" for h'
      using that t by (simp add: dono_def pv de_del de_idem de_outro [of "pv w" t ob])
    show "sem_dono ?w = sem_dono w"
      using t by (simp add: sem_dono_def pv de_del de_idem de_outro [of "pv w" t ob])
  qed auto
  ultimately show ?thesis using that [of ?w] by simp
qed

lemma restart_dono:
  assumes "inv_tempo w" and "t < prox w" and "\<not> to_invalid (tobjs w t)" and "to_owner (tobjs w t) = Some h"
  obtains ob w' where "restart t w = Inr w'"
    and "local cfg h w w'" and "dono w' h = (dono w h)(t \<mapsto> ob)" and "to_callback ob = to_callback (tobjs w t)"
    and "trats w' = trats w" and "conns w' = conns w" and "coms w' = coms w"
    and "fotos w' = fotos w" and "saidas w' = saidas w"
    and "to_absolute ob = agora w + to_relative (tobjs w t)"
proof -
  let ?ob = "(tobjs w t)\<lparr>to_absolute := agora w + to_relative (tobjs w t)\<rparr>"
  let ?w = "arma t w"
  have pv: "pv ?w = (pv w)(t \<mapsto> ?ob)" by (rule pv_arma)
  have outro: "de own (pv w) t = None" if "own \<noteq> Some h" for own
    using that assms(4) by (simp add: de_def pv_def)
  have "restart t w = Inr ?w" using assms(3) by (rule restart_eq)
  moreover have "dono ?w h = (dono w h)(t \<mapsto> ?ob)" using assms(4) by (simp add: dono_def pv de_upd)
  moreover have "local cfg h w ?w"
  proof (rule local_tempo)
    show "inv_tempo ?w" using assms(1-3) by (rule inv_tempo_arma)
    show "?w = w\<lparr>tobjs := (tobjs w)(t := ?ob),
        pending := (if t \<in> set (pending w) then pending w else pending w @ [t]), prox := prox w\<rparr>"
      by (simp add: arma_def)
    show "dono ?w h' = dono w h'" if "h' \<noteq> h" for h'
      using that assms(4) outro [of "Some h'"] by (simp add: dono_def pv de_upd de_idem)
    show "sem_dono ?w = sem_dono w"
      using assms(4) outro [of None] by (simp add: sem_dono_def pv de_upd de_idem)
    show "((tobjs w)(t := ?ob)) u = tobjs w u" if "to_owner (tobjs w u) = None" for u
      using that assms(4) by auto
  qed auto
  ultimately show ?thesis using that [of ?w ?ob] by (simp add: arma_def)
qed

end
