(* ===== verification/InvTratador.thy ===== *)
theory InvTratador
  imports Invariante
begin

text \<open>
  Every operation of \<^verbatim>\<open>Tratador\<close> keeps the connection well formed and leaves the other handlers
  alone; the exceptions it may raise are named.
\<close>

subsection \<open>Queueing photos\<close>

lemma local_fila:
  assumes "inv_tempo w" and "task (fotos w) = Some t" and "foto_valida e"
  shows "local cfg h w (muda_fotos (\<lambda>f. f\<lparr>fila := fila f @ [e]\<rparr>) w)"
proof -
  let ?w = "muda_fotos (\<lambda>f. f\<lparr>fila := fila f @ [e]\<rparr>) w"
  have "fotos_ok ?w" if "fotos_ok w"
    using that assms(2,3) unfolding fotos_ok_def baixa_primeira_def em_curso_def
    by (auto split: if_splits)
  moreover have "centrais_conectadas ?w = centrais_conectadas w" by (simp add: centrais_conectadas_def)
  moreover have "inv_tempo ?w" using assms(1) by (simp add: inv_tempo_def)
  ultimately show ?thesis using assms(2) by (simp add: local_def mesmo_def tarefas_ok_def)
qed

lemma local_fila_nova:
  assumes "inv_tempo w" and "task (fotos w) = None" and "foto_valida e"
    and w': "w' = snd (timeout_new None l r CbFoto (muda_fotos (\<lambda>f. f\<lparr>fila := fila f @ [e]\<rparr>) w))"
  shows "local cfg h w (muda_fotos (\<lambda>f. f\<lparr>task := Some (prox w)\<rparr>) w')"
    and "dono w' = dono w"
proof -
  let ?v = "muda_fotos (\<lambda>f. f\<lparr>fila := fila f @ [e]\<rparr>) w"
  let ?ob = "\<lparr>to_owner = None, to_label = l, to_relative = r, to_absolute = agora w + r,
               to_callback = CbFoto, to_invalid = False\<rparr>"
  let ?w = "muda_fotos (\<lambda>f. f\<lparr>task := Some (prox w)\<rparr>) w'"
  have i0: "inv_tempo ?v" using assms(1) by (simp add: inv_tempo_def)
  have pv0: "pv ?v = pv w" by (rule pv_frame) simp_all
  have pv: "pv w' = (pv w)(prox w \<mapsto> ?ob)" using pv_new [of None l r CbFoto ?v] by (simp add: w' pv0)
  have fr: "pv w (prox w) = None" using assms(1) by (rule pv_prox)
  have frs: "sem_dono w (prox w) = None" using fr by (simp add: sem_dono_def de_None)
  have sd: "sem_dono w' = (sem_dono w)(prox w \<mapsto> ?ob)" by (simp add: sem_dono_def pv de_upd)
  have dn: "dono w' h' = dono w h'" for h' by (simp add: dono_def pv de_upd de_idem de_None fr)
  then show dn': "dono w' = dono w" by (simp add: fun_eq_iff)
  have sel: "trats w' = trats w" "coms w' = coms w" "conns w' = conns w" "items w' = items w"
    "hobjs w' = hobjs w" "agora w' = agora w" "amb w' = amb w" "alarme w' = alarme w"
    "fotos w' = (fotos w)\<lparr>fila := fila (fotos w) @ [e]\<rparr>" "prox w' = Suc (prox w)"
    "tobjs w' = (tobjs w)(prox w := ?ob)"
    by (simp_all add: w' timeout_new_eq)
  have it: "inv_tempo w'" unfolding w' by (rule inv_tempo_new [OF i0])
  have "fotos_ok ?w" if "fotos_ok w"
    using that assms(2,3) by (simp add: fotos_ok_def em_curso_def sel sd)
  moreover have "tarefas_ok ?w" if "tarefas_ok w"
    using that assms(2) by (auto simp: tarefas_ok_def sel sd)
  moreover have "centrais_conectadas ?w = centrais_conectadas w" by (simp add: centrais_conectadas_def sel)
  moreover have "inv_tempo ?w" using it by (simp add: inv_tempo_def)
  moreover have "arm (sem_dono ?w) t cb" if "periodica cb" "arm (sem_dono w) t cb" for t cb
    using that frs by (auto simp: arm_def sd)
  ultimately show "local cfg h w ?w" by (simp add: local_def mesmo_def sel dn)
qed

lemma enfileirar_local:
  assumes "inv_tempo w" and "0 \<le> i" "i < 65536" "byte n"
  shows "local cfg h w (enfileirar cfg ip i n w)"
    and "dono (enfileirar cfg ip i n w) = dono w"
    and "trats (enfileirar cfg ip i n w) = trats w"
    and "conns (enfileirar cfg ip i n w) = conns w"
    and "saidas (enfileirar cfg ip i n w) = saidas w"
proof -
  have v: "foto_valida (ip, i, n, 10)" using assms by (simp add: foto_valida_def)
  note d = enfileirar_def Let_def timeout_new_eq
  show "local cfg h w (enfileirar cfg ip i n w)"
  proof (cases "cfg_tam_senha cfg \<le> 0")
    case True
    then show ?thesis using assms(1) by (simp add: enfileirar_def local_refl)
  next
    case False
    show ?thesis
    proof (cases "task (fotos w)")
      case None
      from local_fila_nova(1) [OF assms(1) None v refl, of cfg h "''trata_foto''" 20] None False
      show ?thesis by (simp add: d)
    next
      case (Some t)
      from local_fila [OF assms(1) Some v] Some False show ?thesis by (simp add: enfileirar_def)
    qed
  qed
  show "dono (enfileirar cfg ip i n w) = dono w"
  proof (cases "cfg_tam_senha cfg > 0 \<and> task (fotos w) = None")
    case True
    with local_fila_nova(2) [OF assms(1) _ v refl, of "''trata_foto''" 20] show ?thesis
      by (simp add: d)
  qed (auto simp: enfileirar_def Let_def)
qed (simp_all add: enfileirar_def Let_def timeout_new_eq)

lemma enfileira_fotos_local:
  assumes "inv_tempo w" and "0 \<le> i" "i < 65536" and "\<forall>n\<in>set ns. byte (int n)"
  shows "local cfg h w (enfileira_fotos cfg ip i ns w) \<and> dono (enfileira_fotos cfg ip i ns w) = dono w \<and>
    trats (enfileira_fotos cfg ip i ns w) = trats w \<and> conns (enfileira_fotos cfg ip i ns w) = conns w \<and>
    saidas (enfileira_fotos cfg ip i ns w) = saidas w"
  using assms
proof (induction ns arbitrary: w)
  case Nil
  then show ?case by (simp add: local_refl)
next
  case (Cons n ns)
  let ?w = "enfileirar cfg ip i (int n) w"
  have e: "local cfg h w ?w" "dono ?w = dono w" "trats ?w = trats w" "conns ?w = conns w" "saidas ?w = saidas w"
    using enfileirar_local [of w i "int n"] Cons.prems by simp_all
  with Cons.IH [of ?w] Cons.prems show ?case by (auto intro: local_trans local_inv_tempo)
qed

subsection \<open>The connection\<close>

definition tok :: "nat \<Rightarrow> mundo \<Rightarrow> bool" where
  "tok h w \<longleftrightarrow> inv_tempo w \<and> \<not> h_destroyed (hobjs w h) \<and>
    trat_ok h (trats w h) (conns w h) (dono w h)"

text \<open>\<open>feito cfg h w w'\<close>: an operation on connection \<open>h\<close> led from \<open>w\<close> to \<open>w'\<close>.\<close>

definition feito :: "config \<Rightarrow> nat \<Rightarrow> mundo \<Rightarrow> mundo \<Rightarrow> bool" where
  "feito cfg h w w' \<longleftrightarrow>
    local cfg h w w' \<and> tok h w' \<and> to_processa (trats w' h) = to_processa (trats w h)"

lemma tok_inv_tempo: "tok h w \<Longrightarrow> inv_tempo w"
  by (simp add: tok_def)

lemma feito_tok: "feito cfg h w w' \<Longrightarrow> tok h w'"
  by (simp add: feito_def)

lemma feito_refl: "tok h w \<Longrightarrow> feito cfg h w w"
  by (simp add: feito_def tok_def local_refl)

lemma feito_trans: "feito cfg h w w' \<Longrightarrow> feito cfg h w' w'' \<Longrightarrow> feito cfg h w w''"
  unfolding feito_def using local_trans by force

lemma feito_trans_res:
  "feito cfg h w w' \<Longrightarrow> res_sat E (feito cfg h w') m \<Longrightarrow> res_sat E (feito cfg h w) m"
  by (cases m) (auto intro: feito_trans)

lemma feitoI:
  assumes "local cfg h w w'" and "\<not> h_destroyed (hobjs w h)"
    and "trat_ok h (trats w' h) (conns w' h) (dono w' h)"
    and "to_processa (trats w' h) = to_processa (trats w h)"
  shows "feito cfg h w w'"
  using assms by (simp add: feito_def tok_def local_def)

lemma feito_conn:
  assumes "tok h w" and "bytes (recv_buf (f (conns w h)))" and "bytes (send_buf (f (conns w h)))"
    and "\<not> connecting (f (conns w h))"
  shows "feito cfg h w (muda_conn h f w)"
  by (rule feitoI) (use assms in \<open>simp_all add: tok_def local_muda_conn trat_ok_def\<close>)

lemma feito_envia:
  "tok h w \<Longrightarrow> bytes r \<Longrightarrow> envia h r w = Inr (tcp_send h r w) \<and> feito cfg h w (tcp_send h r w)"
  unfolding envia_def tcp_send_def
  by (auto intro!: feito_conn simp: tok_def trat_ok_def)

lemma feito_emite: "tok h w \<Longrightarrow> feito cfg h w (emite s w)"
  by (rule feitoI) (simp_all add: tok_def local_emite)

lemma byte_fe [simp]: "byte 254" "byte 0" "byte 128" "byte 1" "byte 2" "byte 16"
  by (simp_all add: byte_def)

lemma feito_envia_curto:
  "tok h w \<Longrightarrow> bytes r \<Longrightarrow> res_sat E (feito cfg h w) (envia_curto h r w)"
  using feito_envia [of h w r cfg] by (simp add: envia_curto_def)

lemma bytes_enquadrar: "bytes d \<Longrightarrow> length d < 256 \<Longrightarrow> bytes (enquadrar d)"
  by (simp add: enquadrar_def Let_def) (simp add: byte_def)

lemma feito_data_hora: "tok h w \<Longrightarrow> res_sat E (feito cfg h w) (solicita_data_hora h msg w)"
  using feito_envia [of h w _ cfg] bytes_enquadrar
  by (simp add: solicita_data_hora_def envia_longo_def Let_def)

text \<open>Giving a timeout up, and arming one, in an attribute that holds it.\<close>

lemma arm_opt_None [simp]: "arm_opt m None cb"
  by (simp add: arm_opt_def)

lemma arm_opt_Some [simp]: "arm_opt m (Some t) cb \<longleftrightarrow> arm m t cb"
  by (simp add: arm_opt_def)

lemma arm_upd: "arm (m(t \<mapsto> ob)) u cb \<longleftrightarrow> (if u = t then to_callback ob = cb else arm m u cb)"
  by (auto simp: arm_def)

lemma arm_del: "arm (m(t := None)) u cb \<longleftrightarrow> u \<noteq> t \<and> arm m u cb"
  by (auto simp: arm_def)

lemma arm_opt_upd: "m t = None \<Longrightarrow> arm_opt m r cb \<Longrightarrow> arm_opt (m(t \<mapsto> ob)) r cb"
  by (auto simp: arm_opt_def arm_def split: option.splits)

lemma arm_opt_del: "arm m t cb' \<Longrightarrow> cb' \<noteq> cb \<Longrightarrow> arm_opt m r cb \<Longrightarrow> arm_opt (m(t := None)) r cb"
  by (auto simp: arm_opt_def arm_def split: option.splits)

lemma arm_del_outro: "arm m t cb' \<Longrightarrow> cb' \<noteq> cb \<Longrightarrow> arm m u cb \<Longrightarrow> arm (m(t := None)) u cb"
  by (auto simp: arm_def)

lemma arm_upd_novo: "m t = None \<Longrightarrow> arm m u cb \<Longrightarrow> arm (m(t \<mapsto> ob)) u cb"
  by (auto simp: arm_def)

lemma tok_arm: "arm m t cb \<Longrightarrow> \<exists>ob. m t = Some ob"
  by (auto simp: arm_def)

text \<open>One more identified connection, while there is room for it.\<close>

lemma centrais_mais_uma:
  assumes "distinct (items w)" and "items w' = items w" and "hobjs w' = hobjs w"
    and "\<And>h'. h' \<noteq> h \<Longrightarrow> trats w' h' = trats w h'"
  shows "centrais_conectadas w' \<le> centrais_conectadas w + 1"
proof -
  let ?A = "{x. classe_de w x = CTratador \<and> central_identificada (trats w x)} \<inter> set (items w)"
  let ?B = "{x. classe_de w x = CTratador \<and> central_identificada (trats w' x)} \<inter> set (items w)"
  have "?B \<subseteq> insert h ?A" using assms(4) by auto
  then have "card ?B \<le> card (insert h ?A)" by (intro card_mono) auto
  also have "\<dots> \<le> card ?A + 1" by (simp add: card_insert_le_m1 card_insert_if)
  finally show ?thesis
    using assms by (simp add: centrais_conectadas_def distinct_length_filter)
qed

lemma local_identifica:
  assumes "inv_tempo w" and "distinct (items w)" and "centrais_conectadas w < maxconn cfg"
  shows "local cfg h w (muda_trat h f w)"
proof -
  let ?w = "muda_trat h f w"
  have "centrais_conectadas ?w \<le> centrais_conectadas w + 1"
    using assms(2) by (rule centrais_mais_uma [where h = h]) simp_all
  then have "centrais_conectadas ?w \<le> max (centrais_conectadas w) (limite cfg)"
    using assms(3) by (simp add: limite_def)
  moreover have "fotos_ok ?w = fotos_ok w"
    by (simp add: fotos_ok_def em_curso_def baixa_primeira_def split: option.split)
  moreover have "inv_tempo ?w" using assms(1) by (simp add: inv_tempo_def)
  ultimately show ?thesis by (simp add: local_def mesmo_def tarefas_ok_def)
qed

lemma trat_ok_sem_ident:
  assumes "trat_ok h T c m" and "to_ident T = Some t"
  shows "trat_ok h (T\<lparr>central_identificada := True, to_ident := None\<rparr>) c (m(t := None))"
proof -
  from assms have a: "arm m t (CbIdent h)" by (simp add: trat_ok_def)
  from assms arm_del_outro [OF a, of "CbComm h"] arm_opt_del [OF a] show ?thesis
    by (auto simp: trat_ok_def)
qed

lemma feito_ignora: "tok h w \<Longrightarrow> feito cfg h w (muda_trat h (\<lambda>t. t\<lparr>ignorar := True\<rparr>) w)"
  by (rule feitoI [OF local_muda_trat]) (simp_all add: tok_def trat_ok_def)

lemma feito_admite:
  assumes "tok h w" and "distinct (items w)"
  shows "res_sat E (feito cfg h w) (admite_central cfg h mac w)"
proof (cases "centrais cfg mac \<and> valida_maxconn cfg w")
  case False
  then show ?thesis using feito_ignora [OF assms(1)] by (auto simp: admite_central_def)
next
  case True
  let ?w = "muda_trat h (\<lambda>t. t\<lparr>central_identificada := True\<rparr>) w"
  have l: "local cfg h w ?w"
    by (rule local_identifica) (use assms True in \<open>simp_all add: tok_def valida_maxconn_def\<close>)
  have tk: "trat_ok h (trats w h) (conns w h) (dono w h)" "\<not> h_destroyed (hobjs w h)"
    using assms by (simp_all add: tok_def)
  show ?thesis
  proof (cases "to_ident (trats w h)")
    case None
    have "feito cfg h w ?w"
      by (rule feitoI [OF l]) (use tk None in \<open>simp_all add: trat_ok_def\<close>)
    from feito_trans_res [OF this feito_envia_curto [OF feito_tok [OF this]]] None True
    show ?thesis by (simp add: admite_central_def Let_def)
  next
    case (Some t)
    have i: "inv_tempo ?w" using l by (rule local_inv_tempo)
    have "arm (dono w h) t (CbIdent h)" using Some tk by (simp add: trat_ok_def)
    then obtain ob where "dono ?w h t = Some ob" by (auto simp: arm_def)
    from cancel_dono [OF i this, of cfg] obtain w2 where
      c: "cancel t ?w = Inr (True, w2)" "local cfg h ?w w2" "dono w2 h = (dono w h)(t := None)"
      "trats w2 = trats ?w" "conns w2 = conns w" by auto
    let ?v = "muda_trat h (\<lambda>t. t\<lparr>to_ident := None\<rparr>) w2"
    have "local cfg h w2 ?v" using c(2) by (intro local_muda_trat local_inv_tempo) auto
    with l c(2) have lv: "local cfg h w ?v" by (blast intro: local_trans)
    have "feito cfg h w ?v"
      by (rule feitoI [OF lv]) (use tk trat_ok_sem_ident [OF tk(1) Some] c in simp_all)
    from feito_trans_res [OF this feito_envia_curto [OF feito_tok [OF this]]] Some True c(1)
    show ?thesis by (simp add: admite_central_def Let_def)
  qed
qed

lemma feito_identificacao:
  assumes "tok h w" and "distinct (items w)" and "E IndexError"
  shows "res_sat E (feito cfg h w) (identificacao_central cfg h msg w)"
proof -
  have ini: "res_sat E (feito cfg h w) (if length msg \<noteq> 7 then envia_curto h [0xfe] w else Inr w)"
    using feito_envia_curto [OF assms(1), of "[0xfe]"] feito_refl [OF assms(1)] by simp
  have "res_sat E (feito cfg h w) (admite_central cfg h mac w1)" if f: "feito cfg h w w1" for w1 mac
  proof (rule feito_trans_res [OF f feito_admite])
    show "tok h w1" "distinct (items w1)" using f assms(2) by (auto simp: feito_def local_def)
  qed
  then show ?thesis
    unfolding identificacao_central_def
    by (intro res_sat_bindI [OF ini]) (cases "msg = []"; simp add: assms(3) Let_def)
qed

subsection \<open>Alarm events\<close>

lemma feito_ok_res:
  "res_sat E (feito cfg h w) m \<Longrightarrow> (\<And>w'. feito cfg h w w' \<Longrightarrow> res_sat E (feito cfg h w') (f w')) \<Longrightarrow>
    res_sat E (feito cfg h w) (res_bind m f)"
  by (erule res_sat_bindI) (blast intro: feito_trans_res)

text \<open>Replacement fields of a format string, found as \<open>formatar\<close> finds them.\<close>

function campos_ok :: "string \<Rightarrow> bool" where
  "campos_ok [] = True"
| "campos_ok (c # cs) =
    (if take 6 (c # cs) = ''{zona}'' then campos_ok (drop 5 cs)
     else if take 10 (c # cs) = ''{particao}'' then campos_ok (drop 9 cs)
     else c \<noteq> CHR ''{'' \<and> c \<noteq> CHR ''}'' \<and> campos_ok cs)"
  by pat_completeness auto
termination
  by (relation "measure length") auto

lemma formatar_campos_ok: "campos_ok s \<Longrightarrow> \<exists>r. formatar z p s = Inr r"
proof (induction z p s rule: formatar.induct)
  case (2 z p c cs)
  show ?case
  proof (cases "take 6 (c # cs) = ''{zona}''")
    case True
    then show ?thesis using 2 by (auto simp del: take_Suc_Cons)
  next
    case False
    note n6 = this
    show ?thesis
    proof (cases "take 10 (c # cs) = ''{particao}''")
      case True
      then show ?thesis using 2 n6 by (auto simp del: take_Suc_Cons)
    next
      case False
      then show ?thesis using 2 n6 by (auto simp del: take_Suc_Cons)
    qed
  qed
qed simp

lemma tabela_campos_ok: "list_all (\<lambda>(c, ev). list_all (\<lambda>(q, s). campos_ok s) ev) eventos_contact_id"
  by code_simp

lemma scodigo_formatar:
  assumes "scodigo tipo codigo q = Some s"
  shows "\<exists>r. formatar z p s = Inr r"
proof -
  from assms obtain ev where "map_of eventos_contact_id codigo = Some ev" "map_of ev (squalif ev q) = Some s"
    by (auto simp: scodigo_def split: if_splits option.splits)
  then have "(codigo, ev) \<in> set eventos_contact_id" "(squalif ev q, s) \<in> set ev"
    by (auto dest: map_of_SomeD)
  with tabela_campos_ok have "campos_ok s" by (fastforce simp: list_all_iff)
  then show ?thesis by (rule formatar_campos_ok)
qed

lemma feito_enfileira:
  assumes "tok h w" and "0 \<le> i" "i < 65536" and "\<forall>n\<in>set ns. byte (int n)"
  shows "feito cfg h w (enfileira_fotos cfg ip i ns w)"
  by (rule feitoI)
    (use assms enfileira_fotos_local [of w i ns cfg h ip] in \<open>simp_all add: tok_def\<close>)

lemma feito_msg_gancho: "tok h w \<Longrightarrow> feito cfg h w (msg_para_gancho cfg m w)"
  using feito_emite by (simp add: msg_para_gancho_def Let_def)

lemma feito_ev_gancho: "tok h w \<Longrightarrow> feito cfg h w (ev_para_gancho cfg c p z q w)"
  using feito_emite by (simp add: ev_para_gancho_def)

definition evento_ok :: "evento \<Rightarrow> bool" where
  "evento_ok e \<longleftrightarrow> 0 \<le> ev_indice e \<and> ev_indice e < 65536 \<and> byte (ev_nr_fotos e)"

lemma le_evento_ok:
  assumes "bytes msg" and "length msg = (if com_foto then 20 else 17)"
  shows "evento_ok (le_evento msg com_foto)"
proof (cases com_foto)
  case True
  have "byte (msg ! 17)" "byte (msg ! 18)" "byte (msg ! 19)"
    using assms True by (simp_all add: bytes_nth)
  then show ?thesis using True by (simp add: evento_ok_def le_evento_def byte_def)
qed (simp add: evento_ok_def le_evento_def)

lemma feito_relata:
  assumes "tok h w" and "evento_ok e"
  shows "res_sat E (feito cfg h w) (relata_evento cfg h e com_foto w)"
proof (cases "scodigo (ev_tipo_msg e) (ev_codigo e) (ev_qualificador e)")
  case None
  then show ?thesis using feito_msg_gancho [OF assms(1)] by (simp add: relata_evento_def)
next
  case (Some s)
  obtain d where d: "formatar (ev_zona e) (ev_particao e) s = Inr d" using scodigo_formatar [OF Some] by blast
  have n: "\<forall>n\<in>set [0..<nat (ev_nr_fotos e)]. byte (int n)" using assms(2) by (auto simp: evento_ok_def byte_def)
  have g: "feito cfg h w (msg_para_gancho cfg m w)" for m using assms(1) by (rule feito_msg_gancho)
  have f: "feito cfg h w (enfileira_fotos cfg ip (ev_indice e) [0..<nat (ev_nr_fotos e)] (msg_para_gancho cfg m w))" for ip m
    by (rule feito_trans [OF g feito_enfileira [OF feito_tok [OF g] _ _ n]])
      (use assms(2) in \<open>simp_all add: evento_ok_def\<close>)
  show ?thesis using Some d g f by (simp add: relata_evento_def Let_def)
qed

lemma feito_evento:
  assumes "tok h w" and "bytes msg"
  shows "res_sat E (feito cfg h w) (evento_alarme cfg h msg com_foto w)"
proof (cases "length msg = (if com_foto then 20 else 17)")
  case False
  then show ?thesis
    using feito_envia_curto [OF assms(1), of "[0xfe]"] by (simp add: evento_alarme_def Let_def)
next
  case True
  let ?e = "le_evento msg com_foto"
  let ?w = "ev_para_gancho cfg (ev_codigo ?e) (ev_particao ?e) (ev_zona ?e) (ev_qualificador ?e) w"
  have g: "feito cfg h w ?w" using assms(1) by (rule feito_ev_gancho)
  have "res_sat E (feito cfg h w) (res_bind (relata_evento cfg h ?e com_foto ?w) (envia_curto h [0xfe]))"
    by (rule feito_trans_res [OF g feito_ok_res [OF feito_relata]])
      (auto intro: feito_tok [OF g] le_evento_ok [OF assms(2) True] feito_envia_curto dest: feito_tok)
  then show ?thesis using True by (simp add: evento_alarme_def Let_def)
qed

subsection \<open>Consuming the buffer\<close>

lemma feito_trata_msg:
  assumes "tok h w" and "distinct (items w)" and "bytes msg" and "E IndexError"
  shows "res_sat E (feito cfg h w) (trata_msg cfg h tipo msg w)"
  using feito_data_hora [OF assms(1)] feito_identificacao [where E = E, OF assms(1,2,4)] feito_evento [OF assms(1,3)]
    feito_envia_curto [OF assms(1), of "[0xfe]"]
  by (simp add: trata_msg_def resposta_generica_def)

lemma feito_recv_buf:
  "tok h w \<Longrightarrow> bytes b \<Longrightarrow> feito cfg h w (poe_recv_buf h b w)"
  unfolding poe_recv_buf_def by (rule feito_conn) (simp_all add: tok_def trat_ok_def)

lemma tok_recv_bytes: "tok h w \<Longrightarrow> bytes (recv_buf (conns w h))"
  by (simp add: tok_def trat_ok_def)

lemma feito_curto:
  assumes "tok h w"
  shows "res_sat E (\<lambda>(b, w'). feito cfg h w w') (consome_frame_curto h w)"
proof (cases "recv_buf (conns w h)")
  case Nil
  then show ?thesis by (simp add: consome_frame_curto_def feito_refl [OF assms])
next
  case (Cons b resto)
  have r: "feito cfg h w (poe_recv_buf h resto w)"
    by (rule feito_recv_buf [OF assms]) (use tok_recv_bytes [OF assms] Cons in simp)
  have "res_sat E (feito cfg h w) (envia_curto h [0xfe] (poe_recv_buf h resto w))"
    by (rule feito_trans_res [OF r feito_envia_curto [OF feito_tok [OF r]]]) simp
  then show ?thesis using Cons by (simp add: consome_frame_curto_def feito_refl [OF assms])
qed

lemma feito_longo:
  assumes "tok h w" and "distinct (items w)" and "E IndexError"
  shows "res_sat E (\<lambda>(b, w'). feito cfg h w w') (consome_frame_longo cfg h w)"
proof (cases "length (recv_buf (conns w h)) < 2 \<or> int (length (recv_buf (conns w h))) < recv_buf (conns w h) ! 0 + 2")
  case True
  then show ?thesis by (auto simp: consome_frame_longo_def Let_def feito_refl [OF assms(1)])
next
  case False
  let ?b = "recv_buf (conns w h)"
  let ?n = "nat (?b ! 0 + 2)"
  let ?w = "poe_recv_buf h (drop ?n ?b) w"
  have b: "bytes ?b" using assms(1) by (rule tok_recv_bytes)
  have r: "feito cfg h w ?w" by (rule feito_recv_buf [OF assms(1)]) (rule bytes_drop [OF b])
  have di: "distinct (items ?w)" using assms(2) by (simp add: poe_recv_buf_def)
  have "res_sat E (feito cfg h w) (trata_msg cfg h tipo msg ?w)" if "drop 1 (take ?n ?b) = tipo # msg" for tipo msg
  proof (rule feito_trans_res [OF r feito_trata_msg [where E = E, OF feito_tok [OF r] di _ assms(3)]])
    have "bytes (drop 1 (take ?n ?b))" by (intro bytes_drop bytes_take b)
    then show "bytes msg" unfolding that by simp
  qed
  with False r show ?thesis
    by (auto simp: consome_frame_longo_def Let_def split: list.split)
qed

lemma trat_ok_sem_incompleta:
  assumes "trat_ok h T c m" and "to_incompleta T = Some t"
  shows "trat_ok h (T\<lparr>to_incompleta := None\<rparr>) c (m(t := None))"
proof -
  from assms have a: "arm m t (CbMsgIncompleta h)" by (simp add: trat_ok_def)
  from assms arm_del_outro [OF a, of "CbComm h"] arm_opt_del [OF a] show ?thesis
    by (auto simp: trat_ok_def)
qed

lemma trat_ok_incompleta:
  assumes "trat_ok h T c m" and "to_incompleta T = None" and "m t = None" and "to_callback ob = CbMsgIncompleta h"
  shows "trat_ok h (T\<lparr>to_incompleta := Some t\<rparr>) c (m(t \<mapsto> ob))"
  using assms arm_upd_novo [where m = m and t = t, OF assms(3)] arm_opt_upd [where m = m and t = t, OF assms(3)]
  by (auto simp: trat_ok_def arm_upd)

definition consumido :: "nat \<Rightarrow> bool \<times> bool \<times> mundo \<Rightarrow> bool" where
  "consumido h r = (case r of (aceita, pend, w) \<Rightarrow>
     (if aceita then pend \<longleftrightarrow> recv_buf (conns w h) \<noteq> []
      else \<not> pend \<and> (recv_buf (conns w h) \<noteq> [] \<longrightarrow> to_incompleta (trats w h) \<noteq> None)))"

lemma feito_cancela_incompleta:
  assumes "tok h w"
  shows "res_sat E (\<lambda>w'. feito cfg h w w' \<and> conns w' = conns w)
    (case to_incompleta (trats w h) of
       None \<Rightarrow> Inr w
     | Some t \<Rightarrow> res_bind (cancel t w) (\<lambda>(c, w). Inr (muda_trat h (\<lambda>t. t\<lparr>to_incompleta := None\<rparr>) w)))"
proof (cases "to_incompleta (trats w h)")
  case None
  then show ?thesis by (simp add: feito_refl [OF assms])
next
  case (Some t)
  have i: "inv_tempo w" and tk: "trat_ok h (trats w h) (conns w h) (dono w h)" "\<not> h_destroyed (hobjs w h)"
    using assms by (simp_all add: tok_def)
  then obtain ob where "dono w h t = Some ob" using Some by (auto simp: trat_ok_def arm_def)
  from cancel_dono [OF i this, of cfg] obtain w2 where
    c: "cancel t w = Inr (True, w2)" "local cfg h w w2" "dono w2 h = (dono w h)(t := None)"
    "trats w2 = trats w" "conns w2 = conns w" by auto
  let ?v = "muda_trat h (\<lambda>t. t\<lparr>to_incompleta := None\<rparr>) w2"
  have "local cfg h w2 ?v" using c(2) by (intro local_muda_trat local_inv_tempo) auto
  with c(2) have lv: "local cfg h w ?v" by (blast intro: local_trans)
  have "feito cfg h w ?v"
    by (rule feitoI [OF lv]) (use tk trat_ok_sem_incompleta [OF tk(1) Some] c in simp_all)
  with Some c show ?thesis by simp
qed

lemma feito_consome:
  assumes "tok h w" and "distinct (items w)" and "E IndexError"
  shows "res_sat E (\<lambda>r. feito cfg h w (snd (snd r)) \<and> consumido h r) (consome_msg cfg h w)"
proof -
  have longo: "res_sat E (\<lambda>(b, w'). feito cfg h w w')
      (if c then Inr (True, w1) else consome_frame_longo cfg h w1)" if f: "feito cfg h w w1" for c w1
  proof -
    have "tok h w1" "distinct (items w1)" using f assms(2) by (auto simp: feito_def local_def)
    from feito_longo [where E = E, OF this assms(3), of cfg] f show ?thesis
      by (cases c) (auto elim!: res_sat_mono intro: feito_trans)
  qed
  have fim: "res_sat E (\<lambda>r. feito cfg h w (snd (snd r)) \<and> consumido h r)
     (if consumiu
      then res_bind
             (case to_incompleta (trats w2 h) of
                None \<Rightarrow> Inr w2
              | Some t \<Rightarrow> res_bind (cancel t w2) (\<lambda>(c, w).
                  Inr (muda_trat h (\<lambda>t. t\<lparr>to_incompleta := None\<rparr>) w)))
             (\<lambda>w. Inr (True, recv_buf (conns w h) \<noteq> [], w))
      else if recv_buf (conns w2 h) \<noteq> [] \<and> to_incompleta (trats w2 h) = None
      then res_bind (handler_timeout h ''msgincompleta'' 60 (CbMsgIncompleta h) w2) (\<lambda>(t, w).
             Inr (False, False, muda_trat h (\<lambda>tr. tr\<lparr>to_incompleta := Some t\<rparr>) w))
      else Inr (False, False, w2))" if f: "feito cfg h w w2" for consumiu w2
  proof -
    have tk2: "tok h w2" using f by (rule feito_tok)
    consider "consumiu" | "\<not> consumiu" "recv_buf (conns w2 h) \<noteq> [] \<and> to_incompleta (trats w2 h) = None"
      | "\<not> consumiu" "\<not> (recv_buf (conns w2 h) \<noteq> [] \<and> to_incompleta (trats w2 h) = None)" by blast
    then show ?thesis
    proof cases
      case 1
      then show ?thesis
        by (simp only: if_True)
          (rule res_sat_bindI [OF feito_cancela_incompleta [OF tk2]],
           auto simp: consumido_def intro: feito_trans [OF f])
    next
      case 2
      have i: "inv_tempo w2" and tk: "trat_ok h (trats w2 h) (conns w2 h) (dono w2 h)" "\<not> h_destroyed (hobjs w2 h)"
        using tk2 by (simp_all add: tok_def)
      obtain ob w3 where n: "handler_timeout h ''msgincompleta'' 60 (CbMsgIncompleta h) w2 = Inr (prox w2, w3)"
        "local cfg h w2 w3" "dono w3 h = (dono w2 h)(prox w2 \<mapsto> ob)" "to_callback ob = CbMsgIncompleta h"
        "trats w3 = trats w2" "conns w3 = conns w2" "dono w2 h (prox w2) = None"
        by (rule handler_timeout_dono [OF i tk(2), of "''msgincompleta''" 60 "CbMsgIncompleta h" cfg])
      let ?v = "muda_trat h (\<lambda>tr. tr\<lparr>to_incompleta := Some (prox w2)\<rparr>) w3"
      have "local cfg h w3 ?v" using n(2) by (intro local_muda_trat local_inv_tempo) auto
      with n(2) have lv: "local cfg h w2 ?v" by (blast intro: local_trans)
      have "feito cfg h w2 ?v"
        by (rule feitoI [OF lv])
          (use tk 2 trat_ok_incompleta [OF tk(1) _ n(7,4)] n in simp_all)
      from feito_trans [OF f this] 2 n show ?thesis by (simp add: consumido_def)
    next
      case 3
      then show ?thesis using f by (auto simp: consumido_def)
    qed
  qed
  show ?thesis
    unfolding consome_msg_def
    by (rule res_sat_bindI [OF feito_curto [OF assms(1)]], clarify,
        rule res_sat_bindI [OF longo], assumption, clarify, rule fim)
qed

subsection \<open>Back-off\<close>

lemma backoff_minimo_pos [simp]: "0 < backoff_minimo"
  by (simp add: backoff_minimo_def)

lemma dobro_diferente: "0 < k \<Longrightarrow> backoff_minimo * 2 ^ k \<noteq> backoff_minimo"
proof -
  assume "0 < k"
  then have "1 < (2 :: rat) ^ k" by simp
  then have "(2 :: rat) ^ k \<noteq> 1" by linarith
  then show ?thesis by (simp add: backoff_minimo_def)
qed

lemma trat_ok_recuo:
  assumes "trat_ok h T c m" and "to_backoff T = None \<or> (\<exists>u. to_backoff T = Some u \<and> mm = m(u := None))"
    and "to_backoff T = None \<Longrightarrow> mm = m" and "mm t = None" and "to_callback ob = CbRecuarBackoff h"
    and "b = backoff_minimo * 2 ^ k" and "0 < k"
  shows "trat_ok h (T\<lparr>backoff := b, to_backoff := Some t\<rparr>) c (mm(t \<mapsto> ob))"
proof (cases "to_backoff T")
  case None
  with assms(3) have "mm = m" by simp
  with assms None arm_upd_novo [where m = m and t = t] arm_opt_upd [where m = m and t = t]
    dobro_diferente [OF assms(7)] show ?thesis
    by (auto simp: trat_ok_def arm_upd)
next
  case (Some u)
  then have mm: "mm = m(u := None)" using assms(2) by simp
  from assms(1) Some have a: "arm m u (CbRecuarBackoff h)" by (simp add: trat_ok_def)
  have n: "(m(u := None)) t = None" using assms(4) mm by simp
  have oc: "to_comm T \<noteq> t" "to_ident T \<noteq> Some t" "to_processa T \<noteq> Some t" "to_incompleta T \<noteq> Some t"
    using assms(1) Some n by (auto simp: trat_ok_def arm_def split: if_splits)
  from assms(1) Some assms(5-7) n oc arm_del_outro [OF a, of "CbComm h"] arm_opt_del [OF a]
    arm_upd_novo [where m = "m(u := None)" and t = t, OF n]
    arm_opt_upd [where m = "m(u := None)" and t = t, OF n]
    dobro_diferente [OF assms(7)]
  show ?thesis unfolding mm
    by (auto simp: trat_ok_def arm_upd split: if_splits)
qed

lemma feito_agenda_recuo:
  assumes "inv_tempo w" and "\<not> h_destroyed (hobjs w h)"
    and "trats w h = T\<lparr>backoff := b, to_backoff := u\<rparr>" and "conns w h = c" and "dono w h = mm"
    and "trat_ok h T c m" and "to_backoff T = None \<or> (\<exists>u. to_backoff T = Some u \<and> mm = m(u := None))"
    and "to_backoff T = None \<Longrightarrow> mm = m" and "b = backoff_minimo * 2 ^ k" and "0 < k"
  shows "\<exists>w'. agenda_recuo h w = Inr w' \<and> local cfg h w w' \<and> tok h w' \<and> conns w' = conns w \<and>
    (\<exists>v. trats w' h = (trats w h)\<lparr>to_backoff := Some v\<rparr>)"
proof -
  obtain ob w2 where n: "handler_timeout h ''recuar_backoff''
        (max recuo_backoff_minimo (backoff (trats w h) * 2)) (CbRecuarBackoff h) w = Inr (prox w, w2)"
    "local cfg h w w2" "dono w2 h = (dono w h)(prox w \<mapsto> ob)" "to_callback ob = CbRecuarBackoff h"
    "trats w2 = trats w" "conns w2 = conns w" "dono w h (prox w) = None"
    by (rule handler_timeout_dono [OF assms(1,2), of "''recuar_backoff''"
          "max recuo_backoff_minimo (backoff (trats w h) * 2)" "CbRecuarBackoff h" cfg])
  let ?v = "muda_trat h (\<lambda>tr. tr\<lparr>to_backoff := Some (prox w)\<rparr>) w2"
  have l2: "local cfg h w2 ?v" using n(2) by (intro local_muda_trat local_inv_tempo) auto
  have l: "local cfg h w ?v" by (rule local_trans [OF n(2) l2])
  have hv: "\<not> h_destroyed (hobjs ?v h)" using l assms(2) by (simp add: local_def)
  have m: "mm (prox w) = None" using n(7) assms(5) by simp
  have "trat_ok h (T\<lparr>backoff := b, to_backoff := Some (prox w)\<rparr>) c (mm(prox w \<mapsto> ob))"
    by (rule trat_ok_recuo [OF assms(6,7,8) m n(4) assms(9,10)])
  then have "tok h ?v" using hv n(3,5,6) local_inv_tempo [OF l] assms(3,4,5) by (simp add: tok_def)
  moreover have "agenda_recuo h w = Inr ?v" using n(1) by (simp add: agenda_recuo_def)
  ultimately show ?thesis using l n(5,6) by auto
qed

lemma feito_avancar:
  assumes "tok h w"
  shows "res_sat E (\<lambda>w'. feito cfg h w w' \<and> conns w' = conns w \<and> ignorar (trats w' h) = ignorar (trats w h) \<and>
    to_incompleta (trats w' h) = to_incompleta (trats w h)) (avancar_backoff h w)"
proof -
  let ?T = "trats w h"
  let ?w = "muda_trat h (\<lambda>t. t\<lparr>backoff := backoff t * 2\<rparr>) w"
  have i: "inv_tempo w" and tk: "trat_ok h ?T (conns w h) (dono w h)" and d: "\<not> h_destroyed (hobjs w h)"
    using assms by (simp_all add: tok_def)
  then obtain k where k: "backoff ?T = backoff_minimo * 2 ^ k" by (auto simp: trat_ok_def)
  have l0: "local cfg h w ?w" by (rule local_muda_trat [OF i]) simp
  have b: "backoff ?T * 2 = backoff_minimo * 2 ^ Suc k" using k by simp
  show ?thesis
  proof (cases "to_backoff ?T")
    case None
    from feito_agenda_recuo [OF local_inv_tempo [OF l0], where h = h and T = ?T and b = "backoff ?T * 2" and u = None and c = "conns w h"
        and mm = "dono w h" and m = "dono w h" and k = "Suc k" and cfg = cfg] None d tk b
    obtain w' v where w': "agenda_recuo h ?w = Inr w'" "local cfg h ?w w'" "tok h w'" "conns w' = conns ?w"
      "trats w' h = (trats ?w h)\<lparr>to_backoff := Some v\<rparr>" by auto
    have "local cfg h w w'" by (rule local_trans [OF l0 w'(2)])
    with w' None show ?thesis by (simp add: avancar_backoff_def feito_def)
  next
    case (Some u)
    with tk obtain ob where "dono w h u = Some ob" by (auto simp: trat_ok_def arm_def)
    then have "dono ?w h u = Some ob" by simp
    from cancel_dono [OF local_inv_tempo [OF l0] this, of cfg] obtain w2 where
      c: "cancel u ?w = Inr (True, w2)" "local cfg h ?w w2" "dono w2 h = (dono ?w h)(u := None)"
      "trats w2 = trats ?w" "conns w2 = conns ?w" by auto
    let ?v = "muda_trat h (\<lambda>t. t\<lparr>to_backoff := None\<rparr>) w2"
    have "local cfg h w2 ?v" using c(2) by (intro local_muda_trat local_inv_tempo) auto
    then have lv: "local cfg h w ?v" using l0 c(2) by (blast intro: local_trans)
    then have hv: "\<not> h_destroyed (hobjs ?v h)" using d by (simp add: local_def)
    have "(backoff ?T * 2 = backoff_minimo * 2 ^ Suc k)" by (rule b)
    from feito_agenda_recuo [OF local_inv_tempo [OF lv] hv, where T = ?T and b = "backoff ?T * 2" and u = None and c = "conns w h"
        and mm = "(dono w h)(u := None)" and m = "dono w h" and k = "Suc k" and cfg = cfg] Some tk b c
    obtain w' v where w': "agenda_recuo h ?v = Inr w'" "local cfg h ?v w'" "tok h w'" "conns w' = conns ?v"
      "trats w' h = (trats ?v h)\<lparr>to_backoff := Some v\<rparr>" by auto
    have "local cfg h w w'" by (rule local_trans [OF lv w'(2)])
    with w' Some c show ?thesis by (simp add: avancar_backoff_def feito_def)
  qed
qed

lemma trat_ok_sem_backoff:
  assumes "trat_ok h T c m" and "to_backoff T = Some t"
  shows "trat_ok h (T\<lparr>to_backoff := None, backoff := backoff_minimo\<rparr>) c (m(t := None))"
proof -
  from assms have a: "arm m t (CbRecuarBackoff h)" by (simp add: trat_ok_def)
  have "\<exists>k::nat. backoff_minimo = backoff_minimo * 2 ^ k" by (rule exI [of _ 0]) simp
  with assms arm_del_outro [OF a, of "CbComm h"] arm_opt_del [OF a] show ?thesis
    by (auto simp: trat_ok_def)
qed

text \<open>The state in which the callback of a timeout that has fired runs.\<close>

definition disparado :: "nat \<Rightarrow> mundo \<Rightarrow> mundo" where
  "disparado t w = w\<lparr>pending := remove1 t (pending w)\<rparr>"

lemma disparado_sel [simp]:
  "trats (disparado t w) = trats w" "coms (disparado t w) = coms w" "conns (disparado t w) = conns w"
  "fotos (disparado t w) = fotos w" "items (disparado t w) = items w" "hobjs (disparado t w) = hobjs w"
  "agora (disparado t w) = agora w" "amb (disparado t w) = amb w" "prox (disparado t w) = prox w"
  "tobjs (disparado t w) = tobjs w" "saidas (disparado t w) = saidas w" "alarme (disparado t w) = alarme w"
  "pending (disparado t w) = remove1 t (pending w)"
  by (simp_all add: disparado_def)

lemma dispara_dono:
  assumes "inv_tempo w" and "dono w h t = Some ob"
  shows "local cfg h w (disparado t w) \<and> dono (disparado t w) h = (dono w h)(t := None)"
proof -
  from assms have "\<not> to_invalid (tobjs w t)"
    by (auto simp: dono_def de_Some pv_Some inv_tempo_def)
  with cancel_eq [of w t] have "cancel t w = Inr (t \<in> set (pending w), disparado t w)"
    by (simp add: disparado_def)
  with cancel_dono [OF assms, of cfg] show ?thesis by (metis Pair_inject sum.inject(2))
qed

definition pronto :: "config \<Rightarrow> nat \<Rightarrow> mundo \<Rightarrow> mundo \<Rightarrow> bool" where
  "pronto cfg h w w' \<longleftrightarrow> local cfg h w w' \<and> tok h w' \<and> trat_vivo (trats w' h) (conns w' h)"

lemma pronto_recuar:
  assumes "tok h w" and "trat_vivo (trats w h) (conns w h)" and "to_backoff (trats w h) = Some t"
  shows "res_sat E (pronto cfg h w) (recuar_backoff h (disparado t w))"
proof -
  let ?T = "trats w h"
  have i: "inv_tempo w" and tk: "trat_ok h ?T (conns w h) (dono w h)" and d: "\<not> h_destroyed (hobjs w h)"
    using assms(1) by (simp_all add: tok_def)
  then obtain k where k: "backoff ?T = backoff_minimo * 2 ^ k" by (auto simp: trat_ok_def)
  have "backoff ?T \<noteq> backoff_minimo" using tk assms(3) by (simp add: trat_ok_def)
  then have kp: "k \<noteq> 0" using k by (cases k) simp_all
  then obtain j where j: "k = Suc j" using not0_implies_Suc by blast
  have m: "max (backoff ?T / 2) backoff_minimo = backoff_minimo * 2 ^ j"
  proof -
    have "backoff ?T / 2 = backoff_minimo * 2 ^ j" using k j by simp
    moreover have "backoff_minimo \<le> backoff_minimo * 2 ^ j" by (simp add: backoff_minimo_def)
    ultimately show ?thesis by (simp only: max_absorb1)
  qed
  from tk assms(3) obtain ob where "dono w h t = Some ob" by (auto simp: trat_ok_def arm_def)
  note f = dispara_dono [OF i this, of cfg]
  let ?v = "muda_trat h (\<lambda>t. t\<lparr>backoff := max (backoff t / 2) backoff_minimo\<rparr>)
      (muda_trat h (\<lambda>t. t\<lparr>to_backoff := None\<rparr>) (disparado t w))"
  have "local cfg h (muda_trat h (\<lambda>t. t\<lparr>to_backoff := None\<rparr>) (disparado t w)) ?v"
    "local cfg h (disparado t w) (muda_trat h (\<lambda>t. t\<lparr>to_backoff := None\<rparr>) (disparado t w))"
    using f by (auto intro!: local_muda_trat dest: local_inv_tempo) (auto simp: local_def inv_tempo_def)
  with f have lv: "local cfg h w ?v" by (blast intro: local_trans)
  then have hv: "\<not> h_destroyed (hobjs ?v h)" using d by (simp add: local_def)
  show ?thesis
  proof (cases "j = 0")
    case True
    with f k j have t0: "trats ?v h = ?T\<lparr>to_backoff := None, backoff := backoff_minimo\<rparr>" "dono ?v h = (dono w h)(t := None)"
      using m by simp_all
    have "tok h ?v" using trat_ok_sem_backoff [OF tk assms(3)] hv local_inv_tempo [OF lv] t0
      by (simp add: tok_def)
    moreover have "recuar_backoff h (disparado t w) = Inr ?v"
      using m True by (simp add: recuar_backoff_def Let_def)
    ultimately show ?thesis using lv assms(2) by (simp add: pronto_def trat_vivo_def)
  next
    case False
    from feito_agenda_recuo [OF local_inv_tempo [OF lv] hv, where T = ?T and b = "backoff_minimo * 2 ^ j" and u = None
        and c = "conns w h" and mm = "(dono w h)(t := None)" and m = "dono w h" and k = j and cfg = cfg]
      False tk assms(3) f m
    obtain w' x where w': "agenda_recuo h ?v = Inr w'" "local cfg h ?v w'" "tok h w'" "conns w' = conns ?v"
      "trats w' h = (trats ?v h)\<lparr>to_backoff := Some x\<rparr>" by auto
    have "backoff_minimo * 2 ^ j > backoff_minimo"
      using False by (simp add: backoff_minimo_def)
    then have "recuar_backoff h (disparado t w) = agenda_recuo h ?v"
      using m by (simp add: recuar_backoff_def Let_def)
    moreover have "local cfg h w w'" by (rule local_trans [OF lv w'(2)])
    ultimately show ?thesis using w' assms(2) by (simp add: pronto_def trat_vivo_def)
  qed
qed

subsection \<open>Processing and receiving\<close>

lemma trat_ok_processa:
  assumes "trat_ok h T c m" and "to_processa T = None" and "m t = None" and "to_callback ob = CbProcMsg h"
  shows "trat_ok h (T\<lparr>to_processa := Some t\<rparr>) c (m(t \<mapsto> ob))"
  using assms arm_upd_novo [where m = m and t = t, OF assms(3)] arm_opt_upd [where m = m and t = t, OF assms(3)]
  by (auto simp: trat_ok_def arm_upd)

lemma trat_ok_sem_processa:
  assumes "trat_ok h T c m" and "to_processa T = Some t"
  shows "trat_ok h (T\<lparr>to_processa := None\<rparr>) c (m(t := None))"
proof -
  from assms have a: "arm m t (CbProcMsg h)" by (simp add: trat_ok_def)
  from assms arm_del_outro [OF a, of "CbComm h"] arm_opt_del [OF a] show ?thesis
    by (auto simp: trat_ok_def)
qed

lemma pronto_agenda:
  assumes "tok h w" and "to_processa (trats w h) = None"
  shows "res_sat E (pronto cfg h w) (agenda_processa h w)"
proof -
  have i: "inv_tempo w" and tk: "trat_ok h (trats w h) (conns w h) (dono w h)" "\<not> h_destroyed (hobjs w h)"
    using assms by (simp_all add: tok_def)
  obtain ob w3 where n: "handler_timeout h ''proc_msg'' (backoff (trats w h)) (CbProcMsg h) w = Inr (prox w, w3)"
    "local cfg h w w3" "dono w3 h = (dono w h)(prox w \<mapsto> ob)" "to_callback ob = CbProcMsg h"
    "trats w3 = trats w" "conns w3 = conns w" "dono w h (prox w) = None"
    by (rule handler_timeout_dono [OF i tk(2), of "''proc_msg''" "backoff (trats w h)" "CbProcMsg h" cfg])
  let ?v = "muda_trat h (\<lambda>tr. tr\<lparr>to_processa := Some (prox w)\<rparr>) w3"
  have "local cfg h w3 ?v" using n(2) by (intro local_muda_trat local_inv_tempo) auto
  with n(2) have lv: "local cfg h w ?v" by (blast intro: local_trans)
  then have "\<not> h_destroyed (hobjs ?v h)" using tk(2) by (simp add: local_def)
  then have "tok h ?v"
    using trat_ok_processa [OF tk(1) assms(2) n(7,4)] n(3,5,6) local_inv_tempo [OF lv]
    by (simp add: tok_def)
  with lv n show ?thesis by (simp add: agenda_processa_def pronto_def trat_vivo_def)
qed

lemma pronto_local:
  "local cfg h w w' \<Longrightarrow> res_sat E (pronto cfg h w') m \<Longrightarrow> res_sat E (pronto cfg h w) m"
  by (cases m) (auto simp: pronto_def intro: local_trans)

lemma feito_local: "feito cfg h w w' \<Longrightarrow> local cfg h w w'"
  by (simp add: feito_def)

lemma pronto_processar:
  assumes "tok h w" and "distinct (items w)" and "to_processa (trats w h) = Some t" and "E IndexError"
  shows "res_sat E (pronto cfg h w) (processar_msg cfg h (disparado t w))"
proof -
  have i: "inv_tempo w" and tk: "trat_ok h (trats w h) (conns w h) (dono w h)" and d: "\<not> h_destroyed (hobjs w h)"
    using assms(1) by (simp_all add: tok_def)
  from tk assms(3) obtain ob where "dono w h t = Some ob" by (auto simp: trat_ok_def arm_def)
  note f = dispara_dono [OF i this, of cfg]
  let ?v = "muda_trat h (\<lambda>t. t\<lparr>to_processa := None\<rparr>) (disparado t w)"
  have lv: "local cfg h w ?v"
    by (rule local_trans [OF conjunct1 [OF f]], rule local_muda_trat) (use f in \<open>auto simp: local_def\<close>)
  then have tv: "tok h ?v"
    using trat_ok_sem_processa [OF tk assms(3)] f d local_inv_tempo [OF lv] by (simp add: tok_def)
  have dv: "distinct (items ?v)" using assms(2) by simp
  have pend: "res_sat E (pronto cfg h ?v) (if b then agenda_processa h w2 else Inr w2)"
    if "feito cfg h ?v w2" "consumido h (a, b, w1)" "conns w2 = conns w1" "\<not> a \<Longrightarrow> w2 = w1" for a b w1 w2
  proof -
    have t2: "tok h w2" "to_processa (trats w2 h) = None" "local cfg h ?v w2"
      using that(1) by (simp_all add: feito_def)
    show ?thesis
    proof (cases b)
      case True
      with pronto_local [OF t2(3) pronto_agenda [OF t2(1,2)]] show ?thesis by simp
    next
      case False
      with that(2-4) t2(1,3) show ?thesis
        by (cases a) (auto simp: pronto_def trat_vivo_def consumido_def)
    qed
  qed
  have av: "res_sat E (\<lambda>w2. feito cfg h ?v w2 \<and> conns w2 = conns w1 \<and> (\<not> a \<longrightarrow> w2 = w1))
      (if a then avancar_backoff h w1 else Inr w1)" if f1: "feito cfg h ?v w1" for a w1
  proof (cases a)
    case True
    from feito_avancar [OF feito_tok [OF f1], of E cfg] True show ?thesis
      by (auto elim!: res_sat_mono intro: feito_trans [OF f1])
  next
    case False
    then show ?thesis using f1 by simp
  qed
  have "res_sat E (pronto cfg h ?v) (processar_msg cfg h (disparado t w))"
    unfolding processar_msg_def Let_def
    by (rule res_sat_bindI [OF feito_consome [where cfg = cfg and E = E, OF tv dv assms(4)]], clarify,
        rule res_sat_bindI [OF av], simp, elim conjE, rule pend, assumption, simp, assumption, blast)
  with lv show ?thesis by (rule pronto_local)
qed

lemma trat_ok_restart:
  assumes "trat_ok h T c m" and "to_callback ob = CbComm h"
  shows "trat_ok h T c (m(to_comm T \<mapsto> ob))"
proof -
  have o: "arm_opt (m(to_comm T \<mapsto> ob)) r cb" if "arm_opt m r cb" "cb \<noteq> CbComm h" for r cb
    using that assms(1) by (auto simp: arm_opt_def arm_def trat_ok_def split: option.splits)
  show ?thesis using assms o
    by (auto simp: trat_ok_def arm_upd)
qed

lemma feito_restart_comm:
  assumes "tok h w"
  shows "res_sat E (\<lambda>w'. feito cfg h w w' \<and> trats w' = trats w \<and> conns w' = conns w) (restart (to_comm (trats w h)) w)"
proof -
  let ?t = "to_comm (trats w h)"
  have i: "inv_tempo w" and tk: "trat_ok h (trats w h) (conns w h) (dono w h)" and d: "\<not> h_destroyed (hobjs w h)"
    using assms by (simp_all add: tok_def)
  from tk obtain ob where ob: "dono w h ?t = Some ob" "to_callback ob = CbComm h"
    by (auto simp: trat_ok_def arm_def)
  then have t: "?t \<in> set (pending w)" "ob = tobjs w ?t" "to_owner ob = Some h"
    by (auto simp: dono_def de_Some pv_Some)
  with i have "?t < prox w" "\<not> to_invalid (tobjs w ?t)" "to_owner (tobjs w ?t) = Some h"
    by (auto simp: inv_tempo_def)
  from restart_dono [OF i this, of cfg] obtain ob' w' where
    r: "restart ?t w = Inr w'" "local cfg h w w'" "dono w' h = (dono w h)(?t \<mapsto> ob')"
      "to_callback ob' = to_callback (tobjs w ?t)" "trats w' = trats w" "conns w' = conns w" by blast
  have "feito cfg h w w'"
    by (rule feitoI [OF r(2) d]) (use r t ob trat_ok_restart [OF tk] in simp_all)
  with r show ?thesis by simp
qed

lemma pronto_recv:
  assumes "tok h w"
  shows "res_sat E (pronto cfg h w) (trat_recv_callback h data w)"
proof (cases "ignorar (trats w h)")
  case True
  have "feito cfg h w (poe_recv_buf h [] w)" by (rule feito_recv_buf [OF assms]) simp
  with True show ?thesis
    by (simp add: trat_recv_callback_def pronto_def feito_def trat_vivo_def poe_recv_buf_def)
next
  case False
  have nx: "res_sat E (pronto cfg h w) (if to_processa (trats w' h) = None then agenda_processa h w' else Inr w')"
    if f: "feito cfg h w w'" "trats w' = trats w" for w'
  proof (cases "to_processa (trats w' h)")
    case None
    with pronto_local [OF feito_local [OF f(1)] pronto_agenda [OF feito_tok [OF f(1)] None]]
    show ?thesis by simp
  next
    case (Some t)
    with f show ?thesis by (simp add: pronto_def feito_def trat_vivo_def)
  qed
  with False show ?thesis
    unfolding trat_recv_callback_def
    by (simp only: if_False)
      (rule res_sat_bindI [OF feito_restart_comm [OF assms, where cfg = cfg]], elim conjE, rule nx)
qed

lemma pronto_conn:
  assumes "tok h w" and "trat_vivo (trats w h) (conns w h)" and "bytes (g (send_buf (conns w h)))"
  shows "pronto cfg h w (muda_conn h (\<lambda>c. c\<lparr>send_buf := g (send_buf c)\<rparr>) w)"
proof -
  have "feito cfg h w (muda_conn h (\<lambda>c. c\<lparr>send_buf := g (send_buf c)\<rparr>) w)"
    by (rule feito_conn [OF assms(1)]) (use assms in \<open>simp_all add: tok_def trat_ok_def\<close>)
  with assms(2) show ?thesis by (simp add: pronto_def feito_def trat_vivo_def)
qed

text \<open>The two socket callbacks: either the connection goes on, or it is destroyed as it was.\<close>

lemma trat_read_casos:
  assumes "tok h w" and "recv_valido (a_recv (amb w))"
  shows "trat_read_callback cfg h w = destroy cfg h w \<or> res_sat E (pronto cfg h w) (trat_read_callback cfg h w)"
proof (cases "a_recv (amb w)")
  case RecvErro
  then show ?thesis by (simp add: trat_read_callback_def tcp_read_callback_def)
next
  case (RecvDados data)
  show ?thesis
  proof (cases "data = []")
    case True
    with RecvDados show ?thesis
      by (simp add: trat_read_callback_def tcp_read_callback_def trat_shutdown_callback_def)
  next
    case False
    let ?w = "poe_recv_buf h (recv_buf (conns w h) @ data) w"
    have "bytes data" using assms(2) RecvDados by (simp add: recv_valido_def)
    then have f: "feito cfg h w ?w"
      by (intro feito_recv_buf [OF assms(1)]) (simp add: tok_recv_bytes [OF assms(1)])
    from pronto_local [OF feito_local [OF f] pronto_recv [OF feito_tok [OF f]]] RecvDados False
    show ?thesis by (simp add: trat_read_callback_def tcp_read_callback_def)
  qed
qed

lemma trat_send_casos:
  assumes "tok h w" and "trat_vivo (trats w h) (conns w h)"
  shows "trat_send_callback cfg h w = destroy cfg h w \<or> res_sat E (pronto cfg h w) (trat_send_callback cfg h w)"
proof -
  have b: "bytes (send_buf (conns w h))" using assms(1) by (simp add: tok_def trat_ok_def)
  then have d: "bytes (drop k (send_buf (conns w h)))" for k by (rule bytes_drop)
  show ?thesis
    using pronto_conn [OF assms, of "drop _" cfg] d bytes_take [OF b, of 4096]
    by (auto simp: trat_send_callback_def server_send_callback_def split: send_res.split)
qed

end
