(* ===== verification/InvComando.thy ===== *)
theory InvComando
  imports InvTratador
begin

text \<open>
  Every operation of a photo download either goes on with its connection well formed and its
  timeout armed, or ends by destroying the connection; only opening the file may raise.
\<close>

subsection \<open>A download between two operations\<close>

text \<open>The timeout of the connection may be armed or not; it is valid and its own.\<close>

definition cok0 :: "nat \<Rightarrow> mundo \<Rightarrow> bool" where
  "cok0 h w \<longleftrightarrow>
    inv_tempo w \<and> \<not> h_destroyed (hobjs w h) \<and>
    (\<forall>t ob. dono w h t = Some ob \<longrightarrow> t = conn_timeout (coms w h) \<and> to_callback ob = CbConn h) \<and>
    conn_timeout (coms w h) < prox w \<and> \<not> to_invalid (tobjs w (conn_timeout (coms w h))) \<and>
    to_owner (tobjs w (conn_timeout (coms w h))) = Some h \<and>
    to_callback (tobjs w (conn_timeout (coms w h))) = CbConn h \<and>
    tam_senha (coms w h) \<le> 6 \<and> (\<exists>f. sub (coms w h) = ObtemFotosDeEvento f \<and> obtencao_ok f) \<and>
    bytes (recv_buf (conns w h)) \<and> bytes (send_buf (conns w h))"

definition cok :: "nat \<Rightarrow> mundo \<Rightarrow> bool" where
  "cok h w \<longleftrightarrow> inv_tempo w \<and> \<not> h_destroyed (hobjs w h) \<and> com_ok h (coms w h) (conns w h) (dono w h)"

lemma arm_dono:
  "inv_tempo w \<Longrightarrow> arm (dono w h) t cb \<Longrightarrow>
    t < prox w \<and> \<not> to_invalid (tobjs w t) \<and> to_owner (tobjs w t) = Some h \<and> to_callback (tobjs w t) = cb"
  by (auto simp: arm_def dono_def de_Some pv_Some inv_tempo_def)

lemma cok_cok0: "cok h w \<Longrightarrow> cok0 h w"
  using arm_dono [of w h "conn_timeout (coms w h)" "CbConn h"] by (auto simp: cok_def cok0_def com_ok_def)

lemma cok0_cok: "cok0 h w \<Longrightarrow> arm (dono w h) (conn_timeout (coms w h)) (CbConn h) \<Longrightarrow> cok h w"
  by (auto simp: cok_def cok0_def com_ok_def)

text \<open>An operation in progress, and one that has ended well.\<close>

definition meio :: "config \<Rightarrow> nat \<Rightarrow> mundo \<Rightarrow> mundo \<Rightarrow> bool" where
  "meio cfg h w w' \<longleftrightarrow> local cfg h w w' \<and> cok0 h w'"

definition segue :: "config \<Rightarrow> nat \<Rightarrow> mundo \<Rightarrow> mundo \<Rightarrow> bool" where
  "segue cfg h w w' \<longleftrightarrow> local cfg h w w' \<and> cok h w'"

definition termina :: "config \<Rightarrow> nat \<Rightarrow> mundo \<Rightarrow> mundo res \<Rightarrow> bool" where
  "termina cfg h w m \<longleftrightarrow>
    (\<exists>w'. meio cfg h w w' \<and> m = destroy cfg h w') \<or> (\<exists>w'. segue cfg h w w' \<and> m = Inr w') \<or>
    \<not> a_open_ok (amb w) \<and> m = Inl OSErro"

lemma meio_refl: "cok0 h w \<Longrightarrow> meio cfg h w w"
  by (simp add: meio_def cok0_def local_refl)

lemma meio_trans: "meio cfg h w w' \<Longrightarrow> meio cfg h w' w'' \<Longrightarrow> meio cfg h w w''"
  unfolding meio_def by (blast intro: local_trans)

lemma termina_trans: "meio cfg h w w' \<Longrightarrow> termina cfg h w' m \<Longrightarrow> termina cfg h w m"
  unfolding termina_def meio_def segue_def by (metis local_def local_trans)

lemma termina_destroy: "cok0 h w \<Longrightarrow> termina cfg h w (destroy cfg h w)"
  unfolding termina_def using meio_refl by blast

lemma termina_if:
  "(b \<Longrightarrow> termina cfg h w m) \<Longrightarrow> (\<not> b \<Longrightarrow> termina cfg h w n) \<Longrightarrow> termina cfg h w (if b then m else n)"
  by simp

subsection \<open>Changes of the objects\<close>

lemma meio_com:
  assumes "cok0 h w" and "sub (coms w h) = ObtemFotosDeEvento g"
    and "sub (f (coms w h)) = ObtemFotosDeEvento g'" and "of_indice g' = of_indice g" "of_nrfoto g' = of_nrfoto g"
    and "obtencao_ok g'" and "conn_timeout (f (coms w h)) = conn_timeout (coms w h)"
    and "tam_senha (f (coms w h)) = tam_senha (coms w h)"
  shows "meio cfg h w (muda_com h f w)"
proof -
  have "inv_tempo w" using assms(1) by (simp add: cok0_def)
  then have l: "local cfg h w (muda_com h f w)" by (rule local_muda_com) (use assms in auto)
  with assms show ?thesis by (simp add: meio_def cok0_def local_inv_tempo [OF l])
qed

lemma meio_com_igual:
  assumes "cok0 h w" and "\<And>C. sub (f C) = sub C" and "\<And>C. conn_timeout (f C) = conn_timeout C"
    and "\<And>C. tam_senha (f C) = tam_senha C"
  shows "meio cfg h w (muda_com h f w)"
proof -
  from assms(1) obtain g where "sub (coms w h) = ObtemFotosDeEvento g" "obtencao_ok g"
    by (auto simp: cok0_def)
  with meio_com [OF assms(1), of g f g cfg] assms show ?thesis by simp
qed

lemma meio_conn:
  assumes "cok0 h w" and "bytes (recv_buf (f (conns w h)))" and "bytes (send_buf (f (conns w h)))"
  shows "meio cfg h w (muda_conn h f w)"
proof -
  have "inv_tempo w" using assms(1) by (simp add: cok0_def)
  then have l: "local cfg h w (muda_conn h f w)" by (rule local_muda_conn)
  with assms show ?thesis by (simp add: meio_def cok0_def local_inv_tempo [OF l])
qed

lemma meio_send: "cok0 h w \<Longrightarrow> bytes d \<Longrightarrow> meio cfg h w (tcp_send h d w)"
  unfolding tcp_send_def by (rule meio_conn) (simp_all add: cok0_def)

lemma meio_recv_buf: "cok0 h w \<Longrightarrow> bytes d \<Longrightarrow> meio cfg h w (poe_recv_buf h d w)"
  unfolding poe_recv_buf_def by (rule meio_conn) (simp_all add: cok0_def)

lemma meio_emite: "cok0 h w \<Longrightarrow> meio cfg h w (emite s w)"
  using local_emite [of w cfg h s] by (auto simp: meio_def cok0_def dest: local_inv_tempo)

lemma segue_rearma:
  assumes "cok0 h w"
  obtains w' where "rearma_conn_timeout h w = Inr w'" and "segue cfg h w w'"
proof -
  let ?t = "conn_timeout (coms w h)"
  have "inv_tempo w" "?t < prox w" "\<not> to_invalid (tobjs w ?t)" "to_owner (tobjs w ?t) = Some h"
    using assms by (simp_all add: cok0_def)
  from restart_dono [OF this, of cfg] obtain ob w' where
    r: "restart ?t w = Inr w'" "local cfg h w w'" "dono w' h = (dono w h)(?t \<mapsto> ob)"
      "to_callback ob = to_callback (tobjs w ?t)" "coms w' = coms w" "conns w' = conns w" by blast
  have "\<not> h_destroyed (hobjs w' h)" "inv_tempo w'" using r(2) assms by (simp_all add: local_def cok0_def)
  then have "cok h w'" using assms r by (simp add: cok_def com_ok_def cok0_def arm_upd)
  with r that show ?thesis by (simp add: rearma_conn_timeout_def segue_def)
qed

lemma meio_cancela:
  assumes "cok0 h w"
  obtains w' where "cancela_conn_timeout h w = Inr w'" and "meio cfg h w w'" and "coms w' = coms w" and "conns w' = conns w"
    and "amb w' = amb w"
proof -
  let ?t = "conn_timeout (coms w h)"
  have i: "inv_tempo w" "\<not> to_invalid (tobjs w ?t)" "to_owner (tobjs w ?t) = Some h"
    using assms by (simp_all add: cok0_def)
  have c: "cancel ?t w = Inr (?t \<in> set (pending w), disparado ?t w)"
    using cancel_eq [OF i(2)] by (simp add: disparado_def)
  show ?thesis
  proof (cases "dono w h ?t")
    case None
    then have "?t \<notin> set (pending w)" using i(3) by (auto simp: dono_def de_def pv_def split: if_splits)
    then have "disparado ?t w = w" by (simp add: disparado_def remove1_idem)
    with c that [of w] meio_refl [OF assms] show ?thesis by (simp add: cancela_conn_timeout_def)
  next
    case (Some ob)
    from dispara_dono [OF i(1) Some, of cfg] have f: "local cfg h w (disparado ?t w)"
      "dono (disparado ?t w) h = (dono w h)(?t := None)" by auto
    have "cok0 h (disparado ?t w)"
      using assms f local_inv_tempo [OF f(1)] by (auto simp: cok0_def)
    with f c that [of "disparado ?t w"] show ?thesis by (simp add: cancela_conn_timeout_def meio_def)
  qed
qed

lemma termina_rearma: "meio cfg h w w' \<Longrightarrow> termina cfg h w (rearma_conn_timeout h w')"
  by (rule termina_trans, assumption, rule segue_rearma [of h w' cfg])
    (auto simp: meio_def termina_def)

subsection \<open>Sending\<close>

lemma termina_envia_comando:
  assumes "cok0 h w" and "0 \<le> cmd" "cmd < 65536" and "bytes p" "length p \<le> 65533"
  shows "termina cfg h w (envia_comando h cmd p w)"
proof -
  have s: "meio cfg h w (tcp_send h (pacote_isecnet2 cmd p) w)"
    by (rule meio_send [OF assms(1)]) (rule bytes_pacote [OF assms(2-5)])
  have "meio cfg h w (muda_com h (\<lambda>c. c\<lparr>cmd_enviado := cmd, tratador_fase := RespostaComando\<rparr>)
      (tcp_send h (pacote_isecnet2 cmd p) w))"
    by (rule meio_trans [OF s meio_com_igual]) (use s in \<open>simp_all add: meio_def\<close>)
  from termina_rearma [OF this] show ?thesis by (simp add: envia_comando_def Let_def)
qed

lemma termina_despedida:
  assumes "cok0 h w"
  shows "termina cfg h w (despedida h w)"
proof -
  have s: "meio cfg h w (tcp_send h pacote_isecnet2_bye w)"
    by (rule meio_send [OF assms]) (simp add: pacote_isecnet2_bye_def bytes_pacote)
  have "meio cfg h w (muda_com h (\<lambda>c. c\<lparr>tratador_fase := SemTratador, status := 0\<rparr>)
      (tcp_send h pacote_isecnet2_bye w))"
    by (rule meio_trans [OF s meio_com_igual]) (use s in \<open>simp_all add: meio_def\<close>)
  from termina_rearma [OF this] show ?thesis by (simp add: despedida_def Let_def)
qed

lemma bytes_auth: "tam \<le> 6 \<Longrightarrow> bytes (pacote_isecnet2_auth sen tam)"
proof -
  assume "tam \<le> 6"
  then have "nat tam \<le> 6" by simp
  moreover have "bytes (contact_id_encode sen tam)" by (rule contact_ok_bytes) simp
  ultimately show ?thesis by (simp add: pacote_isecnet2_auth_def Let_def bytes_pacote)
qed

lemma termina_autenticacao:
  assumes "cok0 h w"
  shows "termina cfg h w (autenticacao h w)"
proof -
  have s: "meio cfg h w (tcp_send h (pacote_isecnet2_auth (senha (coms w h)) (tam_senha (coms w h))) w)"
    by (rule meio_send [OF assms]) (use assms in \<open>simp add: bytes_auth cok0_def\<close>)
  have "meio cfg h w (muda_com h (\<lambda>c. c\<lparr>tratador_fase := RespostaAutenticacao\<rparr>)
      (tcp_send h (pacote_isecnet2_auth (senha (coms w h)) (tam_senha (coms w h))) w))"
    by (rule meio_trans [OF s meio_com_igual]) (use s in \<open>simp_all add: meio_def\<close>)
  from termina_rearma [OF this] show ?thesis by (simp add: autenticacao_def Let_def)
qed

lemma termina_fragmento:
  assumes "cok0 h w" and "sub (coms w h) = ObtemFotosDeEvento g" and "obtencao_ok f"
    and "of_indice f = of_indice g" "of_nrfoto f = of_nrfoto g"
  shows "termina cfg h w (obtem_fragmento_foto h f (muda_com h (\<lambda>c. c\<lparr>sub := ObtemFotosDeEvento f\<rparr>) w))"
proof -
  have m: "meio cfg h w (muda_com h (\<lambda>c. c\<lparr>sub := ObtemFotosDeEvento f\<rparr>) w)"
    by (rule meio_com [OF assms(1,2)]) (use assms in simp_all)
  then have k: "cok0 h (muda_com h (\<lambda>c. c\<lparr>sub := ObtemFotosDeEvento f\<rparr>) w)" by (simp add: meio_def)
  have "bytes (be16 (of_indice f) @ [of_nrfoto f, fragmento_corrente f])"
    using assms(3) by (simp add: obtencao_ok_def bytes_be16)
  then show ?thesis
    unfolding obtem_fragmento_foto_def
    by (intro termina_trans [OF m] termina_envia_comando [OF k]) simp_all
qed

subsection \<open>Responses\<close>

lemma meio_cok0: "meio cfg h w w' \<Longrightarrow> cok0 h w'"
  by (simp add: meio_def)

lemma termina_nak: "cok0 h w \<Longrightarrow> termina cfg h w (nak cfg h payload w)"
proof -
  assume k: "cok0 h w"
  have "meio cfg h w (muda_com h (\<lambda>c. c\<lparr>status := 1\<rparr>) w)" by (rule meio_com_igual [OF k]) simp_all
  from termina_trans [OF this termina_destroy [OF meio_cok0 [OF this]]] termina_destroy [OF k]
  show ?thesis by (simp add: nak_def Let_def)
qed

lemma termina_envia_comando_in:
  assumes "cok0 h w"
  shows "termina cfg h w (envia_comando_in h w)"
proof -
  from assms obtain f where f: "sub (coms w h) = ObtemFotosDeEvento f" "obtencao_ok f" by (auto simp: cok0_def)
  then have "obtencao_ok (f\<lparr>fragmento_corrente := 1, jpeg_corrente := []\<rparr>)" by (simp add: obtencao_ok_def)
  from termina_fragmento [OF assms f(1) this] f show ?thesis by (simp add: envia_comando_in_def Let_def)
qed

lemma termina_autenticado:
  assumes "cok0 h w"
  shows "termina cfg h w (resposta_autenticacao cfg h cmd payload w)"
  unfolding resposta_autenticacao_def
proof (intro termina_if)
  assume "\<not> length payload \<noteq> 1"
  then show "termina cfg h w (res_bind (py_nth payload 0) (\<lambda>resposta.
      if resposta > 0 then destroy cfg h w else envia_comando_in h w))"
    using termina_destroy [OF assms] termina_envia_comando_in [OF assms] by simp
qed (rule termina_nak [OF assms] termina_destroy [OF assms])+

lemma fragmento_ok:
  assumes "obtencao_ok f" and "bytes p" and "fragmento_corrente f < n" and "byte n"
  shows "obtencao_ok (f\<lparr>jpeg_corrente := jpeg_corrente f @ drop 6 p, fragmento_corrente := fragmento_corrente f + 1\<rparr>)"
  using assms by (simp add: obtencao_ok_def byte_def bytes_drop)

lemma termina_foto_resposta:
  assumes "cok0 h w" and "sub (coms w h) = ObtemFotosDeEvento f" and "obtencao_ok f" and "bytes payload"
  shows "termina cfg h w (foto_resposta_comando_in cfg h f payload w)"
proof (cases "length payload < 6")
  case True
  with termina_destroy [OF assms(1)] show ?thesis by (simp add: foto_resposta_comando_in_def)
next
  case False
  note d = termina_destroy [OF assms(1), of cfg]
  let ?i = "payload ! 0 * 256 + payload ! 1"
  have p: "parse_be16 (fatia 0 2 payload) = Inr ?i" using False by (simp add: parse_be16_def)
  have b: "byte (payload ! 5)" "bytes (drop 6 payload)" using assms(4) False by (simp_all add: bytes_nth bytes_drop)
  let ?f = "f\<lparr>jpeg_corrente := jpeg_corrente f @ drop 6 payload\<rparr>"
  have mais: "termina cfg h w (obtem_fragmento_foto h (?f\<lparr>fragmento_corrente := fragmento_corrente f + 1\<rparr>)
      (muda_com h (\<lambda>c. c\<lparr>sub := ObtemFotosDeEvento (?f\<lparr>fragmento_corrente := fragmento_corrente f + 1\<rparr>)\<rparr>) w))"
    if "fragmento_corrente f < payload ! 5"
    by (rule termina_fragmento [OF assms(1,2)])
      (use fragmento_ok [OF assms(3,4) that b(1)] in simp_all)
  have fim: "termina cfg h w (despedida h (emite s
      (muda_com h (\<lambda>c. c\<lparr>sub := ObtemFotosDeEvento (?f\<lparr>of_arquivo := a\<rparr>)\<rparr>) w)))" for s a
  proof -
    let ?w = "muda_com h (\<lambda>c. c\<lparr>sub := ObtemFotosDeEvento (?f\<lparr>of_arquivo := a\<rparr>)\<rparr>) w"
    have m: "meio cfg h w ?w"
      by (rule meio_com [OF assms(1,2), where g' = "?f\<lparr>of_arquivo := a\<rparr>"])
        (use assms(3) b in \<open>simp_all add: obtencao_ok_def\<close>)
    have "meio cfg h w (emite s ?w)" by (rule meio_trans [OF m meio_emite [OF meio_cok0 [OF m]]])
    from termina_trans [OF this termina_despedida [OF meio_cok0 [OF this]]] show ?thesis .
  qed
  have oserro: "\<not> a_open_ok (amb w) \<Longrightarrow> termina cfg h w (Inl OSErro)" by (simp add: termina_def)
  have jpeg: "bytes (jpeg_corrente f @ drop 6 payload)" using assms(3) b by (simp add: obtencao_ok_def)
  show ?thesis
    unfolding foto_resposta_comando_in_def Let_def using False p
    by (simp only: if_False res_bind_Inr) (use d mais fim oserro jpeg in auto)
qed

lemma bytes_py_fatia: "bytes xs \<Longrightarrow> bytes (py_fatia a b xs)"
  by (simp add: py_fatia_def bytes_fatia)

lemma parse_bytes:
  "9 \<le> length pct \<Longrightarrow> bytes pct \<Longrightarrow> \<exists>cmd p. pacote_isecnet2_parse pct = Inr (cmd, p) \<and> bytes p"
  by (simp add: pacote_isecnet2_parse_def parse_be16_def Let_def bytes_py_fatia)

lemma termina_resposta_comando:
  assumes "cok0 h w" and "bytes payload"
  shows "termina cfg h w (resposta_comando cfg h cmd payload w)"
proof -
  from assms(1) obtain f where f: "sub (coms w h) = ObtemFotosDeEvento f" "obtencao_ok f" by (auto simp: cok0_def)
  from termina_nak [OF assms(1)] termina_destroy [OF assms(1)] termina_foto_resposta [OF assms(1) f assms(2)] f(1)
  show ?thesis by (simp add: resposta_comando_def resposta_comando_in_def)
qed

lemma termina_recv:
  assumes "cok h w"
  shows "termina cfg h w (com_recv_callback cfg h latest w)"
proof -
  let ?b = "recv_buf (conns w h)"
  let ?n = "b ! 4 * 256 + b ! 5"
  have k: "cok0 h w" using assms by (rule cok_cok0)
  then have b: "bytes ?b" by (simp add: cok0_def)
  have fica: "termina cfg h w (Inr w)"
    using assms by (auto simp: termina_def segue_def cok_def local_refl)
  show ?thesis
  proof (cases "length ?b < 9 \<or> int (length ?b) < 7 + (?b ! 4 * 256 + ?b ! 5)")
    case True
    then show ?thesis using fica by (simp add: com_recv_callback_def completo_eq)
  next
    case False
    let ?c = "7 + (?b ! 4 * 256 + ?b ! 5)"
    let ?w = "poe_recv_buf h (drop (nat ?c) ?b) w"
    have pos: "0 \<le> ?b ! 4" "0 \<le> ?b ! 5" using bytes_nth [OF b] False by (simp_all add: byte_def)
    have cp: "pacote_isecnet2_completo ?b = Inr ?c" "?c \<noteq> 0" using False pos by (simp_all add: completo_eq)
    define pct where "pct = take (nat ?c) ?b"
    have le: "nat ?c \<le> length ?b" using False by linarith
    have lp: "length pct = nat ?c" "bytes pct" "pct ! 4 = ?b ! 4" "pct ! 5 = ?b ! 5"
      using le pos b by (simp_all add: pct_def bytes_take min_def)
    have m: "meio cfg h w ?w" by (rule meio_recv_buf [OF k bytes_drop [OF b]])
    have kw: "cok0 h ?w" using m by (rule meio_cok0)
    have corr: "pacote_isecnet2_correto pct = Inr (2 \<le> ?b ! 4 * 256 + ?b ! 5 \<and> checksum pct = 0)"
      using lp pos by (simp add: pacote_isecnet2_correto_def parse_be16_fatia)
    obtain w2 where c: "cancela_conn_timeout h ?w = Inr w2" "meio cfg h ?w w2" by (rule meio_cancela [OF kw])
    have k2: "cok0 h w2" using c(2) by (rule meio_cok0)
    note t2 = termina_trans [OF c(2)]
    have "termina cfg h ?w (res_bind (pacote_isecnet2_correto pct) (\<lambda>correto.
             if \<not> correto then destroy cfg h ?w
             else res_bind (pacote_isecnet2_parse pct) (\<lambda>(cmd, payload).
               case tratador_fase (coms ?w h) of
                 SemTratador \<Rightarrow> destroy cfg h ?w
               | RespostaAutenticacao \<Rightarrow>
                   res_bind (cancela_conn_timeout h ?w) (resposta_autenticacao cfg h cmd payload)
               | RespostaComando \<Rightarrow>
                   res_bind (cancela_conn_timeout h ?w) (resposta_comando cfg h cmd payload))))"
    proof (cases "2 \<le> ?b ! 4 * 256 + ?b ! 5 \<and> checksum pct = 0")
      case True
      then have "9 \<le> nat ?c" by linarith
      with lp(1) have "9 \<le> length pct" by simp
      with parse_bytes lp(2) obtain cmd p where "pacote_isecnet2_parse pct = Inr (cmd, p)" "bytes p" by blast
      with True corr c(1) termina_destroy [OF kw] t2 [OF termina_autenticado [OF k2]]
        t2 [OF termina_resposta_comando [OF k2]]
      show ?thesis by (simp split: fase.split)
    next
      case False
      with corr termina_destroy [OF kw] show ?thesis by simp
    qed
    from termina_trans [OF m this, unfolded pct_def] cp show ?thesis
      by (simp add: com_recv_callback_def Let_def)
  qed
qed

subsection \<open>Callbacks\<close>

lemma cok_meio: "cok h w \<Longrightarrow> meio cfg h w w' \<Longrightarrow> dono w' h = dono w h \<Longrightarrow> coms w' h = coms w h \<Longrightarrow> segue cfg h w w'"
  using cok0_cok [of h w'] by (auto simp: segue_def meio_def cok_def [of h w] com_ok_def)

lemma termina_read:
  assumes "cok h w" and "recv_valido (a_recv (amb w))"
  shows "termina cfg h w (com_read_callback cfg h w)"
proof (cases "a_recv (amb w)")
  case RecvErro
  with termina_destroy [OF cok_cok0 [OF assms(1)]] show ?thesis
    by (simp add: com_read_callback_def tcp_read_callback_def)
next
  case (RecvDados data)
  let ?w = "poe_recv_buf h (recv_buf (conns w h) @ data) w"
  have "bytes (recv_buf (conns w h) @ data)"
    using assms RecvDados by (simp add: recv_valido_def cok_def com_ok_def)
  then have m: "meio cfg h w ?w" by (rule meio_recv_buf [OF cok_cok0 [OF assms(1)]])
  then have "cok h ?w" using cok_meio [OF assms(1) m] by (simp add: segue_def poe_recv_buf_def)
  from termina_trans [OF m termina_recv [OF this]] termina_destroy [OF cok_cok0 [OF assms(1)]] RecvDados
  show ?thesis by (simp add: com_read_callback_def tcp_read_callback_def)
qed

lemma termina_write:
  assumes "cok h w"
  shows "termina cfg h w (com_write_callback cfg h w)"
proof (cases "connecting (conns w h)")
  case True
  have k: "cok0 h w" using assms by (rule cok_cok0)
  let ?w = "muda_conn h (\<lambda>c. c\<lparr>connecting := False\<rparr>) w"
  have m: "meio cfg h w ?w" by (rule meio_conn [OF k]) (use k in \<open>simp_all add: cok0_def\<close>)
  obtain w2 where c: "cancela_conn_timeout h ?w = Inr w2" "meio cfg h ?w w2" by (rule meio_cancela [OF meio_cok0 [OF m]])
  have m2: "meio cfg h w w2" by (rule meio_trans [OF m c(2)])
  have m3: "meio cfg h w (muda_com h (\<lambda>c. c\<lparr>status := 1\<rparr>) w2)"
    by (rule meio_trans [OF m2 meio_com_igual [OF meio_cok0 [OF m2]]]) simp_all
  show ?thesis
    using True c(1) termina_trans [OF m3 termina_destroy [OF meio_cok0 [OF m3]]]
      termina_trans [OF m2 termina_autenticacao [OF meio_cok0 [OF m2]]]
    by (simp add: com_write_callback_def client_send_callback_def client_conectou_def connection_callback_def Let_def)
next
  case False
  have k: "cok0 h w" using assms by (rule cok_cok0)
  then have b: "bytes (send_buf (conns w h))" "bytes (recv_buf (conns w h))" by (simp_all add: cok0_def)
  have "segue cfg h w (muda_conn h (\<lambda>c. c\<lparr>send_buf := drop n (send_buf c)\<rparr>) w)" for n
    by (rule cok_meio [OF assms meio_conn [OF k]]) (use b in \<open>simp_all add: bytes_drop\<close>)
  then have "termina cfg h w (Inr (muda_conn h (\<lambda>c. c\<lparr>send_buf := drop n (send_buf c)\<rparr>) w))" for n
    by (auto simp: termina_def)
  with False bytes_take [OF b(1)] termina_destroy [OF k] show ?thesis
    by (simp add: com_write_callback_def client_send_callback_def split: send_res.split)
qed

lemma termina_conn_timeout:
  assumes "cok h w"
  shows "termina cfg h w (com_conn_timeout cfg h (disparado (conn_timeout (coms w h)) w))"
proof -
  let ?t = "conn_timeout (coms w h)"
  have k: "cok0 h w" using assms by (rule cok_cok0)
  from assms obtain ob where "dono w h ?t = Some ob" by (auto simp: cok_def com_ok_def arm_def)
  note ob = this
  have "inv_tempo w" using k unfolding cok0_def by blast
  from dispara_dono [OF this ob, of cfg] have f: "local cfg h w (disparado ?t w)"
    "dono (disparado ?t w) h = (dono w h)(?t := None)" by simp_all
  have "cok0 h (disparado ?t w)"
    using k local_inv_tempo [OF f(1)] f(2) unfolding cok0_def by simp
  with f(1) have m: "meio cfg h w (disparado ?t w)" by (simp add: meio_def)
  have "meio cfg h w (muda_com h (\<lambda>c. c\<lparr>status := 1\<rparr>) (disparado ?t w))"
    by (rule meio_trans [OF m meio_com_igual [OF meio_cok0 [OF m]]]) simp_all
  from termina_trans [OF this termina_destroy [OF meio_cok0 [OF this]]] termina_trans [OF m termina_destroy [OF meio_cok0 [OF m]]]
  show ?thesis by (simp add: com_conn_timeout_def Let_def)
qed

end
