(* ===== verification/InvMundo.thy ===== *)
theory InvMundo
  imports InvComando
begin

text \<open>
  The invariant of the whole receiver: what an operation on one handler, the destruction of a
  handler and the creation of one do to it, and that it holds in every reachable state.
\<close>

subsection \<open>An operation on one handler\<close>

lemma dono_Some: "dono w h t = Some ob \<longleftrightarrow> pv w t = Some ob \<and> to_owner ob = Some h"
  by (auto simp: dono_def de_Some)

lemma sem_dono_Some: "sem_dono w t = Some ob \<longleftrightarrow> pv w t = Some ob \<and> to_owner ob = None"
  by (auto simp: sem_dono_def de_Some)

text \<open>The invariant except for the object \<open>h\<close>.\<close>

definition quase :: "config \<Rightarrow> nat \<Rightarrow> mundo \<Rightarrow> bool" where
  "quase cfg h w \<longleftrightarrow>
    inv_tempo w \<and> inv_registro w \<and> h \<in> set (items w) \<and>
    (\<forall>h'\<in>set (items w). h' \<noteq> h \<longrightarrow> objeto_ok h' w) \<and>
    fotos_ok w \<and> tarefas_ok w \<and> periodicas_ok w \<and>
    (\<exists>h'\<in>set (items w). h' \<noteq> h \<and> classe_de w h' = CListener) \<and>
    centrais_conectadas w \<le> limite cfg"

lemma inv_registro_local:
  assumes "inv_registro w" and "local cfg h w w'" and "h \<in> set (items w)"
  shows "inv_registro w'"
proof -
  have "h' \<in> set (items w)" if "pv w' t = Some ob" "to_owner ob = Some h'" for t ob h'
  proof (cases "h' = h")
    case False
    with assms(2) have "dono w' h' = dono w h'" by (simp add: local_def mesmo_def)
    with that have "dono w h' t = Some ob" using dono_Some [of w' h' t ob] by simp
    with assms(1) show ?thesis by (auto simp: dono_Some inv_registro_def)
  qed (use assms(3) in simp)
  with assms(1,2) show ?thesis by (auto simp: inv_registro_def local_def intro: less_le_trans)
qed

lemma periodicas_local: "periodicas_ok w \<Longrightarrow> local cfg h w w' \<Longrightarrow> periodicas_ok w'"
  by (auto simp: periodicas_ok_def local_def periodica_def)

lemma quase_local:
  assumes "invar cfg w" and "h \<in> set (items w)" and "classe_de w h \<noteq> CListener" and "local cfg h w w'"
  shows "quase cfg h w'"
proof -
  have o: "objeto_ok h' w'" if "h' \<in> set (items w)" "h' \<noteq> h" for h'
    using that assms(1,4) objeto_ok_mesmo [of h' w w'] by (simp add: invar_def local_def)
  have "centrais_conectadas w' \<le> limite cfg" using assms(1,4) by (auto simp: invar_def local_def)
  moreover have "\<exists>h'\<in>set (items w'). h' \<noteq> h \<and> classe_de w' h' = CListener"
    using assms(1,3,4) by (force simp: invar_def local_def)
  ultimately show ?thesis using assms(1,2,4) o inv_registro_local [OF _ assms(4,2)] periodicas_local [OF _ assms(4)]
    by (simp add: quase_def invar_def local_def)
qed

lemma quase_inv: "quase cfg h w \<Longrightarrow> objeto_ok h w \<Longrightarrow> invar cfg w"
  by (auto simp: quase_def invar_def)

lemma inv_tempo_de: "invar cfg w \<Longrightarrow> inv_tempo w"
  by (simp add: invar_def)

lemma inv_distinct: "invar cfg w \<Longrightarrow> distinct (items w)"
  by (simp add: invar_def inv_registro_def)

lemma inv_vivo: "invar cfg w \<Longrightarrow> h \<in> set (items w) \<Longrightarrow> \<not> h_destroyed (hobjs w h)"
  by (simp add: invar_def inv_registro_def)

lemma inv_tok:
  "invar cfg w \<Longrightarrow> h \<in> set (items w) \<Longrightarrow> classe_de w h = CTratador \<Longrightarrow>
    tok h w \<and> trat_vivo (trats w h) (conns w h)"
  using inv_vivo [of cfg w h] by (auto simp: invar_def tok_def objeto_ok_def)

lemma inv_cok: "invar cfg w \<Longrightarrow> h \<in> set (items w) \<Longrightarrow> classe_de w h = CComando \<Longrightarrow> cok h w"
  using inv_vivo [of cfg w h] by (auto simp: invar_def cok_def objeto_ok_def)

lemma pronto_inv:
  assumes "invar cfg w" and "h \<in> set (items w)" and "classe_de w h = CTratador" and "pronto cfg h w w'"
  shows "invar cfg w'"
proof (rule quase_inv)
  show "quase cfg h w'" using assms by (intro quase_local) (auto simp: pronto_def)
  show "objeto_ok h w'" using assms(3,4) by (simp add: pronto_def objeto_ok_def tok_def local_def)
qed

lemma segue_inv:
  assumes "invar cfg w" and "h \<in> set (items w)" and "classe_de w h = CComando" and "segue cfg h w w'"
  shows "invar cfg w'"
proof (rule quase_inv)
  show "quase cfg h w'" using assms by (intro quase_local) (auto simp: segue_def)
  show "objeto_ok h w'" using assms(3,4) by (simp add: segue_def objeto_ok_def cok_def local_def)
qed

subsection \<open>Destroying a handler\<close>

lemma destroi:
  assumes "\<not> h_destroyed (hobjs w h)" and "dcb h w = Inr w1" and "h \<in> set (items w1)" and "inv_tempo w1"
  obtains W where "handler_destroy dcb h w = Inr W" and "inv_tempo W"
    and "items W = remove1 h (items w1)" and "hobjs W = (hobjs w1)(h := (hobjs w1 h)\<lparr>h_destroyed := True\<rparr>)"
    and "\<And>h'. h' \<noteq> h \<Longrightarrow> dono W h' = dono w1 h'" and "sem_dono W = sem_dono w1"
    and "dono W h = Map.empty"
    and "trats W = trats w1" and "coms W = coms w1" and "conns W = conns w1" and "fotos W = fotos w1"
    and "saidas W = saidas w1" and "prox W = prox w1" and "alarme W = alarme w1" and "agora W = agora w1"
    and "amb W = amb w1"
    and "\<And>t. to_owner (tobjs w1 t) = None \<Longrightarrow> tobjs W t = tobjs w1 t"
proof -
  obtain ps where d: "handler_destroy dcb h w =
      Inr (w1\<lparr>hobjs := (hobjs w1)(h := (hobjs w1 h)\<lparr>h_destroyed := True\<rparr>),
             items := remove1 h (items w1),
             tobjs := invalida_de (Some h) (pending w1) (tobjs w1), pending := ps\<rparr>)"
    and ps: "distinct ps" "set ps = {t \<in> set (pending w1). to_owner (tobjs w1 t) \<noteq> Some h}"
    by (rule handler_destroy_eq [where dcb = dcb and h = h and w = w and ?w1.0 = w1, OF assms])
  let ?W = "w1\<lparr>hobjs := (hobjs w1)(h := (hobjs w1 h)\<lparr>h_destroyed := True\<rparr>),
             items := remove1 h (items w1),
             tobjs := invalida_de (Some h) (pending w1) (tobjs w1), pending := ps\<rparr>"
  have it: "inv_tempo ?W" using assms(4) ps by (auto simp: inv_tempo_def invalida_de_def)
  have pv: "pv ?W t = (case pv w1 t of Some ob \<Rightarrow> if to_owner ob = Some h then None else Some ob | None \<Rightarrow> None)" for t
    using ps by (auto simp: pv_def invalida_de_def)
  have dn: "dono ?W h' = (if h' = h then Map.empty else dono w1 h')" for h'
    by (auto simp: dono_def de_def pv fun_eq_iff split: option.splits)
  have sd: "sem_dono ?W = sem_dono w1"
    by (auto simp: sem_dono_def de_def pv fun_eq_iff split: option.splits)
  show ?thesis
    by (rule that [OF d it]) (use dn sd in \<open>simp_all add: invalida_de_def\<close>)
qed

lemma filter_remove1_length: "length (filter P (remove1 x xs)) \<le> length (filter P xs)"
  by (induction xs) auto

lemma inv_destruido:
  assumes q: "inv_registro w" "\<forall>h'\<in>set (items w). h' \<noteq> h \<longrightarrow> objeto_ok h' w" "tarefas_ok w" "periodicas_ok w"
      "\<exists>h'\<in>set (items w). h' \<noteq> h \<and> classe_de w h' = CListener" "centrais_conectadas w \<le> limite cfg"
    and W: "inv_tempo W" "items W = remove1 h (items w)" "hobjs W = (hobjs w)(h := (hobjs w h)\<lparr>h_destroyed := True\<rparr>)"
      "\<And>h'. h' \<noteq> h \<Longrightarrow> dono W h' = dono w h'" "sem_dono W = sem_dono w" "dono W h = Map.empty"
      "trats W = trats w" "coms W = coms w" "conns W = conns w" "fotos W = fotos w" "prox W = prox w"
    and f: "fotos_ok W"
  shows "invar cfg W"
proof -
  have d: "distinct (items w)" using q(1) by (simp add: inv_registro_def)
  have it: "set (items W) = set (items w) - {h}" using d W(2) by simp
  have ob: "objeto_ok h' W" if "h' \<in> set (items W)" for h'
  proof -
    from that it have "h' \<in> set (items w)" "h' \<noteq> h" by auto
    with q(2) have "objeto_ok h' w" by simp
    with \<open>h' \<noteq> h\<close> show ?thesis using W(3,4,7-9) by (simp add: objeto_ok_def split: classe.splits)
  qed
  have own: "h' \<in> set (items W)" if "pv W t = Some ob" "to_owner ob = Some h'" for t ob h'
  proof -
    from that have "dono W h' t = Some ob" by (simp add: dono_Some)
    then have "h' \<noteq> h" "dono w h' t = Some ob" using W(4,6) by (cases "h' = h"; force)+
    with q(1) it show ?thesis by (auto simp: inv_registro_def dono_Some)
  qed
  have fd: "fd_de W h' = fd_de w h'" for h' using W(3) by simp
  have "inv_registro W"
    using q(1) it own W(3) W(11) unfolding inv_registro_def fd
    by (simp add: W(2) d inj_on_diff)
  moreover have "tarefas_ok W" "periodicas_ok W" using q(3,4) W(5,10) by (simp_all add: tarefas_ok_def periodicas_ok_def)
  moreover have "centrais_conectadas W \<le> limite cfg"
  proof -
    have "(\<lambda>x. classe_de W x = CTratador \<and> central_identificada (trats W x)) =
        (\<lambda>x. classe_de w x = CTratador \<and> central_identificada (trats w x))"
      using W(3,7) by (simp add: fun_eq_iff)
    with q(6) filter_remove1_length [of "\<lambda>x. classe_de w x = CTratador \<and> central_identificada (trats w x)" h "items w"]
    show ?thesis by (simp add: centrais_conectadas_def W(2))
  qed
  moreover have "\<exists>h'\<in>set (items W). classe_de W h' = CListener" using q(5) it W(3) by auto
  ultimately show ?thesis using W(1) ob f by (simp add: invar_def)
qed

lemma em_curso_destruido:
  assumes "items W = remove1 h (items w)" and "hobjs W = (hobjs w)(h := (hobjs w h)\<lparr>h_destroyed := True\<rparr>)"
  shows "em_curso W = remove1 h (em_curso w)"
proof -
  have "(\<lambda>x. classe_de W x = CComando) = (\<lambda>x. classe_de w x = CComando)"
    using assms(2) by (simp add: fun_eq_iff)
  then show ?thesis by (simp add: em_curso_def assms(1) filter_remove1)
qed

lemma destroi_trat:
  assumes "quase cfg h w" and "classe_de w h = CTratador"
  shows "\<exists>W. destroy cfg h w = Inr W \<and> invar cfg W"
proof -
  have q: "inv_tempo w" "inv_registro w" "h \<in> set (items w)" "fotos_ok w" using assms(1) by (simp_all add: quase_def)
  then have nd: "\<not> h_destroyed (hobjs w h)" by (simp add: inv_registro_def)
  have cb: "destroyed_callback cfg h w = Inr w" using assms(2) by (simp add: destroyed_callback_def)
  obtain W where W: "handler_destroy (destroyed_callback cfg) h w = Inr W" "inv_tempo W"
    "items W = remove1 h (items w)" "hobjs W = (hobjs w)(h := (hobjs w h)\<lparr>h_destroyed := True\<rparr>)"
    "\<And>h'. h' \<noteq> h \<Longrightarrow> dono W h' = dono w h'" "sem_dono W = sem_dono w" "dono W h = Map.empty"
    "trats W = trats w" "coms W = coms w" "conns W = conns w" "fotos W = fotos w" "prox W = prox w"
    "\<And>t. to_owner (tobjs w t) = None \<Longrightarrow> tobjs W t = tobjs w t"
    by (rule destroi [where dcb = "destroyed_callback cfg", OF nd cb q(3,1)]) blast
  have "h \<notin> set (em_curso w)" using assms(2) by (simp add: em_curso_def)
  then have em: "em_curso W = em_curso w" using em_curso_destruido [OF W(3,4)] by (simp add: remove1_idem)
  have "fotos_ok W"
    by (rule fotos_ok_frame [of W w]) (use W em q(4) in \<open>simp_all add: baixa_primeira_def\<close>)
  then have "invar cfg W"
    using assms(1) by (intro inv_destruido [of w h cfg W] W) (simp_all add: quase_def)
  with W(1) show ?thesis by (simp add: destroy_def)
qed

lemma proxima_fila_valida:
  "list_all foto_valida q \<Longrightarrow> list_all foto_valida (proxima_fila st q)"
  by (cases "(st, q)" rule: proxima_fila.cases) (auto simp: foto_valida_def)

lemma periodicas_upd:
  "periodicas_ok w \<Longrightarrow> sem_dono w t = None \<Longrightarrow> sem_dono w' = (sem_dono w)(t \<mapsto> ob) \<Longrightarrow> periodicas_ok w'"
  unfolding periodicas_ok_def by (metis arm_upd_novo)

lemma em_curso_um:
  assumes "quase cfg h w" and "classe_de w h = CComando"
  obtains t e resto where "task (fotos w) = Some t" and "sem_dono w t = None" and "em_curso w = [h]"
    and "fila (fotos w) = e # resto" and "t < prox w" and "to_owner (tobjs w t) = None"
    and "to_callback (tobjs w t) = CbFoto" and "\<not> to_invalid (tobjs w t)"
proof -
  have h: "h \<in> set (em_curso w)" using assms by (simp add: quase_def em_curso_def)
  have f: "fotos_ok w" using assms(1) by (simp add: quase_def)
  show ?thesis
  proof (cases "task (fotos w)")
    case None
    with f h show ?thesis by (simp add: fotos_ok_def)
  next
    case (Some t)
    with f h have "sem_dono w t = None" by (auto simp: fotos_ok_def split: if_splits)
    with f Some obtain x where "em_curso w = [x]" "baixa_primeira w x" by (auto simp: fotos_ok_def)
    with that [of t] f Some \<open>sem_dono w t = None\<close> h show ?thesis
      by (auto simp: fotos_ok_def baixa_primeira_def)
  qed
qed

lemma destroi_com:
  assumes "quase cfg h w" and "classe_de w h = CComando" and "sub (coms w h) = ObtemFotosDeEvento g"
  shows "\<exists>W t. destroy cfg h w = Inr W \<and> invar cfg W \<and> items W = remove1 h (items w) \<and>
    fila (fotos W) = proxima_fila (status (coms w h)) (fila (fotos w)) \<and>
    saidas W = saidas w @ avisa_arquivo cfg (status (coms w h)) (of_arquivo g) \<and>
    task (fotos W) = Some t \<and> task (fotos w) = Some t \<and> t \<in> set (pending W) \<and>
    to_absolute (tobjs W t) = agora w + to_relative (tobjs w t)"
proof -
  have q: "inv_tempo w" "inv_registro w" "h \<in> set (items w)" "fotos_ok w" using assms(1) by (simp_all add: quase_def)
  then have nd: "\<not> h_destroyed (hobjs w h)" by (simp add: inv_registro_def)
  obtain t e resto where t: "task (fotos w) = Some t" "sem_dono w t = None" "em_curso w = [h]"
    "fila (fotos w) = e # resto" "t < prox w" "to_owner (tobjs w t) = None"
    "to_callback (tobjs w t) = CbFoto" "\<not> to_invalid (tobjs w t)"
    by (rule em_curso_um [OF assms(1,2)])
  define w1 where "w1 = w\<lparr>saidas := saidas w @ avisa_arquivo cfg (status (coms w h)) (of_arquivo g),
      fotos := (fotos w)\<lparr>fila := proxima_fila (status (coms w h)) (e # resto)\<rparr>\<rparr>"
  let ?v = "arma t w1"
  let ?ob = "(tobjs w t)\<lparr>to_absolute := agora w + to_relative (tobjs w t)\<rparr>"
  have "restart t w1 = Inr ?v" using t(8) by (simp add: restart_eq w1_def)
  with resultado_foto_eq [OF t(4,1)] have cb: "destroyed_callback cfg h w = Inr ?v"
    using assms(2,3) by (simp add: destroyed_callback_def com_destroyed_callback_def w1_def)
  have sel: "trats ?v = trats w" "coms ?v = coms w" "conns ?v = conns w" "items ?v = items w" "hobjs ?v = hobjs w"
    "prox ?v = prox w" "fotos ?v = (fotos w)\<lparr>fila := proxima_fila (status (coms w h)) (e # resto)\<rparr>"
    "tobjs ?v = (tobjs w)(t := ?ob)" "saidas ?v = saidas w @ avisa_arquivo cfg (status (coms w h)) (of_arquivo g)"
    by (simp_all add: arma_def w1_def)
  have pvw: "pv w1 = pv w" by (rule pv_frame) (simp_all add: w1_def)
  have pv: "pv ?v = (pv w)(t \<mapsto> ?ob)" using pv_arma [of t w1] pvw by (simp add: w1_def)
  have "inv_tempo w1" using q(1) by (simp add: w1_def inv_tempo_def)
  then have it: "inv_tempo ?v" by (rule inv_tempo_arma) (use t in \<open>simp_all add: w1_def\<close>)
  have np: "t \<notin> set (pending w)" using t(2,6) by (auto simp: sem_dono_def de_def pv_def split: if_splits)
  then have fr: "pv w t = None" by (simp add: pv_None)
  have dn: "dono ?v h' = dono w h'" for h'
    using t(6) fr by (simp add: dono_def pv de_upd de_idem de_None)
  have sd: "sem_dono ?v = (sem_dono w)(t \<mapsto> ?ob)" using t(6) by (simp add: sem_dono_def pv de_upd)
  have ir: "inv_registro ?v" using q(2) t(6) by (auto simp: inv_registro_def sel pv)
  have ob: "\<forall>h'\<in>set (items ?v). h' \<noteq> h \<longrightarrow> objeto_ok h' ?v"
    using assms(1) objeto_ok_mesmo [of _ w ?v] by (simp add: quase_def sel dn mesmo_def)
  have tf: "tarefas_ok ?v" using assms(1) t by (auto simp: quase_def tarefas_ok_def sel sd)
  have pr: "periodicas_ok ?v" using assms(1) by (intro periodicas_upd [OF _ t(2) sd]) (simp add: quase_def)
  have li: "\<exists>h'\<in>set (items ?v). h' \<noteq> h \<and> classe_de ?v h' = CListener" using assms(1) by (simp add: quase_def sel)
  have ce: "centrais_conectadas ?v \<le> limite cfg" using assms(1) by (simp add: quase_def centrais_conectadas_def sel)
  have hv: "h \<in> set (items ?v)" using q(3) by (simp add: sel)
  obtain W where W: "handler_destroy (destroyed_callback cfg) h w = Inr W" "inv_tempo W"
    "items W = remove1 h (items ?v)" "hobjs W = (hobjs ?v)(h := (hobjs ?v h)\<lparr>h_destroyed := True\<rparr>)"
    "\<And>h'. h' \<noteq> h \<Longrightarrow> dono W h' = dono ?v h'" "sem_dono W = sem_dono ?v" "dono W h = Map.empty"
    "trats W = trats ?v" "coms W = coms ?v" "conns W = conns ?v" "fotos W = fotos ?v" "prox W = prox ?v"
    "\<And>t. to_owner (tobjs ?v t) = None \<Longrightarrow> tobjs W t = tobjs ?v t" "saidas W = saidas ?v"
    by (rule destroi [where dcb = "destroyed_callback cfg", OF nd cb hv it]) blast
  have "em_curso ?v = [h]" using t(3) by (simp add: em_curso_def sel)
  then have em: "em_curso W = []" using em_curso_destruido [OF W(3,4)] by simp
  have "list_all foto_valida (fila (fotos W))"
    using q(4) t(4) proxima_fila_valida [of "e # resto"] by (simp add: W(11) sel fotos_ok_def)
  moreover have "task (fotos W) = Some t" "sem_dono W t = Some ?ob" "tobjs W t = ?ob"
    using W(13) [of t] t(1,6) by (simp_all add: W(6,11) sel sd)
  note feita = this
  from calculation this have "fotos_ok W" using em t by (simp add: fotos_ok_def W(12) sel)
  then have "invar cfg W" by (intro inv_destruido [of ?v h cfg W] ir ob tf pr li ce W)
  moreover have "t \<in> set (pending W)" using feita(2) by (auto simp: sem_dono_def de_def pv_def split: if_splits)
  ultimately show ?thesis
    using W(1) feita(1,3) t(1,4) by (intro exI [of _ W] exI [of _ t]) (simp add: destroy_def W(3,11,14) sel)
qed

text \<open>An operation of a download, from a state where the invariant holds.\<close>

lemma termina_inv:
  assumes "invar cfg w" and "h \<in> set (items w)" and "classe_de w h = CComando" and "termina cfg h w m"
    and "\<not> a_open_ok (amb w) \<Longrightarrow> E OSErro"
  shows "res_sat E (invar cfg) m"
proof -
  consider w' where "meio cfg h w w'" "m = destroy cfg h w'" | w' where "segue cfg h w w'" "m = Inr w'"
    | "\<not> a_open_ok (amb w)" "m = Inl OSErro" using assms(4) by (auto simp: termina_def)
  then show ?thesis
  proof cases
    case 1
    have l: "local cfg h w w'" using 1(1) by (simp add: meio_def)
    with assms have "quase cfg h w'" by (intro quase_local) auto
    moreover have "classe_de w' h = CComando" using l assms(3) by (simp add: local_def)
    moreover obtain g where "sub (coms w' h) = ObtemFotosDeEvento g" using 1(1) by (auto simp: meio_def cok0_def)
    ultimately show ?thesis using destroi_com 1(2) by fastforce
  next
    case 2
    with segue_inv [OF assms(1-3)] show ?thesis by simp
  next
    case 3
    then show ?thesis using assms(5) by simp
  qed
qed

lemma inv_quase:
  "invar cfg w \<Longrightarrow> h \<in> set (items w) \<Longrightarrow> classe_de w h \<noteq> CListener \<Longrightarrow> quase cfg h w"
  by (rule quase_local) (auto intro: local_refl dest: inv_tempo_de)

lemma destroi_inv:
  assumes "invar cfg w" and "h \<in> set (items w)" and "classe_de w h = CTratador"
  shows "res_sat E (invar cfg) (destroy cfg h w)"
  using destroi_trat [OF inv_quase [OF assms(1,2)] assms(3)] assms(3) by fastforce

subsection \<open>Periodic tasks\<close>

lemma dispara_sem_dono:
  assumes "inv_tempo w" and "sem_dono w t = Some ob"
  shows "inv_tempo (disparado t w)" and "pv (disparado t w) = (pv w)(t := None)"
    and "dono (disparado t w) = dono w" and "sem_dono (disparado t w) = (sem_dono w)(t := None)"
proof -
  show "inv_tempo (disparado t w)" using assms(1) unfolding disparado_def by (rule inv_tempo_remove1)
  show pv: "pv (disparado t w) = (pv w)(t := None)" using assms(1) unfolding disparado_def by (rule pv_remove1)
  from assms(2) have t: "pv w t = Some ob" "to_owner ob = None" by (simp_all add: sem_dono_Some)
  show "dono (disparado t w) = dono w"
    using t by (simp add: dono_def pv de_del de_idem de_outro [of "pv w" t ob] fun_eq_iff)
  show "sem_dono (disparado t w) = (sem_dono w)(t := None)" by (simp add: sem_dono_def pv de_del)
qed

lemma rearma_periodica:
  assumes i: "invar cfg w" and "sem_dono w t = Some ob" and "periodica (to_callback ob)"
    and ob': "to_owner ob' = None" "to_callback ob' = to_callback ob" "\<not> to_invalid ob'"
    and W: "tobjs W = (tobjs w)(t := ob')" "set (pending W) = set (pending w)" "distinct (pending W)"
      "prox W = prox w" "trats W = trats w" "coms W = coms w" "conns W = conns w" "items W = items w"
      "hobjs W = hobjs w" "fotos W = fotos w"
  shows "invar cfg W"
proof -
  from assms(2) have t: "pv w t = Some ob" "to_owner ob = None" by (simp_all add: sem_dono_Some)
  then have tp: "t \<in> set (pending w)" "tobjs w t = ob" by (auto simp: pv_Some)
  have pv: "pv W = (pv w)(t \<mapsto> ob')" using tp W(1,2) by (auto simp: pv_def fun_eq_iff)
  have dn: "dono W h = dono w h" for h
    using t ob'(1) by (simp add: dono_def pv de_upd de_idem de_outro [of "pv w" t ob])
  have sd: "sem_dono W = (sem_dono w)(t \<mapsto> ob')" using ob'(1) by (simp add: sem_dono_def pv de_upd)
  have it: "inv_tempo W" using i tp W(1-4) ob'(3) by (auto simp: invar_def inv_tempo_def)
  have ir: "inv_registro W" using i W(4,8,9) ob'(1) by (auto simp: invar_def inv_registro_def pv)
  have obj: "objeto_ok h W \<longleftrightarrow> objeto_ok h w" for h
    using W dn by (intro objeto_ok_mesmo) (simp_all add: mesmo_def)
  have fo: "fotos_ok W"
  proof (cases "task (fotos w)")
    case None
    with i W show ?thesis by (simp add: invar_def fotos_ok_def em_curso_def)
  next
    case (Some u)
    with i have "to_callback (tobjs w u) = CbFoto" by (simp add: invar_def fotos_ok_def)
    with tp assms(3) have "u \<noteq> t" by (auto simp: periodica_def)
    moreover have "em_curso W = em_curso w" "baixa_primeira W = baixa_primeira w"
      by (simp_all add: em_curso_def baixa_primeira_def fun_eq_iff W)
    moreover have "fotos_ok w" using i by (simp add: invar_def)
    ultimately show ?thesis using Some W(1,4,10) sd by (simp add: fotos_ok_def)
  qed
  have ta: "tarefas_ok W" using i W(10) assms(2,3) ob'(2) by (auto simp: invar_def tarefas_ok_def sd periodica_def)
  have "arm (sem_dono W) u cb \<longleftrightarrow> arm (sem_dono w) u cb" for u cb
    using assms(2) ob'(2) by (auto simp: arm_def sd)
  then have pe: "periodicas_ok W" using i by (simp add: invar_def periodicas_ok_def)
  have "centrais_conectadas W = centrais_conectadas w" by (simp add: centrais_conectadas_def W)
  with i it ir obj fo ta pe W show ?thesis by (simp add: invar_def)
qed

lemma watchdog_inv:
  assumes "invar cfg w" and "sem_dono w t = Some ob" and "to_callback ob = CbWatchdog"
  shows "res_sat E (invar cfg) (watchdog cfg t (disparado t w))"
proof -
  let ?w = "emite (Popen (gancho_watchdog cfg)) (disparado t w)"
  let ?ob = "ob\<lparr>to_relative := 3600, to_absolute := agora w + 3600\<rparr>"
  have tp: "t \<in> set (pending w)" "tobjs w t = ob" "to_owner ob = None" "\<not> to_invalid ob" "distinct (pending w)"
    using assms(1,2) by (auto simp: sem_dono_Some pv_Some invar_def inv_tempo_def)
  let ?W = "arma t (?w\<lparr>tobjs := (tobjs ?w)(t := (tobjs ?w t)\<lparr>to_relative := 3600\<rparr>)\<rparr>)"
  have e: "reset t 3600 ?w = Inr ?W" using tp by (simp add: reset_eq)
  have "invar cfg ?W"
    by (rule rearma_periodica [OF assms(1,2), where ob' = ?ob])
      (use tp assms(3) in \<open>auto simp: arma_def periodica_def\<close>)
  with e show ?thesis by (simp add: watchdog_def)
qed

lemma central_nc_inv:
  assumes "invar cfg w" and "sem_dono w t = Some ob" and "to_callback ob = CbCentralNC"
  shows "res_sat E (invar cfg) (central_nao_conectada cfg t (disparado t w))"
proof -
  let ?ob = "ob\<lparr>to_absolute := agora w + to_relative ob\<rparr>"
  have tp: "t \<in> set (pending w)" "tobjs w t = ob" "to_owner ob = None" "\<not> to_invalid ob" "distinct (pending w)"
    using assms(1,2) by (auto simp: sem_dono_Some pv_Some invar_def inv_tempo_def)
  have p: "periodica (to_callback ob)" using assms(3) by (simp add: periodica_def)
  have r: "res_sat E (invar cfg) (restart t v)"
    if v: "tobjs v = tobjs w" "pending v = remove1 t (pending w)" "prox v = prox w" "trats v = trats w" "coms v = coms w"
      "conns v = conns w" "items v = items w" "hobjs v = hobjs w" "fotos v = fotos w" "agora v = agora w" for v
  proof -
    have "restart t v = Inr (arma t v)" using v tp by (simp add: restart_eq)
    moreover have "invar cfg (arma t v)"
      by (rule rearma_periodica [OF assms(1,2) p, where ob' = ?ob]) (use tp v in \<open>auto simp: arma_def\<close>)
    ultimately show ?thesis by simp
  qed
  show ?thesis unfolding central_nao_conectada_def Let_def by (rule r) simp_all
qed

subsection \<open>A new handler\<close>

lemma dono_vazio:
  assumes "inv_registro w" and "h \<notin> set (items w)"
  shows "dono w h = Map.empty"
proof
  show "dono w h t = None" for t
    using assms by (cases "dono w h t") (auto simp: dono_Some inv_registro_def)
qed

lemma novo_handler:
  assumes w: "inv_tempo w" "inv_registro w" "\<forall>h\<in>set (items w). objeto_ok h w"
      "\<exists>h\<in>set (items w). classe_de w h = CListener" "centrais_conectadas w \<le> limite cfg"
    and h: "h = Suc (prox w)"
    and W: "inv_tempo W" "items W = items w @ [h]" "hobjs W = (hobjs w)(h := ob)" "Suc h \<le> prox W"
      "\<And>h'. h' \<noteq> h \<Longrightarrow> dono W h' = dono w h' \<and> trats W h' = trats w h' \<and> coms W h' = coms w h' \<and> conns W h' = conns w h'"
    and ob: "h_fd ob = prox w" "\<not> h_destroyed ob"
    and n: "objeto_ok h W" "\<not> central_identificada (trats W h) \<or> h_classe ob \<noteq> CTratador"
      "fotos_ok W" "tarefas_ok W" "periodicas_ok W"
  shows "invar cfg W"
proof -
  have lt: "h' < prox w" "fd_de w h' < prox w" if "h' \<in> set (items w)" for h'
    using that w(2) by (auto simp: inv_registro_def)
  have fresco: "h \<notin> set (items w)" using lt(1) [of h] h by auto
  have obj: "objeto_ok h' W" if "h' \<in> set (items W)" for h'
  proof (cases "h' = h")
    case False
    with that W(2) have "h' \<in> set (items w)" by simp
    with w(3) have "objeto_ok h' w" by simp
    moreover have "dono W h' = dono w h'" "trats W h' = trats w h'" "coms W h' = coms w h'" "conns W h' = conns w h'"
      using W(5) False by simp_all
    moreover have "classe_de W h' = classe_de w h'" using W(3) False by simp
    ultimately show ?thesis by (cases "classe_de w h'") (simp_all add: objeto_ok_def)
  qed (use n(1) in simp)
  have own: "h' \<in> set (items W)" if "pv W t = Some x" "to_owner x = Some h'" for t x h'
  proof (cases "h' = h")
    case False
    with W(5) have "dono W h' = dono w h'" by simp
    with that have "dono w h' t = Some x" using dono_Some [of W h' t x] by simp
    with w(2) W(2) show ?thesis by (auto simp: dono_Some inv_registro_def)
  qed (use W(2) in simp)
  have "inj_on (fd_de W) (set (items w))"
    using w(2) W(3) fresco by (auto simp: inv_registro_def inj_on_def)
  moreover have "fd_de W h \<noteq> fd_de W h'" if "h' \<in> set (items w)" for h'
    using lt(2) [OF that] ob(1) W(3) fresco that by auto
  ultimately have "inj_on (fd_de W) (set (items W))" by (auto simp: W(2))
  then have "inv_registro W"
    using own w(2) W(2-4) ob lt fresco h unfolding inv_registro_def by fastforce
  moreover have "centrais_conectadas W \<le> limite cfg"
  proof -
    have "filter (\<lambda>x. classe_de W x = CTratador \<and> central_identificada (trats W x)) (items w) =
        filter (\<lambda>x. classe_de w x = CTratador \<and> central_identificada (trats w x)) (items w)"
      using fresco W(3,5) by (intro filter_cong) auto
    moreover have "\<not> (classe_de W h = CTratador \<and> central_identificada (trats W h))" using n(2) W(3) by auto
    ultimately show ?thesis using w(5) by (auto simp: centrais_conectadas_def W(2))
  qed
  moreover have "\<exists>h\<in>set (items W). classe_de W h = CListener" using w(4) W(2,3) fresco by fastforce
  ultimately show ?thesis using W(1) obj n(3-5) by (simp add: invar_def)
qed

lemma tratador_novo:
  assumes i: "invar cfg w"
  shows "res_sat E (invar cfg) (tratador_init cfg ip port w)"
proof -
  let ?h = "Suc (prox w)"
  let ?ob = "\<lparr>h_label = ip @ '':'' @ fmt_d port, h_fd = prox w, h_destroyed = False, h_classe = CTratador\<rparr>"
  define w1 where "w1 = snd (server_init ip port CTratador w)"
  have s: "server_init ip port CTratador w = (?h, w1)"
    by (simp add: w1_def server_init_def novo_socket_def handler_init_def Let_def)
  have sel: "items w1 = items w @ [?h]" "hobjs w1 = (hobjs w)(?h := ?ob)" "prox w1 = Suc ?h" "pending w1 = pending w"
    "tobjs w1 = tobjs w" "trats w1 = trats w" "coms w1 = coms w" "fotos w1 = fotos w"
    "conns w1 = (conns w)(?h := \<lparr>recv_buf = [], send_buf = [], connecting = False\<rparr>)"
    by (simp_all add: w1_def server_init_def novo_socket_def handler_init_def Let_def)
  have it: "inv_tempo w" and ir: "inv_registro w" using i by (simp_all add: invar_def)
  have it1: "inv_tempo w1" using it by (auto simp: inv_tempo_def sel)
  have pv1: "dono w1 = dono w" "sem_dono w1 = sem_dono w"
    using pv_iguais [OF sel(4,5)] by simp_all
  have nd: "\<not> h_destroyed (hobjs w1 ?h)" by (simp add: sel)
  have fresco: "?h \<notin> set (items w)" using ir by (auto simp: inv_registro_def)
  have vazio: "dono w ?h = Map.empty" using ir fresco by (rule dono_vazio)
  have em1: "em_curso w1 = em_curso w"
  proof -
    have "filter (\<lambda>x. classe_de w1 x = CComando) (items w) = filter (\<lambda>x. classe_de w x = CComando) (items w)"
      using fresco by (intro filter_cong) (auto simp: sel)
    then show ?thesis by (simp add: em_curso_def sel)
  qed
  have "fotos_ok w1"
    by (rule fotos_ok_frame [of w1 w]) (use em1 pv1 i in \<open>simp_all add: sel invar_def baixa_primeira_def\<close>)
  moreover have "tarefas_ok w1" "periodicas_ok w1"
    using i by (simp_all add: invar_def tarefas_ok_def periodicas_ok_def pv1 sel)
  moreover obtain o1 w2 where n1: "handler_timeout ?h ''ident'' 120 (CbIdent ?h) w1 = Inr (prox w1, w2)"
    "local cfg ?h w1 w2" "dono w2 ?h = (dono w1 ?h)(prox w1 \<mapsto> o1)" "to_callback o1 = CbIdent ?h"
    "trats w2 = trats w1" "conns w2 = conns w1" "coms w2 = coms w1"
    by (rule handler_timeout_dono [OF it1 nd, of "''ident''" 120 "CbIdent ?h" cfg])
  moreover have nd2: "\<not> h_destroyed (hobjs w2 ?h)" using n1(2) nd by (simp add: local_def)
  moreover obtain o2 w3 where n2: "handler_timeout ?h ''comm'' 600 (CbComm ?h) w2 = Inr (prox w2, w3)"
    "local cfg ?h w2 w3" "dono w3 ?h = (dono w2 ?h)(prox w2 \<mapsto> o2)" "to_callback o2 = CbComm ?h"
    "trats w3 = trats w2" "conns w3 = conns w2" "coms w3 = coms w2" "dono w2 ?h (prox w2) = None"
    by (rule handler_timeout_dono [OF local_inv_tempo [OF n1(2)] nd2, of "''comm''" 600 "CbComm ?h" cfg])
  moreover have l: "local cfg ?h w1 w3" by (rule local_trans [OF n1(2) n2(2)])
  ultimately have f3: "fotos_ok w3" "tarefas_ok w3" "periodicas_ok w3"
    using periodicas_local [OF _ l] by (simp_all add: local_def)
  let ?T = "\<lparr>backoff = backoff_minimo, ignorar = False, central_identificada = False, to_ident = Some (prox w1),
     to_comm = prox w2, to_processa = None, to_incompleta = None, to_backoff = None, ip_addr = ip\<rparr>"
  let ?W = "muda_trat ?h (\<lambda>_. ?T) w3"
  have dif: "prox w2 \<noteq> prox w1" using n2(8) n1(3) by auto
  have tk: "trat_ok ?h (?T\<lparr>ignorar := b\<rparr>) \<lparr>recv_buf = [], send_buf = [], connecting = False\<rparr> (dono w3 ?h)" for b
    using n1(3,4) n2(3,4) dif by (auto simp: trat_ok_def pv1 vazio arm_def intro!: exI [of _ 0])
  have fin: "invar cfg W"
    if W: "W = muda_trat ?h (\<lambda>t. t\<lparr>ignorar := b\<rparr>) ?W" for W b
  proof (rule novo_handler [OF it ir _ _ _ refl])
    show "\<forall>h\<in>set (items w). objeto_ok h w" "\<exists>h\<in>set (items w). classe_de w h = CListener"
      "centrais_conectadas w \<le> limite cfg" using i by (simp_all add: invar_def)
    have m: "mesmo h' w1 w3" if "h' \<noteq> ?h" for h' using l that by (simp add: local_def)
    show "inv_tempo W" using local_inv_tempo [OF l] by (simp add: W inv_tempo_def)
    show "items W = items w @ [?h]" "hobjs W = (hobjs w)(?h := ?ob)" "Suc ?h \<le> prox W"
      using l by (simp_all add: W local_def sel)
    show "dono W h' = dono w h' \<and> trats W h' = trats w h' \<and> coms W h' = coms w h' \<and> conns W h' = conns w h'"
      if "h' \<noteq> ?h" for h'
      using m [OF that] that by (simp add: W mesmo_def sel pv1)
    show "objeto_ok ?h W"
      using l tk [of b] n1(6) n2(6) by (simp add: W objeto_ok_def local_def sel trat_vivo_def)
    show "fotos_ok W"
      by (rule fotos_ok_frame [of W w3]) (use f3 in \<open>simp_all add: W em_curso_def baixa_primeira_def\<close>)
    show "tarefas_ok W" "periodicas_ok W" using f3 by (simp_all add: W tarefas_ok_def periodicas_ok_def)
  qed (simp_all add: W)
  have "?W = muda_trat ?h (\<lambda>t. t\<lparr>ignorar := False\<rparr>) ?W"
    by (simp add: muda_trat_def)
  from fin [OF this] fin [OF refl, of True] s n1(1) n2(1) show ?thesis
    by (simp add: tratador_init_def Let_def)
qed

subsection \<open>A new download\<close>

lemma dispara_foto:
  assumes i: "invar cfg w" and t: "sem_dono w t = Some ob" "to_callback ob = CbFoto"
  defines "w0 \<equiv> disparado t w"
  shows "inv_tempo w0" and "inv_registro w0" and "\<forall>h\<in>set (items w0). objeto_ok h w0"
    and "\<exists>h\<in>set (items w0). classe_de w0 h = CListener" and "centrais_conectadas w0 \<le> limite cfg"
    and "periodicas_ok w0" and "tarefas_ok w0" and "task (fotos w) = Some t" and "em_curso w0 = []" and "sem_dono w0 t = None"
    and "list_all foto_valida (fila (fotos w0))" and "t < prox w0 \<and> to_owner (tobjs w0 t) = None \<and>
      to_callback (tobjs w0 t) = CbFoto \<and> \<not> to_invalid (tobjs w0 t)"
    and "\<And>u x. sem_dono w0 u = Some x \<Longrightarrow> to_callback x \<noteq> CbFoto"
proof -
  have it: "inv_tempo w" and f: "fotos_ok w" and tf: "tarefas_ok w" using i by (simp_all add: invar_def)
  note d = dispara_sem_dono [OF it t(1), folded w0_def]
  show "inv_tempo w0" by (rule d(1))
  show "inv_registro w0" using i d(2) by (auto simp: invar_def inv_registro_def w0_def split: if_splits)
  have "objeto_ok h w0 = objeto_ok h w" for h
    using d(3) by (intro objeto_ok_mesmo) (simp_all add: mesmo_def w0_def)
  then show "\<forall>h\<in>set (items w0). objeto_ok h w0" using i by (simp add: invar_def w0_def)
  show "\<exists>h\<in>set (items w0). classe_de w0 h = CListener" using i by (simp add: invar_def w0_def)
  show "centrais_conectadas w0 \<le> limite cfg" using i by (simp add: invar_def w0_def centrais_conectadas_def)
  have "arm (sem_dono w0) u cb" if "arm (sem_dono w) u cb" "periodica cb" for u cb
    using that t d(4) by (auto simp: arm_def periodica_def)
  then show "periodicas_ok w0" using i by (auto simp: invar_def periodicas_ok_def periodica_def)
  show "tarefas_ok w0" using tf d(4) by (auto simp: tarefas_ok_def w0_def)
  show tk: "task (fotos w) = Some t" using tf t unfolding tarefas_ok_def by fastforce
  show "em_curso w0 = []" using f tk t(1) by (simp add: fotos_ok_def em_curso_def w0_def)
  show "sem_dono w0 t = None" using d(4) by simp
  show "list_all foto_valida (fila (fotos w0))" using f by (simp add: fotos_ok_def w0_def)
  show "t < prox w0 \<and> to_owner (tobjs w0 t) = None \<and> to_callback (tobjs w0 t) = CbFoto \<and> \<not> to_invalid (tobjs w0 t)"
    using f tk by (simp add: fotos_ok_def w0_def)
  show "to_callback x \<noteq> CbFoto" if "sem_dono w0 u = Some x" for u x
    using that tf tk d(4) unfolding tarefas_ok_def by (fastforce split: if_splits)
qed

lemma obtem_foto_inv:
  assumes i: "invar cfg w" and t: "sem_dono w t = Some ob" "to_callback ob = CbFoto"
    and cfg: "cfg_tam_senha cfg \<le> 6"
    and E: "a_connect (amb w) = ConnectErro \<Longrightarrow> E OSErro" "a_connect (amb w) = ConnectNome \<Longrightarrow> E TypeError"
      "\<not> porta_ok (cport cfg) \<Longrightarrow> E OverflowError"
  shows "res_sat E (invar cfg) (obtem_foto cfg (disparado t w))"
proof -
  let ?w = "disparado t w"
  note d = dispara_foto [OF i t]
  show ?thesis
  proof (cases "fila (fotos w)")
    case Nil
    let ?W = "muda_fotos (\<lambda>f. f\<lparr>task := None\<rparr>) ?w"
    have "objeto_ok h ?W = objeto_ok h ?w" for h by (intro objeto_ok_mesmo) (simp_all add: mesmo_def)
    moreover have "inv_tempo ?W" using d(1) by (simp add: inv_tempo_def)
    moreover have "inv_registro ?W" using d(2) pv_frame [of ?W ?w] by (simp add: inv_registro_def)
    moreover have "fotos_ok ?W" using Nil d(9) by (simp add: fotos_ok_def em_curso_def)
    moreover have "tarefas_ok ?W" using d(7,13) by (auto simp: tarefas_ok_def)
    moreover have "periodicas_ok ?W" using d(6) by (simp add: periodicas_ok_def)
    moreover have "centrais_conectadas ?W = centrais_conectadas ?w" by (simp add: centrais_conectadas_def)
    ultimately have "invar cfg ?W" using d(3-5) by (simp add: invar_def)
    with Nil show ?thesis by (simp add: obtem_foto_def)
  next
    case (Cons e resto)
    obtain ip i' n k where e: "e = (ip, i', n, k)" by (cases e) auto
    have v: "0 \<le> i'" "i' < 65536" "byte n" using d(11) Cons e by (simp_all add: foto_valida_def)
    show ?thesis
    proof (cases "a_connect (amb w) = ConnectErro \<or> a_connect (amb w) = ConnectNome \<or> \<not> porta_ok (cport cfg)")
      case True
      have "c_int (cport cfg) \<or> \<not> porta_ok (cport cfg)" by auto
      with True Cons e E show ?thesis
        by (auto simp: obtem_foto_def obtem_fotos_init_def comandar_init_def client_init_def novo_socket_def
            handler_init_def Let_def split: connect_res.split)
    next
      case False
      let ?h = "Suc (prox w)"
      let ?ip = "if caddr cfg \<noteq> ''auto'' then caddr cfg else ip"
      define w1 where "w1 = muda_conn ?h (\<lambda>c. \<lparr>recv_buf = [], send_buf = [], connecting = True\<rparr>)
         (snd (handler_init (''client '' @ ?ip @ '':'' @ fmt_d (cport cfg)) (prox w) CComando (snd (novo_socket ?w))))"
      let ?ob = "\<lparr>h_label = ''client '' @ ?ip @ '':'' @ fmt_d (cport cfg), h_fd = prox w, h_destroyed = False, h_classe = CComando\<rparr>"
      have c: "client_init ?ip (cport cfg) CComando ?w = Inr (?h, w1)"
        using False by (cases "a_connect (amb w)")
          (simp_all add: w1_def client_init_def novo_socket_def handler_init_def Let_def)
      have sel: "items w1 = items w @ [?h]" "hobjs w1 = (hobjs w)(?h := ?ob)" "prox w1 = Suc ?h"
        "pending w1 = pending ?w" "tobjs w1 = tobjs w" "trats w1 = trats w" "coms w1 = coms w" "fotos w1 = fotos w"
        "conns w1 = (conns w)(?h := \<lparr>recv_buf = [], send_buf = [], connecting = True\<rparr>)"
        by (simp_all add: w1_def novo_socket_def handler_init_def Let_def)
      have it1: "inv_tempo w1" using d(1) by (auto simp: inv_tempo_def sel)
      have pv1: "dono w1 = dono ?w" "sem_dono w1 = sem_dono ?w"
        using pv_iguais [of w1 ?w] sel(4,5) by simp_all
      have nd: "\<not> h_destroyed (hobjs w1 ?h)" by (simp add: sel)
      have "?h \<notin> set (items w)" using d(2) by (auto simp: inv_registro_def)
      then have vazio: "dono ?w ?h = Map.empty" using d(2) by (intro dono_vazio) simp_all
      have cur: "filter (\<lambda>x. classe_de w1 x = CComando) (items w) = []"
        using d(9) \<open>?h \<notin> set (items w)\<close> by (auto simp: em_curso_def sel filter_empty_conv)
      obtain o1 w2 where n1: "handler_timeout ?h ''conn_timeout'' 15 (CbConn ?h) w1 = Inr (prox w1, w2)"
        "local cfg ?h w1 w2" "dono w2 ?h = (dono w1 ?h)(prox w1 \<mapsto> o1)" "to_callback o1 = CbConn ?h"
        "trats w2 = trats w1" "conns w2 = conns w1" "coms w2 = coms w1" "fotos w2 = fotos w1"
        "sem_dono w2 = sem_dono w1" "\<And>u. u < prox w1 \<Longrightarrow> tobjs w2 u = tobjs w1 u"
        by (rule handler_timeout_dono [OF it1 nd, of "''conn_timeout''" 15 "CbConn ?h" cfg]) blast
      let ?g = "\<lparr>of_indice = i', of_nrfoto = n, of_arquivo = [], of_folder = folder_dlfoto cfg,
           fragmento_corrente = 0, jpeg_corrente = []\<rparr>"
      let ?C = "\<lparr>observer = True, conn_timeout = prox w1, senha = cfg_senha cfg, tam_senha = cfg_tam_senha cfg,
           status = 2, tratador_fase = SemTratador, cmd_enviado = 0, sub = ObtemFotosDeEvento ?g\<rparr>"
      define W where "W = muda_com ?h (\<lambda>_. ?C) w2"
      have "obtem_foto cfg ?w = Inr W"
        using c n1(1) Cons e
        by (simp add: obtem_foto_def obtem_fotos_init_def comandar_init_def Let_def W_def muda_com_def)
      moreover have "invar cfg W"
      proof (rule novo_handler [OF d(1-5)])
        show "?h = Suc (prox ?w)" by simp
        show "inv_tempo W" using local_inv_tempo [OF n1(2)] by (simp add: W_def inv_tempo_def)
        show "items W = items ?w @ [?h]" "hobjs W = (hobjs ?w)(?h := ?ob)" "Suc ?h \<le> prox W"
          using n1(2) by (simp_all add: W_def local_def sel)
        have m: "mesmo h' w1 w2" if "h' \<noteq> ?h" for h' using n1(2) that by (simp add: local_def)
        show "dono W h' = dono ?w h' \<and> trats W h' = trats ?w h' \<and> coms W h' = coms ?w h' \<and> conns W h' = conns ?w h'"
          if "h' \<noteq> ?h" for h'
          using m [OF that] that by (simp add: W_def mesmo_def sel pv1)
        have "com_ok ?h ?C \<lparr>recv_buf = [], send_buf = [], connecting = True\<rparr> (dono w2 ?h)"
          using n1(3,4) v cfg by (auto simp: com_ok_def pv1 vazio arm_def obtencao_ok_def)
        then show "objeto_ok ?h W" using n1(2,6) by (simp add: W_def objeto_ok_def local_def sel)
        show "fotos_ok W"
        proof -
          have lt: "t < prox w1" using d(12) by (simp add: sel)
          have "em_curso W = [?h]" using n1(2) cur by (simp add: W_def em_curso_def local_def sel)
          moreover have "baixa_primeira W ?h" using Cons e by (simp add: W_def baixa_primeira_def n1(8) sel)
          moreover have "tobjs W t = tobjs w t" using n1(10) [OF lt] by (simp add: W_def sel)
          moreover have "sem_dono W t = None" using d(10) by (simp add: W_def n1(9) pv1)
          moreover have "prox w1 \<le> prox W" using n1(2) by (simp add: W_def local_def)
          moreover have "fotos W = fotos w" by (simp add: W_def n1(8) sel)
          ultimately show ?thesis using d(8,11,12) lt by (simp add: fotos_ok_def)
        qed
        show "tarefas_ok W" using d(7) by (simp add: W_def tarefas_ok_def n1(8,9) sel pv1)
        show "periodicas_ok W" using d(6) by (simp add: W_def periodicas_ok_def n1(9) pv1)
      qed (simp_all)
      ultimately show ?thesis by simp
    qed
  qed
qed

subsection \<open>Every cycle\<close>

definition excecao_conhecida :: "config \<Rightarrow> ambiente \<Rightarrow> excecao \<Rightarrow> bool" where
  "excecao_conhecida cfg a e \<longleftrightarrow>
    e = IndexError \<or>
    e = OSErro \<and> (a_connect a = ConnectErro \<or> \<not> a_open_ok a) \<or>
    e = TypeError \<and> a_connect a = ConnectNome \<or>
    e = OverflowError \<and> \<not> porta_ok (cport cfg)"

lemma casos_inv:
  assumes "invar cfg w" and "h \<in> set (items w)" and "classe_de w h = CTratador"
    and "m = destroy cfg h w \<or> res_sat E (pronto cfg h w) m"
  shows "res_sat E (invar cfg) m"
  using assms(4)
proof
  assume "m = destroy cfg h w"
  then show ?thesis using destroi_inv [OF assms(1-3)] by simp
next
  assume "res_sat E (pronto cfg h w) m"
  then show ?thesis by (rule res_sat_mono) (use pronto_inv [OF assms(1-3)] in auto)
qed

lemma metodo_read_inv:
  assumes "invar cfg w" and "h \<in> set (items w)" and "recv_valido (a_recv (amb w))"
  shows "res_sat (excecao_conhecida cfg (amb w)) (invar cfg) (m_read_callback (metodos_mundo cfg) h w)"
proof (cases "classe_de w h")
  case CListener
  then show ?thesis using tratador_novo [OF assms(1)] assms(1)
    by (simp add: metodos_mundo_def listener_read_callback_def split: accept_res.split)
next
  case CTratador
  with inv_tok [OF assms(1,2)] have "tok h w" by simp
  from casos_inv [OF assms(1,2) CTratador trat_read_casos [OF this assms(3)]] CTratador
  show ?thesis by (simp add: metodos_mundo_def)
next
  case CComando
  with termina_inv [OF assms(1,2) _ termina_read [OF inv_cok [OF assms(1,2)] assms(3)]] CComando
  show ?thesis by (simp add: metodos_mundo_def excecao_conhecida_def)
qed

lemma metodo_write_inv:
  assumes "invar cfg w" and "h \<in> set (items w)"
  shows "res_sat (excecao_conhecida cfg (amb w)) (invar cfg) (m_write_callback (metodos_mundo cfg) h w)"
proof (cases "classe_de w h")
  case CListener
  then show ?thesis using assms(1) by (simp add: metodos_mundo_def)
next
  case CTratador
  with inv_tok [OF assms] have "tok h w" "trat_vivo (trats w h) (conns w h)" by simp_all
  from casos_inv [OF assms CTratador trat_send_casos [OF this]] CTratador
  show ?thesis by (simp add: metodos_mundo_def)
next
  case CComando
  with termina_inv [OF assms _ termina_write [OF inv_cok [OF assms]]] CComando
  show ?thesis by (simp add: metodos_mundo_def excecao_conhecida_def)
qed

text \<open>The owner of a pending timeout tells which callback it has.\<close>

lemma pendente_casos:
  assumes "invar cfg w" and "pv w t = Some ob"
  obtains h where "to_owner ob = Some h" and "h \<in> set (items w)" and "classe_de w h = CTratador" and "dono w h t = Some ob"
    and "to_callback ob = CbComm h \<or> to_callback ob = CbIdent h \<or>
      (to_callback ob = CbProcMsg h \<and> to_processa (trats w h) = Some t) \<or>
      to_callback ob = CbMsgIncompleta h \<or>
      (to_callback ob = CbRecuarBackoff h \<and> to_backoff (trats w h) = Some t)"
  | h where "to_owner ob = Some h" and "h \<in> set (items w)" and "classe_de w h = CComando" and "dono w h t = Some ob"
    and "to_callback ob = CbConn h" and "t = conn_timeout (coms w h)"
  | "sem_dono w t = Some ob" and "to_callback ob = CbFoto"
  | "sem_dono w t = Some ob" and "to_callback ob = CbWatchdog"
  | "sem_dono w t = Some ob" and "to_callback ob = CbCentralNC"
proof (cases "to_owner ob")
  case None
  with assms have "sem_dono w t = Some ob" "tarefas_ok w" by (simp_all add: sem_dono_Some invar_def)
  with that(3-5) show thesis unfolding tarefas_ok_def by blast
next
  case (Some h)
  with assms have h: "h \<in> set (items w)" "dono w h t = Some ob" by (auto simp: invar_def inv_registro_def dono_Some)
  have obj: "objeto_ok h w" using assms(1) h(1) by (simp add: invar_def)
  show thesis
  proof (cases "classe_de w h")
    case CListener
    with obj h(2) show thesis by (simp add: objeto_ok_def)
  next
    case CTratador
    with obj have "trat_ok h (trats w h) (conns w h) (dono w h)" by (simp add: objeto_ok_def)
    with h(2) have "to_callback ob = CbComm h \<or> to_callback ob = CbIdent h \<or>
      (to_callback ob = CbProcMsg h \<and> to_processa (trats w h) = Some t) \<or>
      to_callback ob = CbMsgIncompleta h \<or>
      (to_callback ob = CbRecuarBackoff h \<and> to_backoff (trats w h) = Some t)"
      unfolding trat_ok_def by blast
    with that(1) Some h CTratador show thesis by blast
  next
    case CComando
    with obj have "com_ok h (coms w h) (conns w h) (dono w h)" by (simp add: objeto_ok_def)
    with h(2) have "to_callback ob = CbConn h \<and> t = conn_timeout (coms w h)" unfolding com_ok_def by blast
    with that(2) Some h CComando show thesis by blast
  qed
qed

lemma metodo_timeout_inv:
  assumes i: "invar cfg w" and "t \<in> set (pending w)" and cfg: "cfg_tam_senha cfg \<le> 6"
  shows "res_sat (excecao_conhecida cfg (amb w)) (invar cfg)
    (chama_timeout cfg (to_callback (tobjs w t)) t (disparado t w))"
proof -
  have pv: "pv w t = Some (tobjs w t)" using assms(2) by (simp add: pv_Some)
  let ?E = "excecao_conhecida cfg (amb w)"
  have E: "\<not> a_open_ok (amb w) \<Longrightarrow> ?E OSErro" "?E IndexError" "a_connect (amb w) = ConnectErro \<Longrightarrow> ?E OSErro"
    "a_connect (amb w) = ConnectNome \<Longrightarrow> ?E TypeError" "\<not> porta_ok (cport cfg) \<Longrightarrow> ?E OverflowError"
    by (simp_all add: excecao_conhecida_def)
  from pendente_casos [OF i pv] show ?thesis
  proof cases
    case (1 h)
    have tk: "tok h w" "trat_vivo (trats w h) (conns w h)" using inv_tok [OF i 1(2,3)] by simp_all
    note f = dispara_dono [OF inv_tempo_de [OF i] 1(4), of cfg]
    have "quase cfg h (disparado t w)" using i 1(2,3) f by (intro quase_local) auto
    moreover have "classe_de (disparado t w) h = CTratador" using 1(3) by simp
    ultimately have d: "res_sat (excecao_conhecida cfg (amb w)) (invar cfg) (destroy cfg h (disparado t w))"
      using destroi_trat by fastforce
    have p: "res_sat (excecao_conhecida cfg (amb w)) (invar cfg) m" if "res_sat (excecao_conhecida cfg (amb w)) (pronto cfg h w) m" for m
      using casos_inv [OF i 1(2,3)] that by blast
    from 1(5) show ?thesis
      using d p [OF pronto_processar [where E = "excecao_conhecida cfg (amb w)", OF tk(1) inv_distinct [OF i] _ E(2)]] p [OF pronto_recuar [OF tk]]
      by (auto simp: chama_timeout_def timeout_comunicacao_def timeout_identificacao_def timeout_msgincompleta_def)
  next
    case (2 h)
    from termina_inv [where E = "excecao_conhecida cfg (amb w)", OF i 2(2,3) termina_conn_timeout [OF inv_cok [OF i 2(2,3)]] E(1)] 2(5,6)
    show ?thesis by (simp add: chama_timeout_def)
  next
    case 3
    from obtem_foto_inv [where E = "excecao_conhecida cfg (amb w)", OF i 3 cfg E(3-5)] 3 show ?thesis by (simp add: chama_timeout_def)
  next
    case 4
    from watchdog_inv [OF i 4] 4 show ?thesis by (simp add: chama_timeout_def)
  next
    case 5
    from central_nc_inv [OF i 5] 5 show ?thesis by (simp add: chama_timeout_def)
  qed
qed

lemma invar_ambiente: "invar cfg w \<Longrightarrow> invar cfg (w\<lparr>agora := t, amb := a\<rparr>)"
proof -
  let ?W = "w\<lparr>agora := t, amb := a\<rparr>"
  assume i: "invar cfg w"
  have pv: "pv ?W = pv w" by (rule pv_frame) simp_all
  have dn: "dono ?W = dono w" "sem_dono ?W = sem_dono w" using pv_iguais [of ?W w] by simp_all
  have "objeto_ok h ?W = objeto_ok h w" for h by (intro objeto_ok_mesmo) (simp_all add: mesmo_def dn)
  moreover have "inv_tempo ?W" using i by (simp add: invar_def inv_tempo_def)
  moreover have "inv_registro ?W" using i by (simp add: invar_def inv_registro_def pv)
  moreover have "fotos_ok ?W"
    by (rule fotos_ok_frame [of ?W w]) (use i dn in \<open>simp_all add: invar_def em_curso_def baixa_primeira_def\<close>)
  moreover have "tarefas_ok ?W" "periodicas_ok ?W" using i dn by (simp_all add: invar_def tarefas_ok_def periodicas_ok_def)
  moreover have "centrais_conectadas ?W = centrais_conectadas w" by (simp add: centrais_conectadas_def)
  ultimately show ?thesis using i by (simp add: invar_def)
qed

interpretation receptor: laco "metodos_mundo cfg" "\<lambda>w. invar cfg w \<and> cfg_tam_senha cfg \<le> 6"
    "\<lambda>_ _ w'. invar cfg w'" "excecao_conhecida cfg" "\<lambda>w. recv_valido (a_recv (amb w))" for cfg
proof
  fix w :: mundo and h t a b
  assume i: "invar cfg w \<and> cfg_tam_senha cfg \<le> 6"
  then show "inj_on (fd_de w) (set (items w))" by (simp add: invar_def inv_registro_def)
  show "invar cfg (w\<lparr>agora := a, amb := b\<rparr>) \<and> cfg_tam_senha cfg \<le> 6" using i invar_ambiente by blast
  show "invar cfg w" using i by simp
  show "res_sat (excecao_conhecida cfg (amb w)) (invar cfg) (m_read_callback (metodos_mundo cfg) h w)"
    if "h \<in> set (items w)" "recv_valido (a_recv (amb w))"
    using metodo_read_inv that i by blast
  show "res_sat (excecao_conhecida cfg (amb w)) (invar cfg) (m_write_callback (metodos_mundo cfg) h w)"
    if "h \<in> set (items w)"
    using metodo_write_inv that i by blast
  show "res_sat (excecao_conhecida cfg (amb w)) (invar cfg) (m_exceptional_callback (metodos_mundo cfg) h w)"
    if "h \<in> set (items w)" "is_exceptional (metodos_mundo cfg) h w"
    using that(2) by (simp add: metodos_mundo_def handler_is_exceptional_def)
  show "res_sat (excecao_conhecida cfg (amb w)) (invar cfg)
      (m_timeout (metodos_mundo cfg) (to_callback (tobjs w t)) t (w\<lparr>pending := remove1 t (pending w)\<rparr>))"
    if "t \<in> set (pending w)"
    using metodo_timeout_inv [of cfg w t] that i by (simp add: metodos_mundo_def disparado_def)
qed

text \<open>The listener is always selected for reading, so no cycle finds the receiver without tasks.\<close>

lemma invar_continua: "invar cfg w \<Longrightarrow> \<not> sem_tarefas (metodos_mundo cfg) w"
proof -
  assume "invar cfg w"
  then obtain h where "h \<in> set (items w)" "classe_de w h = CListener" by (auto simp: invar_def)
  then have "h \<in> set (filter (\<lambda>h. is_readable (metodos_mundo cfg) h w) (items w))"
    by (simp add: metodos_mundo_def handler_is_readable_def)
  then have "readable_fds (metodos_mundo cfg) w \<noteq> []" by (auto simp: readable_fds_def filter_empty_conv)
  then show ?thesis by (simp add: sem_tarefas_def)
qed

lemma ciclo_inv:
  assumes "invar cfg w" and "cfg_tam_senha cfg \<le> 6" and "resposta_valida cfg r w"
  shows "res_sat (excecao_conhecida cfg (r_amb r)) (\<lambda>(b, w'). b \<and> invar cfg w') (ciclo cfg r w)"
  by (rule receptor.ciclo_preserva)
    (use assms invar_continua in \<open>simp_all add: resposta_valida_def metodos_mundo_def handler_is_exceptional_def\<close>)

subsection \<open>Start-up\<close>

lemma invar_inicio: "invar cfg (receptor_init t0 a)"
proof -
  let ?w = "receptor_init t0 a"
  have e: "items ?w = [2]" "h_classe (hobjs ?w 2) = CListener" "\<not> h_destroyed (hobjs ?w 2)" "fd_de ?w 2 = 1"
    "pending ?w = [0, 3]" "prox ?w = 4" "fotos ?w = fotos_init"
    "to_callback (tobjs ?w 0) = CbWatchdog" "to_callback (tobjs ?w 3) = CbCentralNC"
    "to_owner (tobjs ?w 0) = None" "to_owner (tobjs ?w 3) = None"
    "\<not> to_invalid (tobjs ?w 0)" "\<not> to_invalid (tobjs ?w 3)"
    by (simp_all add: receptor_init_def mundo_vazio_def timeout_new_eq listener_init_def novo_socket_def
        handler_init_def Let_def)
  have pv: "pv ?w t = Some ob \<longleftrightarrow> (t = 0 \<or> t = 3) \<and> ob = tobjs ?w t" for t ob
    by (auto simp: pv_Some e)
  have "dono ?w 2 = Map.empty"
  proof
    fix t
    have "dono ?w 2 t \<noteq> Some ob" for ob using pv [of t ob] e(10,11) by (auto simp: dono_Some)
    then show "dono ?w 2 t = None" by (metis not_Some_eq)
  qed
  moreover have "inv_tempo ?w" by (simp add: inv_tempo_def e)
  moreover have "inv_registro ?w" using pv by (auto simp: inv_registro_def e)
  moreover have "fotos_ok ?w" by (simp add: fotos_ok_def em_curso_def e fotos_init_def)
  moreover have "tarefas_ok ?w" using pv by (auto simp: tarefas_ok_def sem_dono_Some e)
  moreover have "periodicas_ok ?w" using pv by (auto simp: periodicas_ok_def arm_def sem_dono_Some e)
  moreover have "centrais_conectadas ?w \<le> limite cfg" by (simp add: centrais_conectadas_def limite_def e)
  ultimately show ?thesis by (simp add: invar_def objeto_ok_def e)
qed

lemma alcancavel_inv:
  assumes "alcancavel cfg w" and "cfg_tam_senha cfg \<le> 6"
  shows "invar cfg w"
  using assms(1)
proof induction
  case (inicio t0 a)
  show ?case by (rule invar_inicio)
next
  case (avanco w r w')
  from avanco.hyps(2) have "resposta_valida cfg r w" "ciclo cfg r w = Inr (True, w')"
    by (auto elim: passo_elim)
  with ciclo_inv [OF avanco.IH assms(2)] show ?case by fastforce
qed

end
