(* ===== verification/Recepcao.thy ===== *)
theory Recepcao
  imports InvMundo
begin

text \<open>
  What the receiver does with the octets of a panel: how the buffer is cut into frames
  (\<^verbatim>\<open>consome_frame_curto\<close> and \<^verbatim>\<open>consome_frame_longo\<close> of \<^verbatim>\<open>alarmeitbl/tratador.py\<close>), what each
  message is answered with and what an event reports.
\<close>

subsection \<open>Frames\<close>

text \<open>The length of the frame that the next \<^verbatim>\<open>consome_msg\<close> takes from the buffer, or 0.\<close>

definition tam_frame :: "int list \<Rightarrow> nat" where
  "tam_frame b =
    (case b of [] \<Rightarrow> 0
     | c # _ \<Rightarrow> if c = 0xf7 then 1
                 else if length b < 2 \<or> int (length b) < c + 2 then 0 else nat (c + 2))"

text \<open>
  What a panel sends: the heartbeat octet, or a long frame around a message. The last octet of a long
  frame is its checksum, but panels put other values there and the receiver accepts any.
\<close>

datatype mensagem = Curta | Longa "int list" int

fun cod_mensagem :: "mensagem \<Rightarrow> int list" where
  "cod_mensagem Curta = [0xf7]"
| "cod_mensagem (Longa d c) = int (length d) # d @ [c]"

definition le_frame :: "int list \<Rightarrow> mensagem res" where
  "le_frame f = (if f = [0xf7] then Inr Curta else Inr (Longa (butlast (tl f)) (last f)))"

text \<open>A message of 247 octets would begin with the heartbeat octet.\<close>

fun mensagem_valida :: "mensagem \<Rightarrow> bool" where
  "mensagem_valida Curta = True"
| "mensagem_valida (Longa d c) \<longleftrightarrow> bytes d \<and> byte c \<and> length d < 256 \<and> length d \<noteq> 247"

lemma enquadrar_eq: "enquadrar d = cod_mensagem (Longa d (checksum (int (length d) # d)))"
  by (simp add: enquadrar_def Let_def)

interpretation trat: codec_fluxo cod_mensagem le_frame mensagem_valida tam_frame
proof
  fix x
  show "mensagem_valida x \<Longrightarrow> le_frame (cod_mensagem x) = Inr x"
    by (cases x) (auto simp: le_frame_def)
  show "mensagem_valida x \<Longrightarrow> bytes (cod_mensagem x)"
    by (cases x) (auto simp: byte_def)
  show "mensagem_valida x \<Longrightarrow> tam_frame (cod_mensagem x) = length (cod_mensagem x)"
    by (cases x) (auto simp: tam_frame_def)
  show "mensagem_valida x \<Longrightarrow> cod_mensagem x \<noteq> []"
    by (cases x) auto
next
  fix b c :: "int list"
  show "tam_frame b \<le> length b" by (cases b) (auto simp: tam_frame_def)
  show "0 < tam_frame b \<Longrightarrow> tam_frame (b @ c) = tam_frame b"
    by (cases b) (auto simp: tam_frame_def split: if_splits)
qed

subsection \<open>What the handlers leave alone\<close>

lemma envia_curto_ok [simp]: "envia_curto h [0xfe] w = Inr (tcp_send h [0xfe] w)"
  by (simp add: envia_curto_def envia_def)

lemma tcp_send_sel [simp]:
  "conns (tcp_send h d w) = (conns w)(h := (conns w h)\<lparr>send_buf := send_buf (conns w h) @ d\<rparr>)"
  "trats (tcp_send h d w) = trats w" "fotos (tcp_send h d w) = fotos w" "saidas (tcp_send h d w) = saidas w"
  "amb (tcp_send h d w) = amb w"
  by (simp_all add: tcp_send_def)

lemma poe_recv_buf_sel [simp]:
  "conns (poe_recv_buf h b w) = (conns w)(h := (conns w h)\<lparr>recv_buf := b\<rparr>)"
  "trats (poe_recv_buf h b w) = trats w" "fotos (poe_recv_buf h b w) = fotos w"
  "saidas (poe_recv_buf h b w) = saidas w" "amb (poe_recv_buf h b w) = amb w" "items (poe_recv_buf h b w) = items w"
  by (simp_all add: poe_recv_buf_def)

lemma enfileirar_sel [simp]:
  "conns (enfileirar cfg ip i n w) = conns w" "trats (enfileirar cfg ip i n w) = trats w"
  "saidas (enfileirar cfg ip i n w) = saidas w" "amb (enfileirar cfg ip i n w) = amb w"
  "fila (fotos (enfileirar cfg ip i n w)) =
    fila (fotos w) @ (if cfg_tam_senha cfg \<le> 0 then [] else [(ip, i, n, 10)])"
  by (simp_all add: enfileirar_def timeout_new_eq Let_def)

lemma enfileira_fotos_sel [simp]:
  "conns (enfileira_fotos cfg ip i ns w) = conns w" "trats (enfileira_fotos cfg ip i ns w) = trats w"
  "saidas (enfileira_fotos cfg ip i ns w) = saidas w" "amb (enfileira_fotos cfg ip i ns w) = amb w"
  "fila (fotos (enfileira_fotos cfg ip i ns w)) =
    fila (fotos w) @ (if cfg_tam_senha cfg \<le> 0 then [] else map (\<lambda>n. (ip, i, int n, 10)) ns)"
  by (induction ns arbitrary: w) simp_all

subsection \<open>The answer to each message\<close>

text \<open>The eight octets that answer a request for date and time, unframed.\<close>

definition dados_data_hora :: "data_hora \<Rightarrow> int list" where
  "dados_data_hora d =
    [0x80, bcd (ano d - 2000), bcd (mes d), bcd (dia d), bcd ((dia_semana d + 1) mod 7),
     bcd (hora d), bcd (minuto d), bcd (segundo d)]"

lemma solicita_eq:
  "solicita_data_hora h msg w = Inr (tcp_send h (enquadrar (dados_data_hora (a_data_hora (amb w)))) w)"
  using bytes_enquadrar [of "dados_data_hora (a_data_hora (amb w))"]
  by (simp add: solicita_data_hora_def envia_longo_def envia_def dados_data_hora_def Let_def)

text \<open>The texts passed to the message hook for an event.\<close>

definition textos_evento :: "evento \<Rightarrow> bool \<Rightarrow> string list" where
  "textos_evento e com_foto =
    (case scodigo (ev_tipo_msg e) (ev_codigo e) (ev_qualificador e) of
       None \<Rightarrow> [msg_desconhecido e]
     | Some s \<Rightarrow>
         (case formatar (ev_zona e) (ev_particao e) s of Inl _ \<Rightarrow> [] | Inr d \<Rightarrow> [d]) @
         [if com_foto then ''(com fotos, i='' @ fmt_d (ev_indice e) @ '' n='' @ fmt_d (ev_nr_fotos e) @ '')'' else []])"

definition comandos_evento :: "config \<Rightarrow> data_hora \<Rightarrow> evento \<Rightarrow> bool \<Rightarrow> saida list" where
  "comandos_evento cfg d e com_foto =
    [Popen (gancho_ev cfg @ '' '' @ fmt_d (ev_codigo e) @ '' '' @ fmt_d (ev_particao e) @ '' '' @
       fmt_d (ev_zona e) @ '' '' @ fmt_d (ev_qualificador e)),
     Popen (gancho_msg cfg @ '' '' @ shlex_quote (log_texto (data_hora_str d) (textos_evento e com_foto)))]"

definition fotos_evento :: "config \<Rightarrow> string \<Rightarrow> evento \<Rightarrow> bool \<Rightarrow> foto list" where
  "fotos_evento cfg ip e com_foto =
    (if com_foto \<and> scodigo (ev_tipo_msg e) (ev_codigo e) (ev_qualificador e) \<noteq> None \<and> 0 < cfg_tam_senha cfg
     then map (\<lambda>n. (ip, ev_indice e, int n, 10)) [0..<nat (ev_nr_fotos e)] else [])"

lemma relata_eq:
  obtains w' where "relata_evento cfg h e com_foto w = Inr w'"
    and "saidas w' = saidas w @ [Popen (gancho_msg cfg @ '' '' @
           shlex_quote (log_texto (data_hora_str (a_data_hora (amb w))) (textos_evento e com_foto)))]"
    and "fila (fotos w') = fila (fotos w) @ fotos_evento cfg (ip_addr (trats w h)) e com_foto"
    and "conns w' = conns w" and "trats w' = trats w"
proof (cases "scodigo (ev_tipo_msg e) (ev_codigo e) (ev_qualificador e)")
  case None
  with that show ?thesis
    by (auto simp: relata_evento_def msg_para_gancho_def Let_def textos_evento_def fotos_evento_def)
next
  case (Some s)
  obtain d where "formatar (ev_zona e) (ev_particao e) s = Inr d" using scodigo_formatar [OF Some] by blast
  with that Some show ?thesis
    by (cases com_foto)
      (auto simp: relata_evento_def msg_para_gancho_def Let_def textos_evento_def fotos_evento_def)
qed

lemma evento_eq:
  assumes "length msg = (if com_foto then 20 else 17)"
  obtains w' where "evento_alarme cfg h msg com_foto w = Inr w'"
    and "saidas w' = saidas w @ comandos_evento cfg (a_data_hora (amb w)) (le_evento msg com_foto) com_foto"
    and "fila (fotos w') = fila (fotos w) @ fotos_evento cfg (ip_addr (trats w h)) (le_evento msg com_foto) com_foto"
    and "conns w' = (conns w)(h := (conns w h)\<lparr>send_buf := send_buf (conns w h) @ [0xfe]\<rparr>)" and "trats w' = trats w"
proof -
  let ?e = "le_evento msg com_foto"
  let ?w = "ev_para_gancho cfg (ev_codigo ?e) (ev_particao ?e) (ev_zona ?e) (ev_qualificador ?e) w"
  obtain w1 where r: "relata_evento cfg h ?e com_foto ?w = Inr w1"
    "saidas w1 = saidas ?w @ [Popen (gancho_msg cfg @ '' '' @
           shlex_quote (log_texto (data_hora_str (a_data_hora (amb ?w))) (textos_evento ?e com_foto)))]"
    "fila (fotos w1) = fila (fotos ?w) @ fotos_evento cfg (ip_addr (trats ?w h)) ?e com_foto"
    "conns w1 = conns ?w" "trats w1 = trats ?w" by (rule relata_eq)
  show ?thesis
    by (rule that [of "tcp_send h [0xfe] w1"])
      (use assms r in \<open>simp_all add: evento_alarme_def Let_def ev_para_gancho_def comandos_evento_def\<close>)
qed

text \<open>Every message other than an identification is answered, and with what.\<close>

definition resposta_de :: "int \<Rightarrow> mundo \<Rightarrow> int list" where
  "resposta_de tipo w =
    (if tipo = 0x80 then enquadrar (dados_data_hora (a_data_hora (amb w))) else [0xfe])"

lemma evento_curto:
  "length msg \<noteq> (if com_foto then 20 else 17) \<Longrightarrow> evento_alarme cfg h msg com_foto w = Inr (tcp_send h [0xfe] w)"
  by (simp add: evento_alarme_def Let_def)

lemma trata_msg_eq:
  assumes "tipo \<noteq> 0x94"
  obtains w' where "trata_msg cfg h tipo msg w = Inr w'"
    and "conns w' = (conns w)(h := (conns w h)\<lparr>send_buf := send_buf (conns w h) @ resposta_de tipo w\<rparr>)"
    and "trats w' = trats w"
proof -
  have ev: "\<exists>w'. evento_alarme cfg h msg c w = Inr w' \<and> trats w' = trats w \<and>
      conns w' = (conns w)(h := (conns w h)\<lparr>send_buf := send_buf (conns w h) @ [0xfe]\<rparr>)" for c
  proof (cases "length msg = (if c then 20 else 17)")
    case True
    then show ?thesis by (rule evento_eq [where cfg = cfg and h = h and w = w]) blast
  next
    case False
    then show ?thesis by (simp add: evento_curto)
  qed
  consider "tipo = 0x80" | "tipo = 0xb0" | "tipo = 0xb5" | "tipo \<noteq> 0x80" "tipo \<noteq> 0xb0" "tipo \<noteq> 0xb5" by blast
  then have "\<exists>w'. trata_msg cfg h tipo msg w = Inr w' \<and> trats w' = trats w \<and>
      conns w' = (conns w)(h := (conns w h)\<lparr>send_buf := send_buf (conns w h) @ resposta_de tipo w\<rparr>)"
  proof cases
    case 1
    then show ?thesis by (simp add: trata_msg_def resposta_de_def solicita_eq)
  next
    case 2
    with ev [of False] show ?thesis by (simp add: trata_msg_def resposta_de_def)
  next
    case 3
    with ev [of True] show ?thesis by (simp add: trata_msg_def resposta_de_def)
  next
    case 4
    with assms show ?thesis by (simp add: trata_msg_def resposta_de_def resposta_generica_def)
  qed
  with that show ?thesis by blast
qed

subsection \<open>Identification\<close>

lemma cancel_frame:
  "cancel t w = Inr (c, w') \<Longrightarrow> w' = w\<lparr>pending := remove1 t (pending w)\<rparr>"
  by (auto simp: cancel_def alive_def res_bind_Inr_iff remove1_idem split: if_splits)

definition mac_de :: "int list \<Rightarrow> string" where
  "mac_de msg = join '':'' (map fmt_02x (fatia 3 6 msg))"

lemma identifica_eq:
  assumes "length msg = 7"
  shows "identificacao_central cfg h msg w = admite_central cfg h (mac_de msg) w"
proof -
  have "py_nth msg 0 = Inr (msg ! 0)" using assms by simp
  then show ?thesis using assms by (simp add: identificacao_central_def mac_de_def Let_def)
qed

lemma admite_eq:
  assumes "tok h w"
  obtains w' where "admite_central cfg h mac w = Inr w'"
    and "centrais cfg mac \<and> valida_maxconn cfg w \<Longrightarrow>
      conns w' = (conns w)(h := (conns w h)\<lparr>send_buf := send_buf (conns w h) @ [0xfe]\<rparr>) \<and>
      trats w' h = (trats w h)\<lparr>central_identificada := True, to_ident := None\<rparr>"
    and "\<not> (centrais cfg mac \<and> valida_maxconn cfg w) \<Longrightarrow>
      conns w' = conns w \<and> trats w' h = (trats w h)\<lparr>ignorar := True\<rparr>"
proof (cases "centrais cfg mac \<and> valida_maxconn cfg w")
  case False
  then show ?thesis
    by (intro that [of "muda_trat h (\<lambda>t. t\<lparr>ignorar := True\<rparr>) w"]) (auto simp: admite_central_def)
next
  case True
  let ?w = "muda_trat h (\<lambda>t. t\<lparr>central_identificada := True\<rparr>) w"
  show ?thesis
  proof (cases "to_ident (trats w h)")
    case None
    then have "(trats w h)\<lparr>central_identificada := True\<rparr> = (trats w h)\<lparr>central_identificada := True, to_ident := None\<rparr>"
      by simp
    with True None show ?thesis
      by (intro that [of "tcp_send h [0xfe] ?w"]) (auto simp: admite_central_def Let_def)
  next
    case (Some t)
    with assms obtain ob where "dono w h t = Some ob" by (auto simp: tok_def trat_ok_def arm_def)
    then have "\<not> to_invalid (tobjs w t)" using tok_inv_tempo [OF assms] by (auto simp: dono_Some pv_Some inv_tempo_def)
    then have "\<not> to_invalid (tobjs ?w t)" by simp
    from cancel_eq [OF this] Some True show ?thesis
      by (intro that [of "tcp_send h [0xfe] (muda_trat h (\<lambda>t. t\<lparr>to_ident := None\<rparr>)
            (?w\<lparr>pending := remove1 t (pending ?w)\<rparr>))"])
        (auto simp: admite_central_def Let_def)
  qed
qed

subsection \<open>One message at a time\<close>

text \<open>What a message of a given type is answered with, what it runs and the photos it asks for.\<close>

definition resposta_esperada :: "config \<Rightarrow> mundo \<Rightarrow> int \<Rightarrow> int list \<Rightarrow> int list" where
  "resposta_esperada cfg w tipo msg =
    (if tipo = 0x94
     then (if length msg \<noteq> 7 then [0xfe] else []) @
          (if centrais cfg (mac_de msg) \<and> centrais_conectadas w < maxconn cfg then [0xfe] else [])
     else resposta_de tipo w)"

definition comandos_esperados :: "config \<Rightarrow> mundo \<Rightarrow> int \<Rightarrow> int list \<Rightarrow> saida list" where
  "comandos_esperados cfg w tipo msg =
    (if tipo = 0xb0 \<and> length msg = 17 then comandos_evento cfg (a_data_hora (amb w)) (le_evento msg False) False
     else if tipo = 0xb5 \<and> length msg = 20 then comandos_evento cfg (a_data_hora (amb w)) (le_evento msg True) True
     else [])"

definition fotos_esperadas :: "config \<Rightarrow> string \<Rightarrow> int \<Rightarrow> int list \<Rightarrow> foto list" where
  "fotos_esperadas cfg ip tipo msg =
    (if tipo = 0xb5 \<and> length msg = 20 then fotos_evento cfg ip (le_evento msg True) True else [])"

definition efeitos :: "config \<Rightarrow> nat \<Rightarrow> int \<Rightarrow> int list \<Rightarrow> mundo \<Rightarrow> mundo \<Rightarrow> bool" where
  "efeitos cfg h tipo msg w w' \<longleftrightarrow>
    send_buf (conns w' h) = send_buf (conns w h) @ resposta_esperada cfg w tipo msg \<and>
    saidas w' = saidas w @ comandos_esperados cfg w tipo msg \<and>
    fila (fotos w') = fila (fotos w) @ fotos_esperadas cfg (ip_addr (trats w h)) tipo msg"

definition calado :: "nat \<Rightarrow> mundo \<Rightarrow> mundo \<Rightarrow> bool" where
  "calado h w w' \<longleftrightarrow>
    send_buf (conns w' h) = send_buf (conns w h) \<and> saidas w' = saidas w \<and> fila (fotos w') = fila (fotos w)"

lemma admite_efeitos:
  assumes "admite_central cfg h mac w = Inr w'"
  shows "conns w' = (if centrais cfg mac \<and> centrais_conectadas w < maxconn cfg
      then (conns w)(h := (conns w h)\<lparr>send_buf := send_buf (conns w h) @ [0xfe]\<rparr>) else conns w) \<and>
    saidas w' = saidas w \<and> fotos w' = fotos w"
  using assms
  by (auto simp: admite_central_def valida_maxconn_def res_bind_Inr_iff Let_def dest!: cancel_frame
      split: if_splits option.splits)

lemma trata_efeitos:
  assumes "trata_msg cfg h tipo msg w = Inr w'"
  shows "recv_buf (conns w' h) = recv_buf (conns w h) \<and> efeitos cfg h tipo msg w w'"
proof -
  note d = efeitos_def resposta_esperada_def comandos_esperados_def fotos_esperadas_def resposta_de_def
  have ev: "recv_buf (conns w' h) = recv_buf (conns w h) \<and> efeitos cfg h tipo msg w w'"
    if "tipo = (if c then 0xb5 else 0xb0)" "evento_alarme cfg h msg c w = Inr w'" for c
  proof (cases "length msg = (if c then 20 else 17)")
    case True
    show ?thesis
      by (rule evento_eq [OF True, of cfg h w]) (use that True in \<open>auto simp: d fotos_evento_def\<close>)
  next
    case False
    with that show ?thesis by (auto simp: evento_curto d)
  qed
  consider "tipo = 0x80" | "tipo = 0x94" | "tipo = 0xb0" | "tipo = 0xb5"
    | "tipo \<noteq> 0x80" "tipo \<noteq> 0x94" "tipo \<noteq> 0xb0" "tipo \<noteq> 0xb5" by blast
  then show ?thesis
  proof cases
    case 1
    with assms show ?thesis by (auto simp: trata_msg_def solicita_eq d)
  next
    case 2
    let ?w = "if length msg \<noteq> 7 then tcp_send h [0xfe] w else w"
    from 2 assms have "admite_central cfg h (mac_de msg) ?w = Inr w'"
      by (auto simp: trata_msg_def identificacao_central_def mac_de_def Let_def res_bind_Inr_iff split: if_splits)
    moreover have "centrais_conectadas (tcp_send h [0xfe] w) = centrais_conectadas w"
      by (simp add: centrais_conectadas_def tcp_send_def)
    ultimately show ?thesis using 2 admite_efeitos [of cfg h "mac_de msg" ?w w'] by (auto simp: d)
  next
    case 3
    with assms ev [of False] show ?thesis by (simp add: trata_msg_def)
  next
    case 4
    with assms ev [of True] show ?thesis by (simp add: trata_msg_def)
  next
    case 5
    with assms show ?thesis by (auto simp: trata_msg_def resposta_generica_def d)
  qed
qed

text \<open>The rest of the handling of a message changes nothing that is seen outside, nor the buffers.\<close>

definition por_dentro :: "mundo \<Rightarrow> mundo \<Rightarrow> bool" where
  "por_dentro w w' \<longleftrightarrow> conns w' = conns w \<and> saidas w' = saidas w \<and> fotos w' = fotos w"

lemma por_dentro_trans: "por_dentro w v \<Longrightarrow> por_dentro v w' \<Longrightarrow> por_dentro w w'"
  by (simp add: por_dentro_def)

lemma cancela_incompleta_dentro:
  assumes "(case to_incompleta (trats w h) of
       None \<Rightarrow> Inr w
     | Some t \<Rightarrow> res_bind (cancel t w) (\<lambda>(c, w). Inr (muda_trat h (\<lambda>t. t\<lparr>to_incompleta := None\<rparr>) w))) = Inr w'"
  shows "por_dentro w w'"
  using assms by (auto simp: por_dentro_def res_bind_Inr_iff dest: cancel_frame split: option.splits)

lemma handler_timeout_dentro: "handler_timeout h l r cb w = Inr (t, w') \<Longrightarrow> por_dentro w w'"
  by (auto simp: por_dentro_def handler_timeout_def timeout_new_eq split: if_splits)

text \<open>Each call takes from the buffer exactly the first complete frame, if there is one.\<close>

text \<open>Type and contents of a frame; the heartbeat is handled as a message without contents.\<close>

definition corpo :: "int list \<Rightarrow> int \<times> int list" where
  "corpo f = (if hd f = 0xf7 then (0xf7, []) else (f ! 1, drop 2 f))"

definition tratou :: "config \<Rightarrow> nat \<Rightarrow> int list \<Rightarrow> mundo \<Rightarrow> mundo \<Rightarrow> bool" where
  "tratou cfg h f w w' \<longleftrightarrow>
    recv_buf (conns w h) = f @ recv_buf (conns w' h) \<and> efeitos cfg h (fst (corpo f)) (snd (corpo f)) w w'"

definition esperou :: "nat \<Rightarrow> mundo \<Rightarrow> mundo \<Rightarrow> bool" where
  "esperou h w w' \<longleftrightarrow> recv_buf (conns w' h) = recv_buf (conns w h) \<and> calado h w w'"

definition consumo :: "config \<Rightarrow> nat \<Rightarrow> mundo \<Rightarrow> mundo \<Rightarrow> bool" where
  "consumo cfg h w w' \<longleftrightarrow>
    (let n = tam_frame (recv_buf (conns w h))
     in if n = 0 then esperou h w w' else tratou cfg h (take n (recv_buf (conns w h))) w w')"

lemma resto_take: "b = take n b @ r \<Longrightarrow> r = drop n b"
  by (metis append_take_drop_id same_append_eq)

lemma consumo_buf:
  assumes "consumo cfg h w w'"
  shows "recv_buf (conns w' h) = drop (tam_frame (recv_buf (conns w h))) (recv_buf (conns w h))"
proof (cases "tam_frame (recv_buf (conns w h)) = 0")
  case False
  with assms have "recv_buf (conns w h) = take (tam_frame (recv_buf (conns w h))) (recv_buf (conns w h)) @ recv_buf (conns w' h)"
    by (simp add: consumo_def tratou_def Let_def)
  then show ?thesis by (rule resto_take)
qed (use assms in \<open>simp add: consumo_def esperou_def\<close>)

lemma consumo_dentro: "consumo cfg h w v \<Longrightarrow> por_dentro v w' \<Longrightarrow> consumo cfg h w w'"
  by (auto simp: consumo_def por_dentro_def esperou_def tratou_def efeitos_def calado_def Let_def)

lemma efeitos_de:
  assumes "efeitos cfg h tipo msg v w'" and "send_buf (conns v h) = send_buf (conns w h)" and "saidas v = saidas w"
    and "fotos v = fotos w" and "amb v = amb w" and "centrais_conectadas v = centrais_conectadas w"
    and "ip_addr (trats v h) = ip_addr (trats w h)"
  shows "efeitos cfg h tipo msg w w'"
  using assms by (simp add: efeitos_def resposta_esperada_def resposta_de_def comandos_esperados_def)

lemma consumoI:
  assumes "tam_frame (recv_buf (conns w h)) = n" and "0 < n"
    and "recv_buf (conns w' h) = drop n (recv_buf (conns w h))"
    and "corpo (take n (recv_buf (conns w h))) = (tipo, msg)" and "efeitos cfg h tipo msg w w'"
  shows "consumo cfg h w w'"
  unfolding consumo_def tratou_def assms(1,3) Let_def using assms(2,4,5) by simp

lemma consumo_de:
  assumes "consumo cfg h v w'" and "conns v = conns w" and "saidas v = saidas w"
    and "fotos v = fotos w" and "amb v = amb w" and "centrais_conectadas v = centrais_conectadas w"
    and "ip_addr (trats v h) = ip_addr (trats w h)"
  shows "consumo cfg h w w'"
proof -
  have "efeitos cfg h tipo msg v w' \<Longrightarrow> efeitos cfg h tipo msg w w'" for tipo msg
    by (erule efeitos_de) (simp_all add: assms(2-7))
  with assms(1) show ?thesis
    unfolding consumo_def tratou_def esperou_def calado_def Let_def assms(2-4) by presburger
qed

lemma longo_consumo:
  assumes "bytes (recv_buf (conns w h))" and "recv_buf (conns w h) = [] \<or> hd (recv_buf (conns w h)) \<noteq> 0xf7"
    and "consome_frame_longo cfg h w = Inr (a, w')"
  shows "a = (0 < tam_frame (recv_buf (conns w h))) \<and> consumo cfg h w w'"
proof -
  let ?b = "recv_buf (conns w h)"
  show ?thesis
  proof (cases "length ?b < 2 \<or> int (length ?b) < ?b ! 0 + 2")
    case True
    then have "tam_frame ?b = 0" using assms(2) by (cases ?b) (auto simp: tam_frame_def)
    moreover have "consome_frame_longo cfg h w = Inr (False, w)"
      using True by (auto simp: consome_frame_longo_def Let_def)
    ultimately show ?thesis using assms(3) by (simp add: consumo_def esperou_def calado_def)
  next
    case False
    define n where "n = nat (?b ! 0 + 2)"
    from False obtain c t bs where b: "?b = c # t # bs" by (cases ?b; cases "tl ?b") auto
    with assms(1) have c: "0 \<le> c" by (simp add: byte_def)
    have n: "tam_frame ?b = n" "2 \<le> n" "n \<le> length ?b"
      using False b c assms(2) by (auto simp: tam_frame_def n_def)
    let ?f = "take n ?b" and ?w = "poe_recv_buf h (drop n ?b) w"
    have f: "drop 1 ?f = ?f ! 1 # drop 2 ?f"
      using n(2,3) Cons_nth_drop_Suc [of 1 ?f] by (simp add: numeral_2_eq_2)
    have "corpo ?f = (?f ! 1, drop 2 ?f)" using b n(2) assms(2) by (cases n) (simp_all add: corpo_def)
    moreover have r: "consome_frame_longo cfg h w =
        res_bind (trata_msg cfg h (?f ! 1) (drop 2 ?f) ?w) (\<lambda>w. Inr (True, w))"
      using False f by (simp add: consome_frame_longo_def n_def [symmetric] Let_def)
    with assms(3) have a: "trata_msg cfg h (?f ! 1) (drop 2 ?f) ?w = Inr w'" "a"
      by (auto simp: res_bind_Inr_iff)
    have k: "centrais_conectadas ?w = centrais_conectadas w"
      by (simp add: centrais_conectadas_def poe_recv_buf_def)
    have e: "efeitos cfg h (?f ! 1) (drop 2 ?f) w w'"
      by (rule efeitos_de [OF conjunct2 [OF trata_efeitos [OF a(1)]] _ _ _ _ k]) simp_all
    have b': "recv_buf (conns w' h) = drop n ?b" using conjunct1 [OF trata_efeitos [OF a(1)]] by simp
    have "0 < n" using n(2) by simp
    ultimately have "consumo cfg h w w'" using consumoI [OF n(1) _ b' _ e] by blast
    with a(2) n show ?thesis by simp
  qed
qed

text \<open>Each run of \<^verbatim>\<open>consome_msg\<close> handles exactly the first complete frame, if there is one.\<close>

lemma consome_consumo:
  assumes "bytes (recv_buf (conns w h))" and "consome_msg cfg h w = Inr (a, p, w')"
  shows "a = (0 < tam_frame (recv_buf (conns w h))) \<and> consumo cfg h w w' \<and>
    p = (a \<and> recv_buf (conns w' h) \<noteq> [])"
proof -
  let ?b = "recv_buf (conns w h)"
  from assms(2) obtain curto w1 c w2 where k: "consome_frame_curto h w = Inr (curto, w1)"
      "(if curto then Inr (True, w1) else consome_frame_longo cfg h w1) = Inr (c, w2)"
    and fim: "(if c
      then res_bind
             (case to_incompleta (trats w2 h) of
                None \<Rightarrow> Inr w2
              | Some t \<Rightarrow> res_bind (cancel t w2) (\<lambda>(c, w).
                  Inr (muda_trat h (\<lambda>t. t\<lparr>to_incompleta := None\<rparr>) w)))
             (\<lambda>w. Inr (True, recv_buf (conns w h) \<noteq> [], w))
      else if recv_buf (conns w2 h) \<noteq> [] \<and> to_incompleta (trats w2 h) = None
      then res_bind (handler_timeout h ''msgincompleta'' 60 (CbMsgIncompleta h) w2) (\<lambda>(t, w).
             Inr (False, False, muda_trat h (\<lambda>tr. tr\<lparr>to_incompleta := Some t\<rparr>) w))
      else Inr (False, False, w2)) = Inr (a, p, w')"
    unfolding consome_msg_def by (auto simp: res_bind_Inr_iff)
  have c: "c = (0 < tam_frame ?b) \<and> consumo cfg h w w2"
  proof (cases curto)
    case True
    with k obtain resto where b: "?b = 0xf7 # resto" and w2: "w2 = tcp_send h [0xfe] (poe_recv_buf h resto w)" "c"
      by (auto simp: consome_frame_curto_def split: list.splits if_splits)
    have n: "tam_frame ?b = 1" by (simp add: b tam_frame_def)
    have "efeitos cfg h 0xf7 [] w w2"
      by (simp add: w2(1) efeitos_def resposta_esperada_def resposta_de_def comandos_esperados_def fotos_esperadas_def)
    then have "consumo cfg h w w2" by (intro consumoI [OF n]) (simp_all add: w2(1) b corpo_def)
    with n w2(2) show ?thesis by simp
  next
    case False
    with k(1) have "w1 = w" "?b = [] \<or> hd ?b \<noteq> 0xf7"
      by (auto simp: consome_frame_curto_def split: list.splits if_splits)
    with longo_consumo [OF assms(1)] k(2) False show ?thesis by simp
  qed
  have "por_dentro w2 w'"
    using fim by (auto simp: res_bind_Inr_iff por_dentro_def split: if_splits
        dest!: cancela_incompleta_dentro handler_timeout_dentro)
  with c have "consumo cfg h w w'" using consumo_dentro by blast
  moreover have "a = c" "p = (c \<and> recv_buf (conns w' h) \<noteq> [])" using fim by (auto simp: res_bind_Inr_iff split: if_splits)
  ultimately show ?thesis using c by simp
qed

lemma agenda_dentro: "agenda_processa h w = Inr w' \<Longrightarrow> por_dentro w w'"
  by (auto simp: agenda_processa_def res_bind_Inr_iff por_dentro_def dest!: handler_timeout_dentro)

lemma agenda_recuo_dentro: "agenda_recuo h w = Inr w' \<Longrightarrow> por_dentro w w'"
  by (auto simp: agenda_recuo_def res_bind_Inr_iff por_dentro_def dest!: handler_timeout_dentro)

lemma avancar_dentro:
  assumes "avancar_backoff h w = Inr w'"
  shows "por_dentro w w'"
proof -
  let ?w = "muda_trat h (\<lambda>t. t\<lparr>backoff := backoff t * 2\<rparr>) w"
  from assms obtain v where v: "(case to_backoff (trats ?w h) of
             None \<Rightarrow> Inr ?w
           | Some t \<Rightarrow> res_bind (cancel t ?w) (\<lambda>(c, w).
               Inr (muda_trat h (\<lambda>t. t\<lparr>to_backoff := None\<rparr>) w))) = Inr v" "agenda_recuo h v = Inr w'"
    by (auto simp: avancar_backoff_def Let_def res_bind_Inr_iff)
  from v(1) have "por_dentro ?w v"
    by (auto simp: res_bind_Inr_iff por_dentro_def dest: cancel_frame split: option.splits)
  from por_dentro_trans [OF this agenda_recuo_dentro [OF v(2)]] show ?thesis by (simp add: por_dentro_def)
qed

lemma processar_consumo:
  assumes "bytes (recv_buf (conns w h))" and "processar_msg cfg h w = Inr w'"
  shows "consumo cfg h w w'"
proof -
  let ?w = "muda_trat h (\<lambda>t. t\<lparr>to_processa := None\<rparr>) w"
  from assms(2) obtain a p w1 w2 where c: "consome_msg cfg h ?w = Inr (a, p, w1)"
    and w2: "(if a then avancar_backoff h w1 else Inr w1) = Inr w2"
    and f: "(if p then agenda_processa h w2 else Inr w2) = Inr w'"
    by (auto simp: processar_msg_def Let_def res_bind_Inr_iff)
  have "por_dentro w1 w2" using w2 avancar_dentro [of h w1 w2] by (auto simp: por_dentro_def split: if_splits)
  moreover have "por_dentro w2 w'" using f agenda_dentro [of h w2 w'] by (auto simp: por_dentro_def split: if_splits)
  ultimately have "por_dentro w1 w'" by (rule por_dentro_trans)
  moreover have "consumo cfg h ?w w1" using consome_consumo [OF _ c] assms(1) by simp
  ultimately have "consumo cfg h ?w w'" using consumo_dentro by blast
  moreover have "centrais_conectadas ?w = centrais_conectadas w"
    by (simp add: centrais_conectadas_def) (rule arg_cong [where f = length], rule filter_cong, auto)
  ultimately show ?thesis by (elim consumo_de) simp_all
qed

subsection \<open>A conversation\<close>

text \<open>
  The life of one connection that is not ignored: octets arrive in \<^verbatim>\<open>read_callback\<close>, \<^verbatim>\<open>processar_msg\<close> runs
  when its timeout fires, and anything else leaves the receive buffer alone. \<open>s\<close> is the stream
  received so far, \<open>rs\<close> the states before and after each run of \<^verbatim>\<open>processar_msg\<close>.
\<close>

inductive conversa :: "config \<Rightarrow> nat \<Rightarrow> int list \<Rightarrow> (mundo \<times> mundo) list \<Rightarrow> mundo \<Rightarrow> bool" for cfg h where
  abre: "recv_buf (conns w h) = [] \<Longrightarrow> conversa cfg h [] [] w"
| recebe: "conversa cfg h s rs w \<Longrightarrow> \<not> ignorar (trats w h) \<Longrightarrow> a_recv (amb w) = RecvDados d \<Longrightarrow> d \<noteq> [] \<Longrightarrow>
    bytes d \<Longrightarrow> trat_read_callback cfg h w = Inr w' \<Longrightarrow> conversa cfg h (s @ d) rs w'"
| processa: "conversa cfg h s rs w \<Longrightarrow> processar_msg cfg h w = Inr w' \<Longrightarrow> conversa cfg h s (rs @ [(w, w')]) w'"
| outro: "conversa cfg h s rs w \<Longrightarrow> recv_buf (conns w' h) = recv_buf (conns w h) \<Longrightarrow> conversa cfg h s rs w'"

lemma leitura_buf:
  assumes "\<not> ignorar (trats w h)" and "a_recv (amb w) = RecvDados d" and "d \<noteq> []"
    and "trat_read_callback cfg h w = Inr w'"
  shows "recv_buf (conns w' h) = recv_buf (conns w h) @ d"
proof -
  let ?w = "poe_recv_buf h (recv_buf (conns w h) @ d) w"
  from assms obtain v where v: "restart (to_comm (trats ?w h)) ?w = Inr v"
    "(if to_processa (trats v h) = None then agenda_processa h v else Inr v) = Inr w'"
    by (auto simp: trat_read_callback_def tcp_read_callback_def trat_recv_callback_def res_bind_Inr_iff)
  from v(1) have "conns v = conns ?w"
    by (auto simp: restart_def restart_int_def arma_def split: if_splits)
  moreover have "conns w' = conns v" using v(2) by (auto simp: por_dentro_def dest!: agenda_dentro split: if_splits)
  ultimately show ?thesis by simp
qed

text \<open>The runs that took octets, and what each took.\<close>

definition consumiu :: "nat \<Rightarrow> mundo \<times> mundo \<Rightarrow> bool" where
  "consumiu h r \<longleftrightarrow> recv_buf (conns (snd r) h) \<noteq> recv_buf (conns (fst r) h)"

lemma conversa_cortes:
  "conversa cfg h s rs w \<Longrightarrow>
    bytes (recv_buf (conns w h)) \<and>
    (\<forall>(v, v')\<in>set rs. consumiu h (v, v') \<or> esperou h v v' \<and> tam_frame (recv_buf (conns v h)) = 0) \<and>
    (\<exists>fs. cortado tam_frame fs s (recv_buf (conns w h)) \<and>
      list_all2 (\<lambda>f (v, v'). tratou cfg h f v v') fs (filter (consumiu h) rs))"
proof (induction rule: conversa.induct)
  case (abre w)
  then show ?case by (simp add: exI [of _ "[]"])
next
  case (recebe s rs w d w')
  have "recv_buf (conns w' h) = recv_buf (conns w h) @ d" using recebe leitura_buf by blast
  with recebe trat.cortado_append show ?case by fastforce
next
  case (processa s rs w w')
  let ?b = "recv_buf (conns w h)" and ?n = "tam_frame (recv_buf (conns w h))"
  have c: "consumo cfg h w w'" using processa processar_consumo by blast
  from processa.IH obtain fs where fs: "cortado tam_frame fs s ?b"
    "list_all2 (\<lambda>f (v, v'). tratou cfg h f v v') fs (filter (consumiu h) rs)" by blast
  show ?case
  proof (cases "?n = 0")
    case True
    with c have e: "esperou h w w'" by (simp add: consumo_def)
    then have "recv_buf (conns w' h) = ?b" "\<not> consumiu h (w, w')" by (simp_all add: esperou_def consumiu_def)
    with e fs processa.IH True show ?thesis by auto
  next
    case False
    with c have t: "tratou cfg h (take ?n ?b) w w'" by (simp add: consumo_def Let_def)
    have b: "recv_buf (conns w' h) = drop ?n ?b" using c by (rule consumo_buf)
    have "length (drop ?n ?b) < length ?b" using False trat.tam_le [of ?b] by simp
    with b have "consumiu h (w, w')" by (metis consumiu_def fst_conv nat_neq_iff snd_conv)
    moreover have "cortado tam_frame (fs @ [take ?n ?b]) s (drop ?n ?b)"
      using cortado_mais [OF fs(1)] False by simp
    ultimately show ?thesis
      using processa.IH fs(2) t b by (auto simp: bytes_drop intro!: exI [of _ "fs @ [take ?n ?b]"] list_all2_appendI)
  qed
next
  case (outro s rs w w')
  then show ?case by simp
qed

subsection \<open>Timing\<close>

text \<open>The timeout that will run \<open>cb\<close> on behalf of \<open>h\<close> at time \<open>a\<close>.\<close>

definition marcado :: "mundo \<Rightarrow> nat \<Rightarrow> nat \<Rightarrow> callback \<Rightarrow> rat \<Rightarrow> bool" where
  "marcado w h t cb a \<longleftrightarrow>
    t \<in> set (pending w) \<and> to_owner (tobjs w t) = Some h \<and> to_callback (tobjs w t) = cb \<and>
    to_absolute (tobjs w t) = a"

lemma marcado_dono: "dono w h t = Some ob \<Longrightarrow> marcado w h t (to_callback ob) (to_absolute ob)"
  by (auto simp: dono_Some pv_Some marcado_def)

lemma agenda_recuo_marca:
  assumes "inv_tempo w" and "\<not> h_destroyed (hobjs w h)" and "agenda_recuo h w = Inr w'"
  shows "\<exists>t. trats w' h = (trats w h)\<lparr>to_backoff := Some t\<rparr> \<and>
    marcado w' h t (CbRecuarBackoff h) (agora w + max 1 (backoff (trats w h) * 2))"
proof -
  let ?r = "max recuo_backoff_minimo (backoff (trats w h) * 2)"
  obtain ob w2 where n: "handler_timeout h ''recuar_backoff'' ?r (CbRecuarBackoff h) w = Inr (prox w, w2)"
    "dono w2 h = (dono w h)(prox w \<mapsto> ob)" "to_callback ob = CbRecuarBackoff h" "trats w2 = trats w"
    "to_absolute ob = agora w + ?r"
    by (rule handler_timeout_dono [OF assms(1,2), of "''recuar_backoff''" ?r "CbRecuarBackoff h" cfg]) blast
  with assms(3) have w': "w' = muda_trat h (\<lambda>tr. tr\<lparr>to_backoff := Some (prox w)\<rparr>) w2"
    by (simp add: agenda_recuo_def)
  have "dono w' h (prox w) = Some ob" using n(2) by (simp add: w')
  from marcado_dono [OF this] n w' show ?thesis by (auto simp: recuo_backoff_minimo_def)
qed

lemma avancar_marca:
  assumes "tok h w"
  shows "\<exists>w' t. avancar_backoff h w = Inr w' \<and> tok h w' \<and>
    trats w' h = (trats w h)\<lparr>backoff := 2 * backoff (trats w h), to_backoff := Some t\<rparr> \<and>
    marcado w' h t (CbRecuarBackoff h) (agora w + max 1 (4 * backoff (trats w h)))"
proof -
  let ?w = "muda_trat h (\<lambda>t. t\<lparr>backoff := backoff t * 2\<rparr>) w"
  obtain w' where w': "avancar_backoff h w = Inr w'" "tok h w'"
    using feito_avancar [OF assms, of "\<lambda>_. False" undefined] by (auto simp: res_sat_total feito_def)
  then obtain v where v: "(case to_backoff (trats ?w h) of
             None \<Rightarrow> Inr ?w
           | Some t \<Rightarrow> res_bind (cancel t ?w) (\<lambda>(c, w).
               Inr (muda_trat h (\<lambda>t. t\<lparr>to_backoff := None\<rparr>) w))) = Inr v" "agenda_recuo h v = Inr w'"
    by (auto simp: avancar_backoff_def Let_def res_bind_Inr_iff)
  have i: "inv_tempo w" "\<not> h_destroyed (hobjs w h)" using assms by (simp_all add: tok_def)
  have iw: "inv_tempo ?w" using i(1) by (simp add: inv_tempo_def)
  have fv: "inv_tempo v \<and> \<not> h_destroyed (hobjs v h) \<and> agora v = agora w \<and>
      trats v h = (trats w h)\<lparr>backoff := backoff (trats w h) * 2, to_backoff := None\<rparr>"
  proof (cases "to_backoff (trats w h)")
    case None
    with v(1) have "v = ?w" by simp
    with None i iw show ?thesis by simp
  next
    case (Some t)
    with v(1) obtain c u where "cancel t ?w = Inr (c, u)" "v = muda_trat h (\<lambda>t. t\<lparr>to_backoff := None\<rparr>) u"
      by (auto simp: res_bind_Inr_iff)
    with cancel_frame [of t ?w c u] i inv_tempo_remove1 [OF iw, of t] show ?thesis
      by (simp add: inv_tempo_def)
  qed
  from agenda_recuo_marca [OF _ _ v(2)] fv w' show ?thesis by (fastforce simp: mult.commute)
qed

lemma recuar_marca:
  assumes "tok h w" and "trat_vivo (trats w h) (conns w h)" and "to_backoff (trats w h) = Some t"
  shows "\<exists>w'. recuar_backoff h (disparado t w) = Inr w' \<and> tok h w' \<and>
    backoff (trats w' h) = backoff (trats w h) / 2 \<and>
    (if backoff (trats w h) / 2 = backoff_minimo then to_backoff (trats w' h) = None
     else \<exists>u. to_backoff (trats w' h) = Some u \<and>
       marcado w' h u (CbRecuarBackoff h) (agora w + max 1 (backoff (trats w h))))"
proof -
  let ?T = "trats w h"
  obtain w' where w': "recuar_backoff h (disparado t w) = Inr w'" "tok h w'"
    using pronto_recuar [OF assms, of "\<lambda>_. False" undefined] by (auto simp: res_sat_total pronto_def)
  from assms obtain k where k: "backoff ?T = backoff_minimo * 2 ^ k" "backoff ?T \<noteq> backoff_minimo"
    by (auto simp: tok_def trat_ok_def)
  then obtain j where j: "backoff ?T / 2 = backoff_minimo * 2 ^ j" by (cases k) auto
  have ge: "backoff_minimo \<le> backoff ?T / 2" unfolding j by (simp add: backoff_minimo_def)
  let ?v = "muda_trat h (\<lambda>t. t\<lparr>backoff := max (backoff t / 2) backoff_minimo\<rparr>)
      (muda_trat h (\<lambda>t. t\<lparr>to_backoff := None\<rparr>) (disparado t w))"
  have m: "max (backoff ?T / 2) backoff_minimo = backoff ?T / 2" using ge by simp
  have i: "inv_tempo ?v" "\<not> h_destroyed (hobjs ?v h)" "agora ?v = agora w"
    using assms(1) inv_tempo_remove1 [of w t] by (simp_all add: tok_def inv_tempo_def)
  show ?thesis
  proof (cases "backoff ?T / 2 = backoff_minimo")
    case True
    with w' m show ?thesis by (auto simp: recuar_backoff_def Let_def)
  next
    case False
    with ge have "backoff_minimo < backoff ?T / 2" by simp
    with w'(1) m have "agenda_recuo h ?v = Inr w'" by (simp add: recuar_backoff_def Let_def)
    from agenda_recuo_marca [OF i(1,2) this] i(3) m False w' show ?thesis by auto
  qed
qed

subsection \<open>Properties\<close>

text \<open>A state with a single connection, for the examples.\<close>

definition amb_exemplo :: ambiente where
  "amb_exemplo = \<lparr>a_recv = RecvErro, a_send = SendErro, a_so_error = False, a_accept = AcceptErro,
     a_connect = ConnectPendente, a_open_ok = True,
     a_data_hora = \<lparr>ano = 2024, mes = 5, dia = 17, dia_semana = 4, hora = 13, minuto = 45, segundo = 9\<rparr>\<rparr>"

definition cfg_exemplo :: config where
  "cfg_exemplo = \<lparr>centrais = (\<lambda>_. True), maxconn = 2, caddr = ''auto'', cport = 9009, cfg_senha = 123456,
     cfg_tam_senha = 6, folder_dlfoto = ''.'', gancho_arquivo = Some ''./arq'', gancho_central = ''./central'',
     gancho_ev = ''./ev'', gancho_msg = ''./msg'', gancho_watchdog = ''./wd''\<rparr>"

definition mundo_exemplo :: mundo where
  "mundo_exemplo = (case tratador_init cfg_exemplo ''10.0.0.9'' 1234 ((mundo_vazio 0 amb_exemplo)\<lparr>prox := 4\<rparr>) of
     Inl _ \<Rightarrow> mundo_vazio 0 amb_exemplo | Inr w \<Rightarrow> w)"

lemma mundo_exemplo_tok: "tok 5 mundo_exemplo \<and> trat_vivo (trats mundo_exemplo 5) (conns mundo_exemplo 5)"
proof -
  let ?w = mundo_exemplo
  have p: "pending ?w = [6, 7]" "prox ?w = 8"
    "to_owner (tobjs ?w 6) = Some 5" "to_callback (tobjs ?w 6) = CbIdent 5" "\<not> to_invalid (tobjs ?w 6)"
    "to_owner (tobjs ?w 7) = Some 5" "to_callback (tobjs ?w 7) = CbComm 5" "\<not> to_invalid (tobjs ?w 7)"
    "\<not> h_destroyed (hobjs ?w 5)"
    "trats ?w 5 = \<lparr>backoff = backoff_minimo, ignorar = False, central_identificada = False, to_ident = Some 6,
       to_comm = 7, to_processa = None, to_incompleta = None, to_backoff = None, ip_addr = ''10.0.0.9''\<rparr>"
    "conns ?w 5 = \<lparr>recv_buf = [], send_buf = [], connecting = False\<rparr>"
    by (simp_all add: mundo_exemplo_def tratador_init_def server_init_def novo_socket_def handler_init_def
        handler_timeout_def timeout_new_eq mundo_vazio_def Let_def valida_maxconn_def centrais_conectadas_def
        cfg_exemplo_def)
  have "pv ?w t = Some ob \<longleftrightarrow> (t = 6 \<or> t = 7) \<and> ob = tobjs ?w t" for t ob
    by (auto simp: pv_Some p)
  then have d: "dono ?w 5 t = Some ob \<longleftrightarrow> (t = 6 \<or> t = 7) \<and> ob = tobjs ?w t" for t ob
    using p(3,6) by (auto simp: dono_Some)
  have "inv_tempo ?w" using p(5,8) by (auto simp: inv_tempo_def p(1,2))
  moreover have "\<exists>k. backoff_minimo = backoff_minimo * 2 ^ k" by (rule exI [of _ 0]) simp
  ultimately show ?thesis
    by (auto simp: tok_def trat_ok_def trat_vivo_def p d arm_def)
qed

text \<open>Type and contents of a message; a heartbeat is handled as a message without contents.\<close>

fun conteudo :: "mensagem \<Rightarrow> int \<times> int list" where
  "conteudo Curta = (0xf7, [])"
| "conteudo (Longa d c) = (hd (d @ [c]), tl (d @ [c]))"

lemma corpo_cod: "mensagem_valida x \<Longrightarrow> corpo (cod_mensagem x) = conteudo x"
proof (cases x)
  case (Longa d c)
  assume "mensagem_valida x"
  with Longa show ?thesis by (cases d) (auto simp: corpo_def)
qed (simp add: corpo_def)

text \<open>C1. In any conversation with a panel, however TCP cuts the stream and whenever \<^verbatim>\<open>processar_msg\<close> runs, the
  messages are handled in order and exactly once: the runs that take octets take one message each, the first
  ones sent, the rest still being in the buffer, and each sends the answer, runs the commands and queues the
  photos of its message and nothing else. A run takes nothing only when the buffer has no complete message, and
  then nothing is sent, run or queued.\<close>

theorem conversa_entrega:
  assumes "conversa cfg h (concat (map cod_mensagem xs)) rs w" and "\<forall>x\<in>set xs. mensagem_valida x"
  shows "\<exists>ys zs. xs = ys @ zs \<and> recv_buf (conns w h) = concat (map cod_mensagem zs) \<and>
    list_all2 (\<lambda>x (v, v').
        recv_buf (conns v h) = cod_mensagem x @ recv_buf (conns v' h) \<and>
        send_buf (conns v' h) = send_buf (conns v h) @ resposta_esperada cfg v (fst (conteudo x)) (snd (conteudo x)) \<and>
        saidas v' = saidas v @ comandos_esperados cfg v (fst (conteudo x)) (snd (conteudo x)) \<and>
        fila (fotos v') = fila (fotos v) @
          fotos_esperadas cfg (ip_addr (trats v h)) (fst (conteudo x)) (snd (conteudo x)))
      ys (filter (consumiu h) rs) \<and>
    (\<forall>(v, v')\<in>set rs. \<not> consumiu h (v, v') \<longrightarrow> tam_frame (recv_buf (conns v h)) = 0 \<and>
      send_buf (conns v' h) = send_buf (conns v h) \<and> saidas v' = saidas v \<and> fila (fotos v') = fila (fotos v))"
proof -
  have v: "list_all mensagem_valida xs" using assms(2) by (simp add: list_all_iff)
  from conversa_cortes [OF assms(1)] obtain fs where
    fs: "cortado tam_frame fs (concat (map cod_mensagem xs)) (recv_buf (conns w h))"
      "list_all2 (\<lambda>f (v, v'). tratou cfg h f v v') fs (filter (consumiu h) rs)"
    and e: "\<forall>(v, v')\<in>set rs. consumiu h (v, v') \<or> esperou h v v' \<and> tam_frame (recv_buf (conns v h)) = 0" by blast
  from trat.cortado_fluxo [OF fs(1) v] obtain ys zs where
    y: "xs = ys @ zs" "fs = map cod_mensagem ys" "recv_buf (conns w h) = concat (map cod_mensagem zs)" by blast
  have c: "corpo (cod_mensagem x) = conteudo x" if "x \<in> set ys" for x
    using that assms(2) y(1) by (simp add: corpo_cod)
  have "list_all2 (\<lambda>x (v, v'). tratou cfg h (cod_mensagem x) v v') ys (filter (consumiu h) rs)"
    using fs(2) unfolding y(2) by (simp add: list_all2_map1)
  with c have "list_all2 (\<lambda>x (v, v'). recv_buf (conns v h) = cod_mensagem x @ recv_buf (conns v' h) \<and>
      efeitos cfg h (fst (conteudo x)) (snd (conteudo x)) v v') ys (filter (consumiu h) rs)"
    by (elim list.rel_mono_strong) (auto simp: tratou_def)
  with y(1,3) e show ?thesis unfolding efeitos_def esperou_def calado_def by fastforce
qed

definition sucesso :: "mundo res \<Rightarrow> mundo" where
  "sucesso m = (case m of Inl _ \<Rightarrow> mundo_exemplo | Inr w \<Rightarrow> w)"

definition conversa_1 :: mundo where
  "conversa_1 = mundo_exemplo\<lparr>amb := amb_exemplo\<lparr>a_recv := RecvDados [0xf7]\<rparr>\<rparr>"

definition conversa_lida :: mundo where
  "conversa_lida = sucesso (trat_read_callback cfg_exemplo 5 conversa_1)"

definition conversa_tratada :: mundo where
  "conversa_tratada = sucesso (processar_msg cfg_exemplo 5 conversa_lida)"

theorem conversa_entrega_exemplo:
  "send_buf (conns conversa_tratada 5) = send_buf (conns conversa_lida 5) @ [0xfe] \<and> recv_buf (conns conversa_tratada 5) = []"
proof -
  have "recv_buf (conns conversa_1 5) = [] \<and> \<not> ignorar (trats conversa_1 5) \<and>
      a_recv (amb conversa_1) = RecvDados [0xf7] \<and> \<not> isl (trat_read_callback cfg_exemplo 5 conversa_1) \<and>
      recv_buf (conns conversa_lida 5) = [0xf7]"
    by code_simp
  then have 1: "recv_buf (conns conversa_1 5) = []" "\<not> ignorar (trats conversa_1 5)"
      "a_recv (amb conversa_1) = RecvDados [0xf7]" "trat_read_callback cfg_exemplo 5 conversa_1 = Inr conversa_lida"
      "recv_buf (conns conversa_lida 5) = [0xf7]"
    by (cases "trat_read_callback cfg_exemplo 5 conversa_1"; simp add: sucesso_def conversa_lida_def)+
  have "\<not> isl (processar_msg cfg_exemplo 5 conversa_lida) \<and> recv_buf (conns conversa_tratada 5) = []" by code_simp
  then have 2: "processar_msg cfg_exemplo 5 conversa_lida = Inr conversa_tratada" "recv_buf (conns conversa_tratada 5) = []"
    by (cases "processar_msg cfg_exemplo 5 conversa_lida"; simp add: sucesso_def conversa_tratada_def)+
  have "conversa cfg_exemplo 5 ([] @ [0xf7]) [] conversa_lida"
    by (rule conversa.recebe [OF conversa.abre [OF 1(1)] 1(2,3) _ _ 1(4)]) (simp_all add: byte_def)
  from conversa.processa [OF this 2(1)]
  have c: "conversa cfg_exemplo 5 (concat (map cod_mensagem [Curta])) [(conversa_lida, conversa_tratada)] conversa_tratada"
    by simp
  have f: "filter (consumiu 5) [(conversa_lida, conversa_tratada)] = [(conversa_lida, conversa_tratada)]"
    by (simp add: consumiu_def 1(5) 2(2))
  from conversa_entrega [OF c] obtain ys zs where "[Curta] = ys @ zs" "list_all2 (\<lambda>x (v, v').
        recv_buf (conns v 5) = cod_mensagem x @ recv_buf (conns v' 5) \<and>
        send_buf (conns v' 5) = send_buf (conns v 5) @ resposta_esperada cfg_exemplo v (fst (conteudo x)) (snd (conteudo x)) \<and>
        saidas v' = saidas v @ comandos_esperados cfg_exemplo v (fst (conteudo x)) (snd (conteudo x)) \<and>
        fila (fotos v') = fila (fotos v) @
          fotos_esperadas cfg_exemplo (ip_addr (trats v 5)) (fst (conteudo x)) (snd (conteudo x)))
      ys [(conversa_lida, conversa_tratada)]"
    unfolding f by auto
  then show ?thesis
    using 2(2) by (cases ys) (auto simp: resposta_esperada_def resposta_de_def)
qed

text \<open>C8. Each run of \<^verbatim>\<open>consome_msg\<close> takes from the buffer exactly its first complete frame, and nothing when there
  is none; it reports whether it took one and, then, whether octets remain.\<close>

theorem consome_um_frame:
  assumes "bytes (recv_buf (conns w h))" and "consome_msg cfg h w = Inr (aceita, pendentes, w')"
  shows "aceita = (0 < tam_frame (recv_buf (conns w h))) \<and>
    recv_buf (conns w' h) = drop (tam_frame (recv_buf (conns w h))) (recv_buf (conns w h)) \<and>
    pendentes = (aceita \<and> recv_buf (conns w' h) \<noteq> [])"
  using consome_consumo [OF assms] consumo_buf by blast

definition conversa_2 :: mundo where
  "conversa_2 = poe_recv_buf 5 [0xf7, 0x01] mundo_exemplo"

definition resultado_2 :: "bool \<times> bool \<times> mundo" where
  "resultado_2 = (case consome_msg cfg_exemplo 5 conversa_2 of
     Inl _ \<Rightarrow> (False, False, mundo_exemplo) | Inr r \<Rightarrow> r)"

theorem consome_um_frame_exemplo:
  "fst resultado_2 \<and> fst (snd resultado_2) \<and> recv_buf (conns (snd (snd resultado_2)) 5) = [0x01]"
proof -
  have "\<not> isl (consome_msg cfg_exemplo 5 conversa_2)" by code_simp
  then have r: "consome_msg cfg_exemplo 5 conversa_2 =
      Inr (fst resultado_2, fst (snd resultado_2), snd (snd resultado_2))"
    by (cases "consome_msg cfg_exemplo 5 conversa_2") (simp_all add: resultado_2_def)
  have b: "recv_buf (conns conversa_2 5) = [0xf7, 0x01]" by (simp add: conversa_2_def)
  from consome_um_frame [OF _ r] show ?thesis by (simp add: b byte_def tam_frame_def)
qed

text \<open>C6. Every message other than an identification is handled without an exception and answered exactly once:
  a request for date and time with the framed date, anything else, known or not, with the octet 0xfe; nothing
  else is sent to this panel or to another, and no receive buffer changes.\<close>

theorem mensagem_respondida:
  assumes "tipo \<noteq> 0x94"
  shows "\<exists>w'. trata_msg cfg h tipo msg w = Inr w' \<and>
    send_buf (conns w' h) = send_buf (conns w h) @
      (if tipo = 0x80
       then let d = a_data_hora (amb w)
            in enquadrar [0x80, bcd (ano d - 2000), bcd (mes d), bcd (dia d), bcd ((dia_semana d + 1) mod 7),
                          bcd (hora d), bcd (minuto d), bcd (segundo d)]
       else [0xfe]) \<and>
    (\<forall>h'. recv_buf (conns w' h') = recv_buf (conns w h')) \<and>
    (\<forall>h'. h' \<noteq> h \<longrightarrow> conns w' h' = conns w h') \<and> trats w' = trats w"
  by (rule trata_msg_eq [OF assms, of cfg h msg w])
    (simp add: resposta_de_def dados_data_hora_def Let_def)

theorem mensagem_respondida_exemplo:
  "\<exists>w'. trata_msg cfg_exemplo 5 0x42 [1, 2] mundo_exemplo = Inr w' \<and>
    send_buf (conns w' 5) = send_buf (conns mundo_exemplo 5) @ [0xfe]"
  using mensagem_respondida [of "0x42" cfg_exemplo 5 "[1, 2]" mundo_exemplo] by auto

text \<open>C12. A request for date and time is answered with one frame, whatever the request says: length 8, type 0x80, a
  right checksum and fields that, read as BCD, are the last two digits of the year, the month, the day, the
  weekday counted from Sunday, the hour, the minute and the second of the clock.\<close>

theorem data_hora_legivel:
  assumes "data_hora_valida (a_data_hora (amb w))"
  shows "let d = a_data_hora (amb w)
    in \<exists>w' campos s. solicita_data_hora h msg w = Inr w' \<and>
      send_buf (conns w' h) = send_buf (conns w h) @ [8, 0x80] @ campos @ [s] \<and>
      checksum ([8, 0x80] @ campos @ [s]) = 0 \<and>
      map (\<lambda>c. from_bcd [c]) campos =
        [ano d - 2000, mes d, dia d, (dia_semana d + 1) mod 7, hora d, minuto d, segundo d]"
proof -
  let ?d = "a_data_hora (amb w)"
  have fb: "from_bcd [bcd n] = n" if "0 \<le> n" "n \<le> 99" for n
    using from_bcd_map_bcd [of "[n]"] that by (simp add: valor100_def)
  let ?c = "[bcd (ano ?d - 2000), bcd (mes ?d), bcd (dia ?d), bcd ((dia_semana ?d + 1) mod 7),
     bcd (hora ?d), bcd (minuto ?d), bcd (segundo ?d)]"
  have "(dia_semana ?d + 1) mod 7 \<le> 99" "0 \<le> (dia_semana ?d + 1) mod 7" by simp_all
  then have "map (\<lambda>c. from_bcd [c]) ?c =
      [ano ?d - 2000, mes ?d, dia ?d, (dia_semana ?d + 1) mod 7, hora ?d, minuto ?d, segundo ?d]"
    using assms by (simp add: fb data_hora_valida_def)
  moreover have "checksum (([8, 0x80] @ ?c) @ [checksum ([8, 0x80] @ ?c)]) = 0" by (rule checksum_anexado)
  ultimately show ?thesis
    unfolding solicita_eq Let_def
    by (intro exI [of _ "tcp_send h (enquadrar (dados_data_hora ?d)) w"] exI [of _ ?c]
        exI [of _ "checksum ([8, 0x80] @ ?c)"]) (simp add: enquadrar_eq dados_data_hora_def)
qed

theorem data_hora_legivel_exemplo:
  "\<exists>w' campos s. solicita_data_hora 5 [] mundo_exemplo = Inr w' \<and>
    send_buf (conns w' 5) = send_buf (conns mundo_exemplo 5) @ [8, 0x80] @ campos @ [s] \<and>
    map (\<lambda>c. from_bcd [c]) campos = [24, 5, 17, 5, 13, 45, 9]"
proof -
  have "a_data_hora (amb mundo_exemplo) =
      \<lparr>ano = 2024, mes = 5, dia = 17, dia_semana = 4, hora = 13, minuto = 45, segundo = 9\<rparr>"
    by (simp add: mundo_exemplo_def tratador_init_def server_init_def novo_socket_def handler_init_def
        handler_timeout_def timeout_new_eq mundo_vazio_def Let_def valida_maxconn_def centrais_conectadas_def
        cfg_exemplo_def amb_exemplo_def)
  then show ?thesis
    using data_hora_legivel [of mundo_exemplo 5 "[]"] by (auto simp: data_hora_valida_def Let_def)
qed

text \<open>C7. An identification of the right length either admits the panel or makes the receiver ignore it. It is
  admitted exactly when its identifier is authorised and fewer than the maximum of panels are identified; then
  it is acknowledged and no longer waited for. Otherwise nothing is sent and the connection is ignored.\<close>

theorem identificacao_decide:
  assumes "tok h w" and "length msg = 7"
  shows "\<exists>w'. identificacao_central cfg h msg w = Inr w' \<and>
    (if centrais cfg (join '':'' (map fmt_02x (fatia 3 6 msg))) \<and> centrais_conectadas w < maxconn cfg
     then trats w' h = (trats w h)\<lparr>central_identificada := True, to_ident := None\<rparr> \<and>
       send_buf (conns w' h) = send_buf (conns w h) @ [0xfe]
     else trats w' h = (trats w h)\<lparr>ignorar := True\<rparr> \<and> conns w' = conns w)"
  unfolding identifica_eq [OF assms(2)]
  by (rule admite_eq [OF assms(1), of cfg "mac_de msg"]) (auto simp: mac_de_def valida_maxconn_def)

theorem identificacao_decide_exemplo:
  "\<exists>w'. identificacao_central cfg_exemplo 5 [0x45, 0x12, 0x34, 0xaa, 0xbb, 0xcc, 0] mundo_exemplo = Inr w' \<and>
    central_identificada (trats w' 5)"
proof -
  have "centrais_conectadas mundo_exemplo < maxconn cfg_exemplo" by code_simp
  then show ?thesis
    using identificacao_decide [of 5 mundo_exemplo "[0x45, 0x12, 0x34, 0xaa, 0xbb, 0xcc, 0]" cfg_exemplo] mundo_exemplo_tok
    by (auto simp: cfg_exemplo_def)
qed

text \<open>C11. An identification message with no payload, which any peer may send before it is identified, is
  acknowledged and then raises \<^verbatim>\<open>IndexError\<close> out of \<^verbatim>\<open>processar_msg\<close>: the length check does not
  return.\<close>

theorem identificacao_vazia:
  assumes "recv_buf (conns w h) = 0x00 # 0x94 # resto"
  shows "processar_msg cfg h w = Inl IndexError"
  using assms
  by (simp add: processar_msg_def consome_msg_def consome_frame_curto_def consome_frame_longo_def
      trata_msg_def identificacao_central_def Let_def)

theorem identificacao_vazia_exemplo:
  "processar_msg cfg_exemplo 5 (poe_recv_buf 5 [0x00, 0x94] mundo_exemplo) = Inl IndexError"
  by (rule identificacao_vazia) simp

end
