(* ===== verification/Relato.thy ===== *)
theory Relato
  imports Recepcao
begin

text \<open>
  What the receiver reports of an event and how it leaves the program: the fields of an event
  message, the table of descriptions, the commands run for the hooks, and the octets sent back.
\<close>

subsection \<open>Event messages as a panel builds them\<close>

text \<open>Canal, account, message type, qualifier, code, partition, zone and the repositioned checksum.\<close>

definition msg_evento :: "int \<Rightarrow> int \<Rightarrow> int \<Rightarrow> int \<Rightarrow> int \<Rightarrow> int \<Rightarrow> int \<Rightarrow> int \<Rightarrow> int list" where
  "msg_evento canal conta tipo q codigo particao zona x =
    [canal] @ contact_id_encode conta 4 @ contact_id_encode tipo 2 @ [q] @ contact_id_encode codigo 3 @
    contact_id_encode particao 2 @ contact_id_encode zona 3 @ [x]"

lemma fatia_meio: "length a = i \<Longrightarrow> length b = k - i \<Longrightarrow> i \<le> k \<Longrightarrow> fatia i k (a @ b @ c) = b"
  by (simp add: fatia_def)

lemma le_msg_evento:
  assumes "0 \<le> conta" "conta < 10000" "0 \<le> tipo" "tipo < 100" "0 \<le> codigo" "codigo < 1000"
    "0 \<le> particao" "particao < 100" "0 \<le> zona" "zona < 1000"
  shows "le_evento (msg_evento canal conta tipo q codigo particao zona x) False =
    \<lparr>ev_canal = canal, ev_contact_id = conta, ev_tipo_msg = tipo, ev_qualificador = q, ev_codigo = codigo,
     ev_particao = particao, ev_zona = zona, ev_indice = 0, ev_nr_fotos = 0\<rparr>"
    and "le_evento (msg_evento canal conta tipo q codigo particao zona x @ be16 i @ [n]) True =
    \<lparr>ev_canal = canal, ev_contact_id = conta, ev_tipo_msg = tipo, ev_qualificador = q, ev_codigo = codigo,
     ev_particao = particao, ev_zona = zona, ev_indice = i, ev_nr_fotos = n\<rparr>"
    and "length (msg_evento canal conta tipo q codigo particao zona x) = 17"
proof -
  let ?m = "msg_evento canal conta tipo q codigo particao zona x"
  let ?A = "contact_id_encode conta 4" and ?T = "contact_id_encode tipo 2" and ?C = "contact_id_encode codigo 3"
    and ?P = "contact_id_encode particao 2" and ?Z = "contact_id_encode zona 3"
  show l: "length ?m = 17" by (simp add: msg_evento_def)
  have f: "fatia 1 5 (?m @ r) = ?A" "fatia 5 7 (?m @ r) = ?T" "fatia 8 11 (?m @ r) = ?C"
    "fatia 11 13 (?m @ r) = ?P" "fatia 13 16 (?m @ r) = ?Z" for r
    using fatia_meio [of "[canal]" 1 ?A 5 "?T @ [q] @ ?C @ ?P @ ?Z @ [x] @ r"]
      fatia_meio [of "[canal] @ ?A" 5 ?T 7 "[q] @ ?C @ ?P @ ?Z @ [x] @ r"]
      fatia_meio [of "[canal] @ ?A @ ?T @ [q]" 8 ?C 11 "?P @ ?Z @ [x] @ r"]
      fatia_meio [of "[canal] @ ?A @ ?T @ [q] @ ?C" 11 ?P 13 "?Z @ [x] @ r"]
      fatia_meio [of "[canal] @ ?A @ ?T @ [q] @ ?C @ ?P" 13 ?Z 16 "[x] @ r"]
    by (simp_all add: msg_evento_def)
  have h: "(?m @ r) ! 0 = canal" "(?m @ r) ! 7 = q" for r
    by (simp_all add: msg_evento_def nth_append)
  have d: "contact_id_decode ?A = conta" "contact_id_decode ?T = tipo" "contact_id_decode ?C = codigo"
    "contact_id_decode ?P = particao" "contact_id_decode ?Z = zona"
    using assms by (simp_all add: contact_id_decode_encode)
  show "le_evento ?m False =
    \<lparr>ev_canal = canal, ev_contact_id = conta, ev_tipo_msg = tipo, ev_qualificador = q, ev_codigo = codigo,
     ev_particao = particao, ev_zona = zona, ev_indice = 0, ev_nr_fotos = 0\<rparr>"
    using f [of "[]"] h [of "[]"] d by (simp add: le_evento_def)
  have be: "(?m @ be16 i @ [n]) ! 17 * 256 + (?m @ be16 i @ [n]) ! 18 = i" "(?m @ be16 i @ [n]) ! 19 = n"
    using l by (simp_all add: nth_append be16_def)
  show "le_evento (?m @ be16 i @ [n]) True =
    \<lparr>ev_canal = canal, ev_contact_id = conta, ev_tipo_msg = tipo, ev_qualificador = q, ev_codigo = codigo,
     ev_particao = particao, ev_zona = zona, ev_indice = i, ev_nr_fotos = n\<rparr>"
    using f [of "be16 i @ [n]"] h [of "be16 i @ [n]"] d be by (simp add: le_evento_def)
qed

subsection \<open>Properties\<close>

text \<open>C31. An event with a photo, as a panel encodes it, runs the event hook with its code, partition, zone and
  qualifier and then the message hook once; when its code and qualifier are in the table and downloads are
  enabled, every one of its photos is queued, in order, with 10 attempts; and it is acknowledged.\<close>

theorem evento_com_fotos:
  assumes "0 \<le> conta" "conta < 10000" "0 \<le> codigo" "codigo < 1000"
    and "0 \<le> particao" "particao < 100" "0 \<le> zona" "zona < 1000" and "0 < cfg_tam_senha cfg"
    and "scodigo 18 codigo q = Some s" and "formatar zona particao s = Inr d"
  shows "\<exists>w'. trata_msg cfg h 0xb5 (msg_evento canal conta 18 q codigo particao zona x @ be16 i @ [n]) w = Inr w' \<and>
    saidas w' = saidas w @
      [Popen (gancho_ev cfg @ '' '' @ fmt_d codigo @ '' '' @ fmt_d particao @ '' '' @ fmt_d zona @ '' '' @ fmt_d q),
       Popen (gancho_msg cfg @ '' '' @ shlex_quote (data_hora_str (a_data_hora (amb w)) @ '' '' @ d @ '' '' @
         ''(com fotos, i='' @ fmt_d i @ '' n='' @ fmt_d n @ '')''))] \<and>
    fila (fotos w') = fila (fotos w) @ map (\<lambda>k. (ip_addr (trats w h), i, int k, 10)) [0..<nat n] \<and>
    send_buf (conns w' h) = send_buf (conns w h) @ [0xfe]"
proof -
  let ?m = "msg_evento canal conta 18 q codigo particao zona x @ be16 i @ [n]"
  have m: "length ?m = (if True then 20 else 17)" and e: "le_evento ?m True =
    \<lparr>ev_canal = canal, ev_contact_id = conta, ev_tipo_msg = 18, ev_qualificador = q, ev_codigo = codigo,
     ev_particao = particao, ev_zona = zona, ev_indice = i, ev_nr_fotos = n\<rparr>"
    using le_msg_evento [of conta 18 codigo particao zona] assms by simp_all
  obtain w' where "evento_alarme cfg h ?m True w = Inr w'"
    "saidas w' = saidas w @ comandos_evento cfg (a_data_hora (amb w)) (le_evento ?m True) True"
    "fila (fotos w') = fila (fotos w) @ fotos_evento cfg (ip_addr (trats w h)) (le_evento ?m True) True"
    "conns w' = (conns w)(h := (conns w h)\<lparr>send_buf := send_buf (conns w h) @ [0xfe]\<rparr>)" "trats w' = trats w"
    by (rule evento_eq [OF m])
  then show ?thesis
    using assms(9-11) e by (simp add: trata_msg_def comandos_evento_def fotos_evento_def textos_evento_def log_texto_eq)
qed

theorem evento_com_fotos_exemplo:
  "\<exists>w'. trata_msg cfg_exemplo 5 0xb5 (msg_evento 0x11 1234 18 1 130 1 8 0 @ be16 300 @ [2]) mundo_exemplo = Inr w' \<and>
    length (fila (fotos w')) = length (fila (fotos mundo_exemplo)) + 2"
proof -
  have "scodigo 18 130 1 = Some ''Disparo de zona {zona}''" by code_simp
  moreover have "formatar 8 1 ''Disparo de zona {zona}'' = Inr ''Disparo de zona 8''" by code_simp
  moreover have "0 < cfg_tam_senha cfg_exemplo" by (simp add: cfg_exemplo_def)
  ultimately show ?thesis
    using evento_com_fotos [of 1234 130 1 8 cfg_exemplo 1 _ _ 5 "0x11" 0 300 2 mundo_exemplo] by fastforce
qed

lemma tabela_qualificadores:
  "list_all (\<lambda>(c, ev). map_of ev ''*'' \<noteq> None \<or> map_of ev ''aber'' \<noteq> None \<and> map_of ev ''rest'' \<noteq> None) eventos_contact_id"
  by code_simp

text \<open>C33. An event is described exactly when it is a Contact-ID message whose code is in the table and whose qualifier is
  1 or 3, or any when the entry does not depend on it; and formatting the description never raises, whatever
  the zone and the partition.\<close>

theorem tabela_de_eventos:
  "(scodigo tipo codigo q \<noteq> None \<longleftrightarrow>
      tipo = 18 \<and> (\<exists>ev. map_of eventos_contact_id codigo = Some ev \<and> (q = 1 \<or> q = 3 \<or> map_of ev ''*'' \<noteq> None))) \<and>
    (\<forall>s. scodigo tipo codigo q = Some s \<longrightarrow> (\<exists>r. formatar zona particao s = Inr r))"
proof -
  have "scodigo tipo codigo q \<noteq> None \<longleftrightarrow>
      tipo = 18 \<and> (\<exists>ev. map_of eventos_contact_id codigo = Some ev \<and> (q = 1 \<or> q = 3 \<or> map_of ev ''*'' \<noteq> None))"
  proof (cases "map_of eventos_contact_id codigo")
    case None
    then show ?thesis by (simp add: scodigo_def)
  next
    case (Some ev)
    then have "map_of ev ''*'' \<noteq> None \<or> map_of ev ''aber'' \<noteq> None \<and> map_of ev ''rest'' \<noteq> None"
      using bspec [OF tabela_qualificadores [unfolded list_all_iff] map_of_SomeD [OF Some]] by simp
    moreover have "scodigo tipo codigo q = (if tipo = 18 then map_of ev (squalif ev q) else None)"
      using Some by (simp add: scodigo_def)
    ultimately show ?thesis using Some by (auto simp: squalif_def split: if_splits)
  qed
  with scodigo_formatar show ?thesis by blast
qed

theorem tabela_de_eventos_exemplo: "\<exists>r. formatar 8 1 ''Disparo de zona {zona}'' = Inr r"
proof -
  have "scodigo 18 130 1 = Some ''Disparo de zona {zona}''" by code_simp
  then show ?thesis using tabela_de_eventos [of 18 130 1 8 1] by blast
qed

text \<open>C32. What a panel sends cannot make the shell run anything else: the text given to the message hook is one quoted
  word that the shell reads back as it is, whatever characters it has, and the arguments of the event hook are
  made of digits, minus signs and spaces.\<close>

theorem ganchos_seguros:
  "(\<exists>arg. msg_para_gancho cfg msg w = emite (Popen (gancho_msg cfg @ '' '' @ arg)) w \<and>
      sh_palavra Nu arg = Some (data_hora_str (a_data_hora (amb w)) @ concat (map (\<lambda>m. '' '' @ m) msg))) \<and>
    (\<exists>args. ev_para_gancho cfg codigo particao zona q w = emite (Popen (gancho_ev cfg @ args)) w \<and>
      set args \<subseteq> set '' -0123456789'')"
proof -
  define S where "S = set '' -0123456789''"
  have "set ''0123456789'' \<subseteq> S" by (simp add: S_def)
  then have b: "set (base_nat 10 m) \<subseteq> S" for m using base_nat_digitos [of m] by (rule subset_trans [rotated])
  have c: "CHR ''-'' \<in> S" "CHR '' '' \<in> S" by (simp_all add: S_def)
  have d: "set (fmt_d n) \<subseteq> S" for n using b c by (simp add: fmt_d_def)
  let ?args = "'' '' @ fmt_d codigo @ '' '' @ fmt_d particao @ '' '' @ fmt_d zona @ '' '' @ fmt_d q"
  have "set ?args \<subseteq> S" using d c by simp
  moreover have "ev_para_gancho cfg codigo particao zona q w = emite (Popen (gancho_ev cfg @ ?args)) w"
    by (simp add: ev_para_gancho_def)
  moreover have "msg_para_gancho cfg msg w = emite (Popen (gancho_msg cfg @ '' '' @
      shlex_quote (log_texto (data_hora_str (a_data_hora (amb w))) msg))) w"
    by (simp add: msg_para_gancho_def Let_def)
  ultimately show ?thesis unfolding S_def using sh_palavra_shlex_quote log_texto_eq by metis
qed

end
