(* ===== verification/Relatorio.thy ===== *)
theory Relatorio
  imports Comandos
begin

text \<open>
  The status report of \<^verbatim>\<open>SolicitarStatus\<close> (\<^verbatim>\<open>alarmeitbl/comandos.py\<close>): which zones a bit map lists, and for
  which payloads the report is complete or fails.
\<close>

text \<open>The numbers of one octet, the \<open>i\<close>-th.\<close>

lemma numeros_octeto:
  "concat (map (\<lambda>j. if P j then [f (1 + j + i * 8)] else []) [0..<8]) =
    map f (filter (\<lambda>n. P ((n - 1) mod 8)) [Suc (8 * i)..<Suc (8 * i + 8)])"
proof -
  have "[Suc (8 * i)..<Suc (8 * i + 8)] = map (\<lambda>j. 1 + j + i * 8) [0..<8]"
    by (rule nth_equalityI) auto
  moreover have "concat (map (\<lambda>j. if P j then [f (1 + j + i * 8)] else []) js) =
      map f (filter (\<lambda>n. P ((n - 1) mod 8)) (map (\<lambda>j. 1 + j + i * 8) js))" if "set js \<subseteq> {0..<8}" for js
    using that by (induction js) auto
  ultimately show ?thesis by simp
qed

text \<open>C35. The numbers that \<^verbatim>\<open>bits_para_numeros\<close> lists are, in increasing order and each once, the zones whose bit is set
  (clear, with \<^verbatim>\<open>inverso\<close>): zone n is bit (n - 1) mod 8 of octet (n - 1) div 8.\<close>

theorem bits_equivale:
  "bits_para_numeros octetos inverso =
    map (\<lambda>n. fmt_d (int n))
      (filter (\<lambda>n. bit (octetos ! ((n - 1) div 8)) ((n - 1) mod 8) \<noteq> inverso) [1..<Suc (8 * length octetos)])"
proof -
  let ?s = "\<lambda>i b. concat (map (\<lambda>j. if ((b AND push_bit j 1 \<noteq> 0) \<and> \<not> inverso) \<or> (\<not> (b AND push_bit j 1 \<noteq> 0) \<and> inverso)
      then [fmt_d (int (1 + j + i * 8))] else []) [0..<8])"
  have um: "?s i b = map (\<lambda>n. fmt_d (int n)) (filter (\<lambda>n. bit b ((n - 1) mod 8) \<noteq> inverso) [Suc (8 * i)..<Suc (8 * i + 8)])"
    for i and b :: int
    using numeros_octeto [of "\<lambda>j. bit b j \<noteq> inverso" "\<lambda>n. fmt_d (int n)" i]
    by (cases inverso) (simp_all add: and_exp_eq_0_iff_not_bit)
  show ?thesis
  proof (induction octetos rule: rev_induct)
    case Nil
    then show ?case by (simp add: bits_para_numeros_def)
  next
    case (snoc b octetos)
    let ?l = "length octetos"
    have "bits_para_numeros (octetos @ [b]) inverso = bits_para_numeros octetos inverso @ ?s ?l b"
      by (simp add: bits_para_numeros_def enumerate_append_eq)
    moreover have "[1..<Suc (8 * length (octetos @ [b]))] = [1..<Suc (8 * ?l)] @ [Suc (8 * ?l)..<Suc (8 * ?l + 8)]"
      using upt_add_eq_append [of 1 "Suc (8 * ?l)" 8] by (simp add: add.commute del: upt_Suc)
    moreover have "filter (\<lambda>n. bit ((octetos @ [b]) ! ((n - 1) div 8)) ((n - 1) mod 8) \<noteq> inverso) [1..<Suc (8 * ?l)] =
        filter (\<lambda>n. bit (octetos ! ((n - 1) div 8)) ((n - 1) mod 8) \<noteq> inverso) [1..<Suc (8 * ?l)]"
      by (rule filter_cong) (auto simp: nth_append)
    moreover have "filter (\<lambda>n. bit ((octetos @ [b]) ! ((n - 1) div 8)) ((n - 1) mod 8) \<noteq> inverso) [Suc (8 * ?l)..<Suc (8 * ?l + 8)] =
        filter (\<lambda>n. bit b ((n - 1) mod 8) \<noteq> inverso) [Suc (8 * ?l)..<Suc (8 * ?l + 8)]"
    proof (rule filter_cong)
      fix n
      assume "n \<in> set [Suc (8 * ?l)..<Suc (8 * ?l + 8)]"
      then have "(n - 1) div 8 = ?l" by (auto simp: less_Suc_eq_le)
      then show "(bit ((octetos @ [b]) ! ((n - 1) div 8)) ((n - 1) mod 8) \<noteq> inverso) = (bit b ((n - 1) mod 8) \<noteq> inverso)"
        by simp
    qed simp
    ultimately show ?case using snoc.IH um by (simp del: upt_Suc)
  qed
qed

text \<open>C34. The report fails on exactly these payloads: shorter than 38 octets, with \<^verbatim>\<open>TypeError\<close> when the version has not its
  three octets and \<^verbatim>\<open>IndexError\<close> otherwise, or with \<^verbatim>\<open>KeyError\<close> on the value 2 of the armed state, which has no text.\<close>

theorem status_erros:
  "(case status_de p of
      Inl e \<Rightarrow> e = (if p = [] then IndexError else if length p < 4 then TypeError else if length p < 21 then IndexError
          else if drop_bit 5 (p ! 20) AND 0x03 = 2 then KeyError else IndexError)
    | Inr s \<Rightarrow> s_amt8000 s = (p ! 0 = 1) \<and> s_firmware s = (p ! 1, p ! 2, p ! 3) \<and>
        map p_numero (s_particoes s) = filter (\<lambda>k. p ! (21 + k) AND 0x80 \<noteq> 0) [0..<17]) \<and>
    (isl (status_de p) \<longleftrightarrow> length p < 38 \<or> drop_bit 5 (p ! 20) AND 0x03 = 2)"
proof -
  let ?q = "0 # p"
  have fw: "firmware_de (fatia 2 5 ?q) = (if length p < 4 then Inl TypeError else Inr (p ! 1, p ! 2, p ! 3))"
  proof (cases "length p < 4")
    case True
    then have "length (fatia 2 5 ?q) < 3" by (auto simp: min_def)
    with True show ?thesis by (auto simp: firmware_de_def split: list.split dest: arg_cong [where f = length])
  next
    case False
    then obtain a b c d r where "p = a # b # c # d # r"
      by (metis Suc_le_length_iff Suc_numeral eval_nat_numeral(2) eval_nat_numeral(3) not_less numeral_One One_nat_def semiring_norm(26) semiring_norm(27))
    then show ?thesis by (simp add: firmware_de_def fatia_def)
  qed
  have laco: "particoes_laco ks ?q =
      (if \<exists>k\<in>set ks. length p \<le> 21 + k then Inl IndexError
       else Inr (map (\<lambda>k. particao_status_de k (p ! (21 + k))) (filter (\<lambda>k. p ! (21 + k) AND 0x80 \<noteq> 0) ks)))" for ks
    by (induction ks) (auto simp: py_nth_def tem_bit_def)
  have falta: "(\<exists>k\<in>set [0..<17]. length p \<le> 21 + k) \<longleftrightarrow> length p < 38"
    by (auto intro: bexI [of _ "16"])
  have num: "map p_numero (map (\<lambda>k. particao_status_de k (g k)) ks) = ks" for g ks
    by (induction ks) (simp_all add: particao_status_de_def)
  have tres: "drop_bit 5 x AND 0x03 \<in> {0, 1, 2, 3}" for x :: int
  proof -
    have "drop_bit 5 x AND 3 = drop_bit 5 x mod 4" using take_bit_eq_mask [of 2 "drop_bit 5 x"]
      by (simp add: take_bit_eq_mod mask_eq_exp_minus_1)
    then show ?thesis by auto
  qed
  have arm: "armado_de n = (if n = 2 then Inl KeyError else Inr (if n = 0 then Desarmado else if n = 1 then ParticoesArmadas else TodasArmadas))"
    if "n \<in> {0, 1, 2, 3}" for n using that by (auto simp: armado_de_def)
  consider "p = []" | "p \<noteq> []" "length p < 4" | "4 \<le> length p" "length p < 21" | "21 \<le> length p" by fastforce
  then show ?thesis
  proof cases
    case 4
    then have "py_nth ?q 1 = Inr (p ! 0)" "py_nth ?q 21 = Inr (p ! 20)" by (auto simp: py_nth_def)
    with 4 show ?thesis
      unfolding status_de_def Let_def fw laco falta
      using arm [OF tres, of "p ! 20"] num by (auto split: if_splits)
  qed (auto simp: status_de_def fw Let_def py_nth_def)
qed

end
