(* ===== verification/Sessao.thy ===== *)
theory Sessao
  imports InvComando
begin

text \<open>
  A whole session of \<^verbatim>\<open>ComandarCentral\<close> with a panel (\<^verbatim>\<open>alarmeitbl/comandos.py\<close>,
  \<^verbatim>\<open>alarmeitbl/obtem_fotos.py\<close>): the stages it goes through, every octet it sends and every
  packet it accepts, from the connection to the farewell, for each of its subclasses.
\<close>

subsection \<open>Operations that only touch the timer\<close>

definition iguais :: "nat \<Rightarrow> mundo \<Rightarrow> mundo \<Rightarrow> bool" where
  "iguais h w w' \<longleftrightarrow>
    coms w' h = coms w h \<and> conns w' h = conns w h \<and> saidas w' = saidas w \<and> hobjs w' = hobjs w \<and> amb w' = amb w"

lemma rearma_iguais: "rearma_conn_timeout h w = Inr w' \<Longrightarrow> iguais h' w w'"
  by (auto simp: rearma_conn_timeout_def restart_def restart_int_def arma_def iguais_def split: if_splits)

lemma cancela_iguais: "cancela_conn_timeout h w = Inr w' \<Longrightarrow> iguais h' w w'"
  by (auto simp: cancela_conn_timeout_def cancel_def alive_def iguais_def res_bind_Inr_iff split: if_splits)

lemma cancel_inval_hobjs:
  "cancel_inval_laco own ts w = Inr w' \<Longrightarrow> hobjs w' = hobjs (w :: mundo)"
proof (induction ts arbitrary: w)
  case (Cons t ts)
  show ?case
  proof (cases "own = to_owner (tobjs w t)")
    case True
    with Cons.prems obtain v where v: "invalidate t w = Inr v"
      "cancel_inval_laco own ts (v\<lparr>pending := remove1 t (pending v)\<rparr>) = Inr w'"
      by (auto simp: res_bind_Inr_iff)
    then have "hobjs v = hobjs w" by (auto simp: invalidate_def split: if_splits)
    with Cons.IH [OF v(2)] show ?thesis by simp
  next
    case False
    with Cons show ?thesis by simp
  qed
qed simp

lemma destroy_destruido: "destroy cfg h w = Inr w' \<Longrightarrow> h_destroyed (hobjs w' h)"
  by (auto simp: destroy_def handler_destroy_def cancel_and_inval_by_owner_def res_bind_Inr_iff Let_def
      split: if_splits dest!: cancel_inval_hobjs)

subsection \<open>What is sent\<close>

lemma autenticacao_Inr:
  assumes "autenticacao h w = Inr w'"
  shows "conns w' h = (conns w h)\<lparr>send_buf := send_buf (conns w h) @
      pacote_isecnet2_auth (senha (coms w h)) (tam_senha (coms w h))\<rparr> \<and>
    coms w' h = (coms w h)\<lparr>tratador_fase := RespostaAutenticacao\<rparr> \<and> saidas w' = saidas w"
  using assms rearma_iguais [where h' = h] by (fastforce simp: autenticacao_def tcp_send_def Let_def iguais_def)

lemma envia_comando_Inr:
  assumes "envia_comando h cmd p w = Inr w'"
  shows "conns w' h = (conns w h)\<lparr>send_buf := send_buf (conns w h) @ pacote_isecnet2 cmd p\<rparr> \<and>
    coms w' h = (coms w h)\<lparr>cmd_enviado := cmd, tratador_fase := RespostaComando\<rparr> \<and> saidas w' = saidas w"
  using assms rearma_iguais [where h' = h] by (fastforce simp: envia_comando_def tcp_send_def Let_def iguais_def)

lemma despedida_Inr:
  assumes "despedida h w = Inr w'"
  shows "conns w' h = (conns w h)\<lparr>send_buf := send_buf (conns w h) @ pacote_isecnet2_bye\<rparr> \<and>
    coms w' h = (coms w h)\<lparr>tratador_fase := SemTratador, status := 0\<rparr> \<and> saidas w' = saidas w"
  using assms rearma_iguais [where h' = h] by (fastforce simp: despedida_def tcp_send_def Let_def iguais_def)

subsection \<open>The protocol, abstractly\<close>

datatype etapa = Conectando | Autenticando | Comandando | Despedindo

definition etapa_de :: "nat \<Rightarrow> mundo \<Rightarrow> etapa" where
  "etapa_de h w =
    (if connecting (conns w h) then Conectando
     else case tratador_fase (coms w h) of
       RespostaAutenticacao \<Rightarrow> Autenticando | RespostaComando \<Rightarrow> Comandando | SemTratador \<Rightarrow> Despedindo)"

text \<open>Command code and payload of each request; \<open>0xff\<close> stands for all partitions, zones count from 0.\<close>

definition comando_de :: "subclasse \<Rightarrow> int \<times> int list" where
  "comando_de s =
    (case s of
       AtivarDesativarCentral p sc \<Rightarrow> (0x401e, [case p of None \<Rightarrow> 0xff | Some n \<Rightarrow> n, sc])
     | DesligarSirene p \<Rightarrow> (0x4019, [case p of None \<Rightarrow> 0xff | Some n \<Rightarrow> n])
     | LimparDisparo \<Rightarrow> (0x4013, [])
     | CancelarZona z \<Rightarrow> (0x401f, [the z - 1, 1])
     | ReativarZona z \<Rightarrow> (0x401f, [the z - 1, 0])
     | SolicitarStatus \<Rightarrow> (0x0b4a, [])
     | ObtemFotosDeEvento f \<Rightarrow> (0x0bb0, be16 (of_indice f) @ [of_nrfoto f, fragmento_corrente f]))"

text \<open>A command on a zone has one; without it, nothing can be requested.\<close>

definition zona_ok :: "subclasse \<Rightarrow> bool" where
  "zona_ok s =
    (case s of CancelarZona z \<Rightarrow> \<not> zona_invalida z | ReativarZona z \<Rightarrow> \<not> zona_invalida z | _ \<Rightarrow> True)"

text \<open>Everything requested so far: one packet, or one for each fragment of the photo up to the current one.\<close>

definition pedidos :: "subclasse \<Rightarrow> int list" where
  "pedidos s =
    (case s of
       ObtemFotosDeEvento f \<Rightarrow>
         concat (map (\<lambda>k. pacote_isecnet2 0x0bb0 (be16 (of_indice f) @ [of_nrfoto f, k])) [1..fragmento_corrente f])
     | _ \<Rightarrow> pacote_isecnet2 (fst (comando_de s)) (snd (comando_de s)))"

text \<open>Response \<open>(c, p)\<close> carries fragment \<open>k\<close> of the photo; octet 5 is the number of fragments.\<close>

fun fragmento_de :: "obtencao \<Rightarrow> int \<Rightarrow> int \<times> int list \<Rightarrow> bool" where
  "fragmento_de f k (c, p) \<longleftrightarrow>
    (c = 0x0bb0 \<or> c = 0xf0fe) \<and> 6 \<le> length p \<and> p ! 0 * 256 + p ! 1 = of_indice f \<and>
    p ! 2 = of_nrfoto f \<and> p ! 4 = k"

definition ha_mais :: "int \<times> int list \<Rightarrow> bool" where
  "ha_mais r \<longleftrightarrow> snd r ! 4 < snd r ! 5"

text \<open>The responses \<open>ps\<close> accepted after the authentication, while requesting and at the end.\<close>

definition respostas :: "bool \<Rightarrow> subclasse \<Rightarrow> saida list \<Rightarrow> (int \<times> int list) list \<Rightarrow> bool" where
  "respostas fim s sai ps \<longleftrightarrow>
    (case s of
       ObtemFotosDeEvento f \<Rightarrow>
         list_all2 (fragmento_de f) [1..int (length ps)] ps \<and>
         jpeg_corrente f = concat (map (\<lambda>r. drop 6 (snd r)) ps) \<and>
         (if fim then ps \<noteq> [] \<and> fragmento_corrente f = int (length ps) \<and> list_all ha_mais (butlast ps) \<and>
            \<not> ha_mais (last ps) \<and> GravaArquivo (of_arquivo f) (jpeg_corrente f) \<in> set sai
          else fragmento_corrente f = int (length ps) + 1 \<and> list_all ha_mais ps)
     | _ \<Rightarrow>
         (if fim then \<exists>c p. ps = [(c, p)] \<and> (c = fst (comando_de s) \<or> c = 0xf0fe) \<and>
            (s = SolicitarStatus \<longrightarrow> (\<exists>r. status_de p = Inr r \<and> ImprimeStatus r \<in> set sai))
          else ps = []))"

definition mesma_sub :: "subclasse \<Rightarrow> subclasse \<Rightarrow> bool" where
  "mesma_sub s s' \<longleftrightarrow>
    (case s of
       ObtemFotosDeEvento g \<Rightarrow>
         (\<exists>f. s' = ObtemFotosDeEvento f \<and> of_indice f = of_indice g \<and> of_nrfoto f = of_nrfoto g \<and>
           of_folder f = of_folder g)
     | _ \<Rightarrow> s' = s)"

definition mesma_tarefa :: "comando \<Rightarrow> comando \<Rightarrow> bool" where
  "mesma_tarefa D C \<longleftrightarrow>
    observer C = observer D \<and> senha C = senha D \<and> tam_senha C = tam_senha D \<and> mesma_sub (sub D) (sub C)"

lemma mesma_sub_refl [simp]: "mesma_sub s s"
  by (simp add: mesma_sub_def split: subclasse.split)

lemma mesma_sub_foto:
  "mesma_sub s (ObtemFotosDeEvento g) \<Longrightarrow> of_indice f = of_indice g \<Longrightarrow> of_nrfoto f = of_nrfoto g \<Longrightarrow>
    of_folder f = of_folder g \<Longrightarrow> mesma_sub s (ObtemFotosDeEvento f)"
  by (auto simp: mesma_sub_def split: subclasse.splits)

definition sessao_ok :: "nat \<Rightarrow> comando \<Rightarrow> int list \<Rightarrow> (int \<times> int list) list \<Rightarrow> mundo \<Rightarrow> bool" where
  "sessao_ok h D env rs w \<longleftrightarrow>
    (let C = coms w h; enviado = env @ send_buf (conns w h); auth = pacote_isecnet2_auth (senha D) (tam_senha D)
     in mesma_tarefa D C \<and> bytes (recv_buf (conns w h)) \<and>
       (case etapa_de h w of
          Conectando \<Rightarrow> enviado = [] \<and> rs = [] \<and> status C \<noteq> 0 \<and> tratador_fase C = SemTratador
        | Autenticando \<Rightarrow> enviado = auth \<and> rs = [] \<and> status C \<noteq> 0
        | Comandando \<Rightarrow> enviado = auth @ pedidos (sub C) \<and> status C \<noteq> 0 \<and> zona_ok (sub C) \<and>
            cmd_enviado C = fst (comando_de (sub C)) \<and>
            (\<exists>ps. rs = (0xf0f0, [0]) # ps \<and> respostas False (sub C) (saidas w) ps)
        | Despedindo \<Rightarrow> enviado = auth @ pedidos (sub C) @ pacote_isecnet2_bye \<and> status C = 0 \<and> zona_ok (sub C) \<and>
            (\<exists>ps. rs = (0xf0f0, [0]) # ps \<and> respostas True (sub C) (saidas w) ps)))"

subsection \<open>The session as a sequence of callbacks\<close>

text \<open>What a callback hands to the socket, and the packet it takes from the buffer.\<close>

definition escrito :: "nat \<Rightarrow> mundo \<Rightarrow> int list" where
  "escrito h w =
    (if connecting (conns w h) then []
     else case a_send (amb w) of SendErro \<Rightarrow> [] | SendOk n \<Rightarrow> take (nat n) (send_buf (conns w h)))"

definition lido :: "nat \<Rightarrow> mundo \<Rightarrow> (int \<times> int list) list" where
  "lido h w =
    (case a_recv (amb w) of
       RecvErro \<Rightarrow> []
     | RecvDados data \<Rightarrow>
         let buf = recv_buf (conns w h) @ data; n = tam_isecnet buf
         in if n = 0 then []
            else case pacote_isecnet2_parse (take n buf) of Inl _ \<Rightarrow> [] | Inr r \<Rightarrow> [r])"

text \<open>
  \<open>sessao cfg h D env rs w\<close>: the connection \<open>h\<close>, created with the attributes \<open>D\<close>, has handed the
  octets \<open>env\<close> to its socket and taken the packets \<open>rs\<close> from it, and lives on in \<open>w\<close>. Between its
  callbacks the rest of the program may run.
\<close>

inductive sessao :: "config \<Rightarrow> nat \<Rightarrow> comando \<Rightarrow> int list \<Rightarrow> (int \<times> int list) list \<Rightarrow> mundo \<Rightarrow> bool"
  for cfg h where
  abre: "conns w h = \<lparr>recv_buf = [], send_buf = [], connecting = True\<rparr> \<Longrightarrow>
    tratador_fase (coms w h) = SemTratador \<Longrightarrow> status (coms w h) \<noteq> 0 \<Longrightarrow> sessao cfg h (coms w h) [] [] w"
| outros: "sessao cfg h D env rs w \<Longrightarrow> coms w' h = coms w h \<Longrightarrow> conns w' h = conns w h \<Longrightarrow>
    set (saidas w) \<subseteq> set (saidas w') \<Longrightarrow> sessao cfg h D env rs w'"
| escreve: "sessao cfg h D env rs w \<Longrightarrow> com_write_callback cfg h w = Inr w' \<Longrightarrow>
    \<not> h_destroyed (hobjs w' h) \<Longrightarrow> sessao cfg h D (env @ escrito h w) rs w'"
| le: "sessao cfg h D env rs w \<Longrightarrow> recv_valido (a_recv (amb w)) \<Longrightarrow> com_read_callback cfg h w = Inr w' \<Longrightarrow>
    \<not> h_destroyed (hobjs w' h) \<Longrightarrow> sessao cfg h D env (rs @ lido h w) w'"

inductive_cases sessao_elim: "sessao cfg h D env rs w"

subsection \<open>Every callback follows the protocol\<close>

lemma respostas_mono: "respostas fim s sai ps \<Longrightarrow> set sai \<subseteq> set sai' \<Longrightarrow> respostas fim s sai' ps"
  by (auto simp: respostas_def split: subclasse.splits if_splits)

lemma mesma_tarefa_refl [simp]: "mesma_tarefa D D"
  by (simp add: mesma_tarefa_def)

lemma sessao_ok_mono:
  assumes "sessao_ok h D env rs w" and "coms w' h = coms w h" and "conns w' h = conns w h"
    and "set (saidas w) \<subseteq> set (saidas w')"
  shows "sessao_ok h D env rs w'"
  using assms respostas_mono [OF _ assms(4)]
  by (auto simp: sessao_ok_def etapa_de_def Let_def split: fase.splits)

lemma sessao_ok_iguais: "sessao_ok h D env rs w \<Longrightarrow> iguais h w w' \<Longrightarrow> sessao_ok h D env rs w'"
  by (erule sessao_ok_mono) (simp_all add: iguais_def)

lemma conectado_ok:
  assumes "sessao_ok h D env rs w" and "connecting (conns w h)"
    and "client_conectou (destroy cfg) connection_callback h w = Inr w'" and "\<not> h_destroyed (hobjs w' h)"
  shows "sessao_ok h D env rs w'"
proof -
  let ?w = "muda_conn h (\<lambda>c. c\<lparr>connecting := False\<rparr>) w"
  from assms(3,4) have "connection_callback h True ?w = Inr w'"
    by (auto simp: client_conectou_def Let_def res_bind_Inr_iff split: if_splits dest: destroy_destruido)
  then obtain v where v: "cancela_conn_timeout h ?w = Inr v" "autenticacao h v = Inr w'"
    by (auto simp: connection_callback_def res_bind_Inr_iff)
  with cancela_iguais [OF v(1), of h] autenticacao_Inr [OF v(2)] assms(1,2) show ?thesis
    by (auto simp: sessao_ok_def etapa_de_def iguais_def mesma_tarefa_def Let_def split: fase.splits)
qed

lemma escreve_ok:
  assumes "sessao_ok h D env rs w" and "com_write_callback cfg h w = Inr w'" and "\<not> h_destroyed (hobjs w' h)"
  shows "sessao_ok h D (env @ escrito h w) rs w'"
proof (cases "connecting (conns w h)")
  case True
  with assms(2) have "client_conectou (destroy cfg) connection_callback h w = Inr w'"
    by (simp add: com_write_callback_def client_send_callback_def)
  from conectado_ok [OF assms(1) True this assms(3)] True show ?thesis by (simp add: escrito_def)
next
  case False
  with assms(2,3) obtain n where n: "a_send (amb w) = SendOk n"
    "w' = muda_conn h (\<lambda>c. c\<lparr>send_buf := drop (nat n) (send_buf c)\<rparr>) w"
    by (auto simp: com_write_callback_def client_send_callback_def split: if_splits send_res.splits
        dest: destroy_destruido)
  from assms(1) False show ?thesis
    by (auto simp: sessao_ok_def etapa_de_def escrito_def n Let_def split: fase.splits)
qed

text \<open>A response while authenticating.\<close>

lemma pedidos_primeiro:
  "sub C = ObtemFotosDeEvento f \<Longrightarrow> fragmento_corrente f = 1 \<Longrightarrow>
    pedidos (sub C) = pacote_isecnet2 0x0bb0 (be16 (of_indice f) @ [of_nrfoto f, 1])"
  by (simp add: pedidos_def)

lemma envia_comando_in_ok:
  assumes "envia_comando_in h w = Inr w'" and "mesma_tarefa D (coms w h)"
  shows "conns w' h = (conns w h)\<lparr>send_buf := send_buf (conns w h) @ pedidos (sub (coms w' h))\<rparr> \<and>
    tratador_fase (coms w' h) = RespostaComando \<and> status (coms w' h) = status (coms w h) \<and>
    cmd_enviado (coms w' h) = fst (comando_de (sub (coms w' h))) \<and>
    mesma_tarefa D (coms w' h) \<and> respostas False (sub (coms w' h)) (saidas w') [] \<and> saidas w' = saidas w \<and>
    zona_ok (sub (coms w' h))"
proof (cases "sub (coms w h)")
  case (ObtemFotosDeEvento f)
  let ?f = "f\<lparr>fragmento_corrente := 1, jpeg_corrente := []\<rparr>"
  let ?w = "muda_com h (\<lambda>c. c\<lparr>sub := ObtemFotosDeEvento ?f\<rparr>) w"
  from assms(1) ObtemFotosDeEvento
  have "envia_comando h 0x0bb0 (be16 (of_indice f) @ [of_nrfoto f, 1]) ?w = Inr w'"
    by (simp add: envia_comando_in_def obtem_fragmento_foto_def Let_def)
  from envia_comando_Inr [OF this] ObtemFotosDeEvento assms(2) mesma_sub_foto [of _ f ?f] show ?thesis
    by (simp add: pedidos_def comando_de_def respostas_def mesma_tarefa_def zona_ok_def)
qed (use assms in \<open>auto simp: envia_comando_in_def comando_de_def pedidos_def respostas_def mesma_tarefa_def zona_ok_def
      split: if_splits option.splits dest!: envia_comando_Inr\<close>)

lemma resposta_autenticacao_ok:
  assumes "sessao_ok h D env [] w" and "etapa_de h w = Autenticando" and "bytes p"
    and "resposta_autenticacao cfg h c p w = Inr w'" and "\<not> h_destroyed (hobjs w' h)"
  shows "sessao_ok h D env [(c, p)] w'"
proof -
  have cp: "c = 0xf0f0 \<and> length p = 1 \<and> \<not> p ! 0 > 0 \<and> envia_comando_in h w = Inr w'"
    using assms(4,5)
    by (auto simp: resposta_autenticacao_def nak_def Let_def split: if_splits dest: destroy_destruido)
  then have "p = [0]" using assms(3) by (cases p) (auto simp: byte_def)
  with cp assms(1,2) envia_comando_in_ok [of h w w' D] show ?thesis
    by (auto simp: sessao_ok_def etapa_de_def Let_def split: if_splits fase.splits)
qed

text \<open>A response to a request.\<close>

lemma pedidos_seguinte:
  assumes "0 \<le> fragmento_corrente f"
  shows "pedidos (ObtemFotosDeEvento (f\<lparr>jpeg_corrente := j, fragmento_corrente := fragmento_corrente f + 1\<rparr>)) =
    pedidos (ObtemFotosDeEvento f) @
      pacote_isecnet2 0x0bb0 (be16 (of_indice f) @ [of_nrfoto f, fragmento_corrente f + 1])"
proof -
  have "[1..fragmento_corrente f + 1] = [1..fragmento_corrente f] @ [fragmento_corrente f + 1]"
    using assms upto_rec2 [of 1 "fragmento_corrente f + 1"] by simp
  then show ?thesis by (simp add: pedidos_def)
qed

lemma fragmento_de_campos:
  "of_indice f = of_indice g \<Longrightarrow> of_nrfoto f = of_nrfoto g \<Longrightarrow> fragmento_de f = fragmento_de g"
  by (simp add: fun_eq_iff split_paired_all)

lemma foto_resposta_ok:
  assumes ok: "sessao_ok h D env rs w" and e: "etapa_de h w = Comandando"
    and f: "sub (coms w h) = ObtemFotosDeEvento f" and c: "c = 0x0bb0 \<or> c = 0xf0fe"
    and r: "foto_resposta_comando_in cfg h f p w = Inr w'" and d: "\<not> h_destroyed (hobjs w' h)"
  shows "sessao_ok h D env (rs @ [(c, p)]) w'"
proof -
  from ok e f obtain ps where ps: "rs = (0xf0f0, [0]) # ps"
      "list_all2 (fragmento_de f) [1..int (length ps)] ps" "list_all ha_mais ps"
      "jpeg_corrente f = concat (map (\<lambda>r. drop 6 (snd r)) ps)" "fragmento_corrente f = int (length ps) + 1"
    and mt: "mesma_tarefa D (coms w h)" "bytes (recv_buf (conns w h))" "status (coms w h) \<noteq> 0"
    and env: "env @ send_buf (conns w h) =
        pacote_isecnet2_auth (senha D) (tam_senha D) @ pedidos (ObtemFotosDeEvento f)"
    and cmd: "cmd_enviado (coms w h) = 0x0bb0"
    by (auto simp: sessao_ok_def respostas_def comando_de_def Let_def)
  have nc: "\<not> connecting (conns w h)" using e by (auto simp: etapa_de_def)
  let ?g = "f\<lparr>jpeg_corrente := jpeg_corrente f @ drop 6 p\<rparr>"
  have len: "\<not> length p < 6"
    using r d by (auto simp: foto_resposta_comando_in_def dest: destroy_destruido)
  then have be: "parse_be16 (fatia 0 2 p) = Inr (p ! 0 * 256 + p ! 1)" by (simp add: parse_be16_def)
  have q: "p ! 0 * 256 + p ! 1 = of_indice f" "p ! 2 = of_nrfoto f" "p ! 4 = fragmento_corrente f"
    using r d len be
    by (auto simp: foto_resposta_comando_in_def Let_def split: if_splits dest: destroy_destruido)
  have fr: "fragmento_de f (int (length ps) + 1) (c, p)" using q len c ps(5) by simp
  have up: "[1..int (length (ps @ [(c, p)]))] = [1..int (length ps)] @ [int (length ps) + 1]"
    using upto_rec2 [of 1 "int (length ps) + 1"] by (simp add: add.commute)
  have la: "list_all2 (fragmento_de f) [1..int (length (ps @ [(c, p)]))] (ps @ [(c, p)])"
    unfolding up using ps(2) fr by (simp add: list_all2_appendI)
  show ?thesis
  proof (cases "p ! 4 < p ! 5")
    case True
    let ?f = "?g\<lparr>fragmento_corrente := fragmento_corrente f + 1\<rparr>"
    let ?w = "muda_com h (\<lambda>c. c\<lparr>sub := ObtemFotosDeEvento ?f\<rparr>) w"
    have "envia_comando h 0x0bb0 (be16 (of_indice f) @ [of_nrfoto f, fragmento_corrente f + 1]) ?w = Inr w'"
      using r len be q True by (simp add: foto_resposta_comando_in_def obtem_fragmento_foto_def Let_def)
    note w' = envia_comando_Inr [OF this]
    have "respostas False (ObtemFotosDeEvento ?f) (saidas w') (ps @ [(c, p)])"
      using la ps fragmento_de_campos [of ?f f] True by (simp add: respostas_def ha_mais_def)
    moreover have "mesma_tarefa D (coms w' h)"
      using w' mt(1) f mesma_sub_foto [of "sub D" f ?f] by (simp add: mesma_tarefa_def)
    moreover have "env @ send_buf (conns w' h) =
        pacote_isecnet2_auth (senha D) (tam_senha D) @ pedidos (ObtemFotosDeEvento ?f)"
    proof -
      have "pedidos (ObtemFotosDeEvento ?f) = pedidos (ObtemFotosDeEvento f) @
          pacote_isecnet2 0x0bb0 (be16 (of_indice f) @ [of_nrfoto f, fragmento_corrente f + 1])"
        using pedidos_seguinte [of f] ps(5) by simp
      then show ?thesis using w' env by simp
    qed
    ultimately show ?thesis
      using w' nc mt ps(1) by (simp add: sessao_ok_def etapa_de_def comando_de_def zona_ok_def Let_def)
  next
    case False
    let ?arq = "of_folder f @ ''/'' @ ''imagem.'' @ fmt_d (of_indice f) @ ''.'' @ fmt_d (of_nrfoto f) @
       ''.'' @ fmt_6f (agora w) @ ''.jpeg''"
    let ?f = "?g\<lparr>of_arquivo := ?arq\<rparr>"
    let ?w = "emite (GravaArquivo ?arq (jpeg_corrente ?f)) (muda_com h (\<lambda>c. c\<lparr>sub := ObtemFotosDeEvento ?f\<rparr>) w)"
    have "despedida h ?w = Inr w'"
      using r len be q False by (simp add: foto_resposta_comando_in_def Let_def split: if_splits)
    note w' = despedida_Inr [OF this]
    have "respostas True (ObtemFotosDeEvento ?f) (saidas w') (ps @ [(c, p)])"
      using la ps fragmento_de_campos [of ?f f] False w' by (simp add: respostas_def ha_mais_def)
    moreover have "mesma_tarefa D (coms w' h)"
      using w' mt(1) f mesma_sub_foto [of "sub D" f ?f] by (simp add: mesma_tarefa_def)
    moreover have "pedidos (ObtemFotosDeEvento ?f) = pedidos (ObtemFotosDeEvento f)" by (simp add: pedidos_def)
    ultimately show ?thesis
      using w' nc mt ps(1) env by (simp add: sessao_ok_def etapa_de_def zona_ok_def Let_def)
  qed
qed

lemma resposta_comando_ok:
  assumes ok: "sessao_ok h D env rs w" and e: "etapa_de h w = Comandando"
    and r: "resposta_comando cfg h c p w = Inr w'" and d: "\<not> h_destroyed (hobjs w' h)"
  shows "sessao_ok h D env (rs @ [(c, p)]) w'"
proof -
  from ok e have cmd: "cmd_enviado (coms w h) = fst (comando_de (sub (coms w h)))"
    by (simp add: sessao_ok_def Let_def)
  from r d cmd have c: "c = fst (comando_de (sub (coms w h))) \<or> c = 0xf0fe"
    and r': "resposta_comando_in cfg h p w = Inr w'"
    by (auto simp: resposta_comando_def nak_def Let_def split: if_splits dest: destroy_destruido)
  show ?thesis
  proof (cases "\<exists>f. sub (coms w h) = ObtemFotosDeEvento f")
    case True
    then obtain f where f: "sub (coms w h) = ObtemFotosDeEvento f" ..
    with c have "c = 0x0bb0 \<or> c = 0xf0fe" by (simp add: comando_de_def)
    with foto_resposta_ok [OF ok e f _ _ d] r' f show ?thesis by (simp add: resposta_comando_in_def)
  next
    case False
    have nc: "\<not> connecting (conns w h)" using e by (auto simp: etapa_de_def)
    from r' False obtain v where v: "despedida h v = Inr w'" "coms v h = coms w h" "conns v h = conns w h"
      "sub (coms w h) = SolicitarStatus \<longrightarrow> (\<exists>s. status_de p = Inr s \<and> ImprimeStatus s \<in> set (saidas v))"
      by (cases "sub (coms w h)") (auto simp: resposta_comando_in_def res_bind_Inr_iff)
    have rs': "rs = [(0xf0f0, [0])]"
      using False ok e by (cases "sub (coms w h)") (auto simp: sessao_ok_def respostas_def Let_def)
    have "respostas True (sub (coms w h)) (saidas v) [(c, p)]"
      using False c v(4) by (auto simp: respostas_def split: subclasse.split)
    with despedida_Inr [OF v(1)] v rs' ok e nc show ?thesis
      by (simp add: sessao_ok_def etapa_de_def mesma_tarefa_def Let_def)
  qed
qed

lemma parse_octetos: "pacote_isecnet2_parse pct = Inr (cmd, p) \<Longrightarrow> bytes pct \<Longrightarrow> bytes p"
  by (auto simp: pacote_isecnet2_parse_def res_bind_Inr_iff Let_def bytes_py_fatia)

text \<open>A read either leaves an incomplete packet in the buffer or takes exactly one, a correct one.\<close>

lemma le_casos:
  assumes b: "bytes (recv_buf (conns w h))" and v: "recv_valido (a_recv (amb w))"
    and r: "com_read_callback cfg h w = Inr w'" and d: "\<not> h_destroyed (hobjs w' h)"
  obtains data where "a_recv (amb w) = RecvDados data" and "lido h w = []"
      and "w' = poe_recv_buf h (recv_buf (conns w h) @ data) w" and "bytes data"
    | data n cmd p u where "a_recv (amb w) = RecvDados data" and "n = tam_isecnet (recv_buf (conns w h) @ data)"
      and "lido h w = [(cmd, p)]" and "bytes data" and "bytes p"
      and "pacote_isecnet2_correto (take n (recv_buf (conns w h) @ data)) = Inr True"
      and "pacote_isecnet2_parse (take n (recv_buf (conns w h) @ data)) = Inr (cmd, p)"
      and "cancela_conn_timeout h (poe_recv_buf h (drop n (recv_buf (conns w h) @ data)) w) = Inr u"
      and "tratador_fase (coms w h) = RespostaAutenticacao \<and> resposta_autenticacao cfg h cmd p u = Inr w' \<or>
        tratador_fase (coms w h) = RespostaComando \<and> resposta_comando cfg h cmd p u = Inr w'"
proof -
  from r d obtain data where data: "a_recv (amb w) = RecvDados data" "data \<noteq> []"
    by (auto simp: com_read_callback_def tcp_read_callback_def split: recv_res.splits if_splits dest: destroy_destruido)
  define b where "b = recv_buf (conns w h) @ data"
  let ?w = "poe_recv_buf h b w" and ?n = "tam_isecnet b"
  let ?v = "poe_recv_buf h (drop ?n b) w"
  from v data have bd: "bytes data" by (simp add: recv_valido_def)
  have bb: "bytes b" using assms(1) bd by (simp add: b_def)
  from r data have rc: "com_recv_callback cfg h data ?w = Inr w'"
    by (simp add: b_def com_read_callback_def tcp_read_callback_def)
  have buf: "recv_buf (conns ?w h) = b" "poe_recv_buf h x ?w = poe_recv_buf h x w" for x
    by (simp_all add: poe_recv_buf_def muda_conn_def)
  define compr where "compr = (if length b < 9 \<or> int (length b) < 7 + (b ! 4 * 256 + b ! 5) then 0
      else 7 + (b ! 4 * 256 + b ! 5))"
  have compr: "pacote_isecnet2_completo b = Inr compr" "?n = nat compr" "0 \<le> compr"
  proof -
    show c: "pacote_isecnet2_completo b = Inr compr" by (simp only: completo_eq compr_def)
    show "?n = nat compr" by (simp add: tam_isecnet_def c)
    have "9 \<le> length b \<Longrightarrow> 0 \<le> b ! 4" "9 \<le> length b \<Longrightarrow> 0 \<le> b ! 5"
      using bytes_nth [OF bb, of 4] bytes_nth [OF bb, of 5] by (simp_all add: byte_def)
    then show "0 \<le> compr" unfolding compr_def by (simp add: not_less)
  qed
  show ?thesis
  proof (cases "compr = 0")
    case True
    with rc buf compr have "w' = ?w" by (simp add: com_recv_callback_def)
    moreover have "lido h w = []" using True compr data by (simp add: lido_def b_def Let_def)
    ultimately show ?thesis using that(1) [OF data(1)] bd by (simp add: b_def)
  next
    case False
    then have n: "0 < ?n" using compr by simp
    let ?pct = "take ?n b"
    from rc compr False buf have
      "res_bind (pacote_isecnet2_correto ?pct) (\<lambda>correto. if \<not> correto then destroy cfg h ?v
         else res_bind (pacote_isecnet2_parse ?pct) (\<lambda>(cmd, payload).
           case tratador_fase (coms ?v h) of SemTratador \<Rightarrow> destroy cfg h ?v
           | RespostaAutenticacao \<Rightarrow> res_bind (cancela_conn_timeout h ?v) (resposta_autenticacao cfg h cmd payload)
           | RespostaComando \<Rightarrow> res_bind (cancela_conn_timeout h ?v) (resposta_comando cfg h cmd payload))) = Inr w'"
      unfolding compr(2) by (simp add: com_recv_callback_def Let_def)
    with d obtain cmd p where c: "pacote_isecnet2_correto ?pct = Inr True" "pacote_isecnet2_parse ?pct = Inr (cmd, p)"
      and f: "(case tratador_fase (coms ?v h) of SemTratador \<Rightarrow> destroy cfg h ?v
           | RespostaAutenticacao \<Rightarrow> res_bind (cancela_conn_timeout h ?v) (resposta_autenticacao cfg h cmd p)
           | RespostaComando \<Rightarrow> res_bind (cancela_conn_timeout h ?v) (resposta_comando cfg h cmd p)) = Inr w'"
      by (auto simp: res_bind_Inr_iff split: if_splits dest: destroy_destruido)
    have l: "lido h w = [(cmd, p)]" using n c(2) data by (simp add: lido_def b_def Let_def)
    have fv: "tratador_fase (coms ?v h) = tratador_fase (coms w h)" by (simp add: poe_recv_buf_def)
    from f d obtain u where u: "cancela_conn_timeout h ?v = Inr u"
      and g: "tratador_fase (coms ?v h) = RespostaAutenticacao \<and> resposta_autenticacao cfg h cmd p u = Inr w' \<or>
        tratador_fase (coms ?v h) = RespostaComando \<and> resposta_comando cfg h cmd p u = Inr w'"
      by (auto simp: res_bind_Inr_iff split: fase.splits dest: destroy_destruido)
    have bp: "bytes p" by (rule parse_octetos [OF c(2) bytes_take [OF bb]])
    show ?thesis
      by (rule that(2) [OF data(1) refl l bd bp, folded b_def, OF c u]) (use g fv in simp)
  qed
qed

lemma le_ok:
  assumes ok: "sessao_ok h D env rs w" and v: "recv_valido (a_recv (amb w))"
    and r: "com_read_callback cfg h w = Inr w'" and d: "\<not> h_destroyed (hobjs w' h)"
  shows "sessao_ok h D env (rs @ lido h w) w'"
proof -
  have b: "bytes (recv_buf (conns w h))" using ok by (simp add: sessao_ok_def Let_def)
  have okb: "sessao_ok h D env rs (poe_recv_buf h x w)" if "bytes x" for x
    using ok that by (auto simp: sessao_ok_def etapa_de_def poe_recv_buf_def Let_def split: fase.splits)
  from le_casos [OF b v r d] show ?thesis
  proof cases
    case (1 data)
    with okb [of "recv_buf (conns w h) @ data"] b show ?thesis by simp
  next
    case (2 data n cmd p u)
    let ?v = "poe_recv_buf h (drop n (recv_buf (conns w h) @ data)) w"
    have "bytes (drop n (recv_buf (conns w h) @ data))" using b 2(4) by (intro bytes_drop) simp
    then have oku: "sessao_ok h D env rs u" by (rule sessao_ok_iguais [OF okb cancela_iguais [OF 2(8)]])
    have fu: "tratador_fase (coms u h) = tratador_fase (coms w h)"
      using cancela_iguais [OF 2(8), of h] by (simp add: iguais_def poe_recv_buf_def)
    have nc: "\<not> connecting (conns u h)"
    proof
      assume "connecting (conns u h)"
      with oku have "tratador_fase (coms u h) = SemTratador" by (simp add: sessao_ok_def etapa_de_def Let_def)
      with 2(9) fu show False by simp
    qed
    from 2(9) show ?thesis
    proof
      assume g: "tratador_fase (coms w h) = RespostaAutenticacao \<and> resposta_autenticacao cfg h cmd p u = Inr w'"
      with fu nc have e: "etapa_de h u = Autenticando" by (simp add: etapa_de_def)
      with oku have rs: "rs = []" by (simp add: sessao_ok_def Let_def)
      with resposta_autenticacao_ok [OF _ e 2(5) conjunct2 [OF g] d, of D env] oku 2(3) show ?thesis by simp
    next
      assume g: "tratador_fase (coms w h) = RespostaComando \<and> resposta_comando cfg h cmd p u = Inr w'"
      with fu nc have e: "etapa_de h u = Comandando" by (simp add: etapa_de_def)
      from resposta_comando_ok [OF oku e conjunct2 [OF g] d] 2(3) show ?thesis by simp
    qed
  qed
qed

lemma sessao_sessao_ok: "sessao cfg h D env rs w \<Longrightarrow> sessao_ok h D env rs w"
proof (induction rule: sessao.induct)
  case (abre w)
  then show ?case by (simp add: sessao_ok_def etapa_de_def)
next
  case outros
  then show ?case by (blast intro: sessao_ok_mono)
next
  case escreve
  then show ?case by (blast intro: escreve_ok)
next
  case le
  then show ?case by (blast intro: le_ok)
qed

subsection \<open>The stream received\<close>

text \<open>The octets \<open>rec\<close> received are those of the packets \<open>rs\<close> accepted, each correct, and what waits.\<close>

definition fluxo :: "nat \<Rightarrow> int list \<Rightarrow> (int \<times> int list) list \<Rightarrow> mundo \<Rightarrow> bool" where
  "fluxo h rec rs w \<longleftrightarrow>
    (\<exists>qs. rec = concat qs @ recv_buf (conns w h) \<and>
      list_all2 (\<lambda>q r. pacote_isecnet2_correto q = Inr True \<and> pacote_isecnet2_parse q = Inr r) qs rs)"

definition chegou :: "mundo \<Rightarrow> int list" where
  "chegou w = (case a_recv (amb w) of RecvErro \<Rightarrow> [] | RecvDados data \<Rightarrow> data)"

lemma envia_comando_in_buf:
  "envia_comando_in h w = Inr w' \<Longrightarrow> recv_buf (conns w' h) = recv_buf (conns w h)"
  by (auto simp: envia_comando_in_def obtem_fragmento_foto_def Let_def split: subclasse.splits if_splits
      dest!: envia_comando_Inr)

lemma resposta_comando_buf:
  assumes "resposta_comando cfg h c p w = Inr w'" and "\<not> h_destroyed (hobjs w' h)"
  shows "recv_buf (conns w' h) = recv_buf (conns w h)"
proof -
  from assms have r: "resposta_comando_in cfg h p w = Inr w'"
    by (auto simp: resposta_comando_def nak_def Let_def split: if_splits dest: destroy_destruido)
  show ?thesis
  proof (cases "sub (coms w h)")
    case (ObtemFotosDeEvento f)
    with r assms(2) show ?thesis
      by (auto simp: resposta_comando_in_def foto_resposta_comando_in_def obtem_fragmento_foto_def res_bind_Inr_iff
          Let_def split: if_splits dest: destroy_destruido dest!: envia_comando_Inr despedida_Inr)
  qed (use r in \<open>auto simp: resposta_comando_in_def res_bind_Inr_iff dest!: despedida_Inr\<close>)
qed

lemma le_fluxo:
  assumes "fluxo h rec rs w" and "bytes (recv_buf (conns w h))" and "recv_valido (a_recv (amb w))"
    and r: "com_read_callback cfg h w = Inr w'" and d: "\<not> h_destroyed (hobjs w' h)"
  shows "fluxo h (rec @ chegou w) (rs @ lido h w) w'"
proof -
  from assms(1) obtain qs where qs: "rec = concat qs @ recv_buf (conns w h)"
    "list_all2 (\<lambda>q r. pacote_isecnet2_correto q = Inr True \<and> pacote_isecnet2_parse q = Inr r) qs rs"
    by (auto simp: fluxo_def)
  from le_casos [OF assms(2-5)] show ?thesis
  proof cases
    case (1 data)
    then show ?thesis unfolding fluxo_def
      by (intro exI [of _ qs]) (simp add: qs chegou_def poe_recv_buf_def)
  next
    case (2 data n cmd p u)
    have u: "recv_buf (conns w' h) = recv_buf (conns u h)"
      using 2(9) resposta_comando_buf [OF _ d] d
      by (auto simp: resposta_autenticacao_def nak_def Let_def res_bind_Inr_iff split: if_splits
          dest: destroy_destruido envia_comando_in_buf)
    define b where "b = recv_buf (conns w h) @ data"
    note 2 [folded b_def]
    moreover have "recv_buf (conns w' h) = drop n b"
      using u cancela_iguais [OF 2(8), of h]
      by (simp add: iguais_def poe_recv_buf_def b_def)
    moreover have "rec @ chegou w = concat qs @ b" using qs(1) 2(1) by (simp add: chegou_def b_def)
    ultimately show ?thesis using qs(2) unfolding fluxo_def
      by (intro exI [of _ "qs @ [take n b]"]) (simp add: list_all2_appendI)
  qed
qed

lemma escreve_fluxo:
  assumes "fluxo h rec rs w" and "com_write_callback cfg h w = Inr w'" and "\<not> h_destroyed (hobjs w' h)"
  shows "fluxo h rec rs w'"
proof -
  have "recv_buf (conns w' h) = recv_buf (conns w h)"
    using assms(2,3)
    by (auto simp: com_write_callback_def client_send_callback_def client_conectou_def connection_callback_def Let_def
        iguais_def res_bind_Inr_iff split: if_splits send_res.splits dest: destroy_destruido
        dest!: autenticacao_Inr cancela_iguais [where h' = h])
  with assms(1) show ?thesis by (simp add: fluxo_def)
qed

subsection \<open>Properties\<close>

text \<open>A state with one connection to a panel, waiting to be established, for the examples.\<close>

definition amb_sessao :: ambiente where
  "amb_sessao = \<lparr>a_recv = RecvErro, a_send = SendErro, a_so_error = False, a_accept = AcceptErro,
     a_connect = ConnectPendente, a_open_ok = True,
     a_data_hora = \<lparr>ano = 2024, mes = 5, dia = 17, dia_semana = 4, hora = 13, minuto = 45, segundo = 9\<rparr>\<rparr>"

definition cfg_sessao :: config where
  "cfg_sessao = \<lparr>centrais = (\<lambda>_. True), maxconn = 2, caddr = ''auto'', cport = 9009, cfg_senha = 123456,
     cfg_tam_senha = 6, folder_dlfoto = ''.'', gancho_arquivo = None, gancho_central = ''./central'',
     gancho_ev = ''./ev'', gancho_msg = ''./msg'', gancho_watchdog = ''./wd''\<rparr>"

definition recebe :: "int \<Rightarrow> int list \<Rightarrow> mundo \<Rightarrow> mundo" where
  "recebe c p w = w\<lparr>amb := (amb w)\<lparr>a_recv := RecvDados (pacote_isecnet2 c p)\<rparr>\<rparr>"

definition fim_de :: "mundo res \<Rightarrow> mundo" where
  "fim_de m = (case m of Inl _ \<Rightarrow> mundo_vazio 0 amb_sessao | Inr w \<Rightarrow> w)"

definition sessao_0 :: mundo where
  "sessao_0 = fim_de (res_bind (obtem_fotos_init ''10.0.0.9'' 90 1 2 123456 6 ''.''
     ((mundo_vazio 0 amb_sessao)\<lparr>prox := 4\<rparr>)) (\<lambda>(h, w). Inr w))"

definition sessao_1 :: mundo where
  "sessao_1 = fim_de (com_write_callback cfg_sessao 5 sessao_0)"

definition sessao_2 :: mundo where
  "sessao_2 = fim_de (com_read_callback cfg_sessao 5 (recebe 0xf0f0 [0] sessao_1))"

definition sessao_3 :: mundo where
  "sessao_3 = fim_de (com_read_callback cfg_sessao 5 (recebe 0x0bb0 [0, 1, 2, 1, 1, 1, 0xff, 0xd8] sessao_2))"

lemma recebe_sel [simp]:
  "coms (recebe c p w) = coms w" "conns (recebe c p w) = conns w" "saidas (recebe c p w) = saidas w"
  "a_recv (amb (recebe c p w)) = RecvDados (pacote_isecnet2 c p)"
  by (simp_all add: recebe_def)

lemma fim_deI: "\<not> isl m \<Longrightarrow> m = Inr (fim_de m)"
  by (cases m) (simp_all add: fim_de_def)

lemma um_pacote:
  assumes "recv_buf (conns w h) = []" and "a_recv (amb w) = RecvDados (pacote_isecnet2 c p)"
  shows "com_read_callback cfg h w =
      (let v = poe_recv_buf h [] (poe_recv_buf h (pacote_isecnet2 c p) w)
       in case tratador_fase (coms w h) of
         SemTratador \<Rightarrow> destroy cfg h v
       | RespostaAutenticacao \<Rightarrow> res_bind (cancela_conn_timeout h v) (resposta_autenticacao cfg h c p)
       | RespostaComando \<Rightarrow> res_bind (cancela_conn_timeout h v) (resposta_comando cfg h c p))"
    and "lido h w = [(c, p)]"
  using assms pacote_completo [of c p "[]"] tam_isecnet_pacote [of c p]
  by (simp_all add: com_read_callback_def tcp_read_callback_def com_recv_callback_def pacote_nao_vazio poe_recv_buf_def
      pacote_correto pacote_parse lido_def Let_def)

lemma sessao_0_sel:
  "conns sessao_0 5 = \<lparr>recv_buf = [], send_buf = [], connecting = True\<rparr>"
  "tratador_fase (coms sessao_0 5) = SemTratador" "status (coms sessao_0 5) \<noteq> 0"
  by code_simp+

lemma sessao_1_sel:
  "\<not> isl (com_write_callback cfg_sessao 5 sessao_0)" "\<not> h_destroyed (hobjs sessao_1 5)"
  "recv_buf (conns sessao_1 5) = []" "escrito 5 sessao_0 = []"
  by code_simp+

lemma sessao_2_sel:
  shows "\<not> isl (com_read_callback cfg_sessao 5 (recebe 0xf0f0 [0] sessao_1))" "\<not> h_destroyed (hobjs sessao_2 5)"
  by code_simp+

lemma sessao_2_con:
  "conns sessao_2 5 = \<lparr>recv_buf = [], send_buf = pacote_isecnet2_auth 123456 6 @ pacote_isecnet2 0x0bb0 [0, 1, 2, 1],
     connecting = False\<rparr>"
  by code_simp

lemma sessao_2_com:
  "coms sessao_2 5 = \<lparr>observer = True, conn_timeout = 6, senha = 123456, tam_senha = 6, status = 2,
     tratador_fase = RespostaComando, cmd_enviado = 0x0bb0, sub = ObtemFotosDeEvento \<lparr>of_indice = 1, of_nrfoto = 2,
       of_arquivo = [], of_folder = ''.'', fragmento_corrente = 1, jpeg_corrente = []\<rparr>\<rparr>"
  by code_simp

lemma sessao_2_val: "\<not> to_invalid (tobjs sessao_2 6)" "a_open_ok (amb sessao_2)"
  by code_simp+

lemma despedida_total:
  assumes "\<not> to_invalid (tobjs w (conn_timeout (coms w h)))"
  shows "\<exists>w'. despedida h w = Inr w' \<and> hobjs w' = hobjs w \<and> status (coms w' h) = 0 \<and> sub (coms w' h) = sub (coms w h)"
  using assms by (simp add: despedida_def rearma_conn_timeout_def tcp_send_def restart_eq arma_def Let_def)

text \<open>The last fragment ends the download with success.\<close>

lemma ultimo_fragmento:
  assumes w: "recv_buf (conns w h) = []" "a_recv (amb w) = RecvDados (pacote_isecnet2 0x0bb0 p)"
    "tratador_fase (coms w h) = RespostaComando" "cmd_enviado (coms w h) = 0x0bb0"
    "sub (coms w h) = ObtemFotosDeEvento f" "\<not> to_invalid (tobjs w (conn_timeout (coms w h)))" "a_open_ok (amb w)"
    and p: "6 \<le> length p" "p ! 0 * 256 + p ! 1 = of_indice f" "p ! 2 = of_nrfoto f" "p ! 4 = fragmento_corrente f"
      "\<not> p ! 4 < p ! 5" "bytes (jpeg_corrente f @ drop 6 p)"
  shows "\<exists>w' g. com_read_callback cfg h w = Inr w' \<and> hobjs w' = hobjs w \<and> status (coms w' h) = 0 \<and>
    sub (coms w' h) = ObtemFotosDeEvento g \<and> of_indice g = of_indice f \<and> of_nrfoto g = of_nrfoto f"
proof -
  let ?v = "poe_recv_buf h [] (poe_recv_buf h (pacote_isecnet2 0x0bb0 p) w)"
  let ?u = "?v\<lparr>pending := remove1 (conn_timeout (coms w h)) (pending w)\<rparr>"
  let ?arq = "of_folder f @ ''/'' @ ''imagem.'' @ fmt_d (of_indice f) @ ''.'' @ fmt_d (of_nrfoto f) @
       ''.'' @ fmt_6f (agora w) @ ''.jpeg''"
  let ?f = "f\<lparr>jpeg_corrente := jpeg_corrente f @ drop 6 p, of_arquivo := ?arq\<rparr>"
  let ?x = "emite (GravaArquivo ?arq (jpeg_corrente f @ drop 6 p)) (muda_com h (\<lambda>c. c\<lparr>sub := ObtemFotosDeEvento ?f\<rparr>) ?u)"
  have "parse_be16 (fatia 0 2 p) = Inr (of_indice f)" using p(1,2) by (simp add: parse_be16_def)
  then have "foto_resposta_comando_in cfg h f p ?u = despedida h ?x"
    using p w(7) by (simp add: foto_resposta_comando_in_def poe_recv_buf_def Let_def)
  moreover have "cancela_conn_timeout h ?v = Inr ?u"
    using w(6) by (simp add: cancela_conn_timeout_def cancel_eq poe_recv_buf_def)
  ultimately have "com_read_callback cfg h w = despedida h ?x"
    using w um_pacote(1) [OF w(1,2), of cfg]
    by (simp add: resposta_comando_def resposta_comando_in_def poe_recv_buf_def Let_def)
  moreover have "\<not> to_invalid (tobjs ?x (conn_timeout (coms ?x h)))" using w(6) by (simp add: poe_recv_buf_def)
  ultimately show ?thesis using despedida_total [of ?x h] by (auto simp: poe_recv_buf_def)
qed

lemma sessao_3_sel:
  "\<not> isl (com_read_callback cfg_sessao 5 (recebe 0x0bb0 [0, 1, 2, 1, 1, 1, 0xff, 0xd8] sessao_2))"
  "\<not> h_destroyed (hobjs sessao_3 5)" "status (coms sessao_3 5) = 0"
  "\<exists>f. sub (coms sessao_3 5) = ObtemFotosDeEvento f \<and> of_indice f = 1 \<and> of_nrfoto f = 2"
proof -
  let ?f = "\<lparr>of_indice = 1, of_nrfoto = 2, of_arquivo = [], of_folder = ''.'', fragmento_corrente = 1, jpeg_corrente = []\<rparr>"
  let ?w = "recebe 0x0bb0 [0, 1, 2, 1, 1, 1, 0xff, 0xd8] sessao_2"
  have "hobjs ?w = hobjs sessao_2" "tobjs ?w = tobjs sessao_2" "a_open_ok (amb ?w) = a_open_ok (amb sessao_2)"
    by (simp_all add: recebe_def)
  then have "\<exists>w' g. com_read_callback cfg_sessao 5 ?w = Inr w' \<and> hobjs w' = hobjs ?w \<and> status (coms w' 5) = 0 \<and>
      sub (coms w' 5) = ObtemFotosDeEvento g \<and> of_indice g = of_indice ?f \<and> of_nrfoto g = of_nrfoto ?f"
    by (intro ultimo_fragmento [where p = "[0, 1, 2, 1, 1, 1, 0xff, 0xd8]"])
      (simp_all add: sessao_2_con sessao_2_com sessao_2_val bytes_def byte_def)
  then show "\<not> isl (com_read_callback cfg_sessao 5 ?w)" "\<not> h_destroyed (hobjs sessao_3 5)" "status (coms sessao_3 5) = 0"
    "\<exists>f. sub (coms sessao_3 5) = ObtemFotosDeEvento f \<and> of_indice f = 1 \<and> of_nrfoto f = 2"
    using sessao_2_sel(2) \<open>hobjs ?w = hobjs sessao_2\<close> by (auto simp: sessao_3_def fim_de_def)
qed

lemma sessao_aberta: "sessao cfg_sessao 5 (coms sessao_0 5) [] [] sessao_0"
  by (rule sessao.abre) (simp_all add: sessao_0_sel)

lemma sessao_conectada: "sessao cfg_sessao 5 (coms sessao_0 5) [] [] sessao_1"
proof -
  have "com_write_callback cfg_sessao 5 sessao_0 = Inr sessao_1"
    using fim_deI [OF sessao_1_sel(1)] by (simp add: sessao_1_def)
  from sessao.escreve [OF sessao_aberta this sessao_1_sel(2)] show ?thesis by (simp add: sessao_1_sel)
qed

lemma sessao_recebe:
  assumes "sessao cfg_sessao 5 D env rs w" and "recv_buf (conns w 5) = []" and "bytes (pacote_isecnet2 c p)"
    and "\<not> isl (com_read_callback cfg_sessao 5 (recebe c p w))"
    and "\<not> h_destroyed (hobjs (fim_de (com_read_callback cfg_sessao 5 (recebe c p w))) 5)"
  shows "sessao cfg_sessao 5 D env (rs @ [(c, p)]) (fim_de (com_read_callback cfg_sessao 5 (recebe c p w)))"
proof -
  have "sessao cfg_sessao 5 D env rs (recebe c p w)" by (rule sessao.outros [OF assms(1)]) simp_all
  from sessao.le [OF this _ fim_deI [OF assms(4)] assms(5)] assms(2,3) um_pacote(2) [of "recebe c p w" 5 c p]
  show ?thesis by (simp add: recv_valido_def)
qed

lemma sessao_baixada:
  "sessao cfg_sessao 5 (coms sessao_0 5) [] [(0xf0f0, [0]), (0x0bb0, [0, 1, 2, 1, 1, 1, 0xff, 0xd8])] sessao_3"
proof -
  have "bytes (pacote_isecnet2 0xf0f0 [0])" "bytes (pacote_isecnet2 0x0bb0 [0, 1, 2, 1, 1, 1, 0xff, 0xd8])"
    by code_simp+
  then show ?thesis
    using sessao_recebe [OF sessao_recebe [OF sessao_conectada, of "0xf0f0" "[0]", folded sessao_2_def],
        of "0x0bb0" "[0, 1, 2, 1, 1, 1, 0xff, 0xd8]", folded sessao_3_def]
    by (simp add: sessao_1_sel sessao_2_sel sessao_2_con sessao_3_sel)
qed

text \<open>C18. In any session of any of the commands with a panel, whatever the order and cut of what is sent and
  received: nothing is sent before the connection is up, then exactly the authentication packet; a command is
  sent only once the panel has answered the authentication with \<^verbatim>\<open>0xf0f0\<close> and 0; what has been sent after it is
  exactly the packet of the command or the requests of fragments 1 to the current one; and the status is 0,
  success, exactly when the farewell has been sent, which is only after the response to the command.\<close>

theorem sessao_protocolo:
  assumes "sessao cfg h D env rs w"
  shows "let enviado = env @ send_buf (conns w h); auth = pacote_isecnet2_auth (senha D) (tam_senha D);
      req = pedidos (sub (coms w h))
    in (case etapa_de h w of
          Conectando \<Rightarrow> enviado = [] \<and> rs = [] \<and> status (coms w h) \<noteq> 0
        | Autenticando \<Rightarrow> enviado = auth \<and> rs = [] \<and> status (coms w h) \<noteq> 0
        | Comandando \<Rightarrow> enviado = auth @ req \<and> (\<exists>ps. rs = (0xf0f0, [0]) # ps) \<and> status (coms w h) \<noteq> 0
        | Despedindo \<Rightarrow> enviado = auth @ req @ pacote_isecnet2 0xf0f1 [] \<and>
            (\<exists>p ps. rs = (0xf0f0, [0]) # ps @ [p] \<and>
               (fst p = fst (comando_de (sub (coms w h))) \<or> fst p = 0xf0fe)) \<and> status (coms w h) = 0)"
proof -
  have ok: "sessao_ok h D env rs w" using assms by (rule sessao_sessao_ok)
  have fim: "\<exists>p qs. ps = qs @ [p] \<and> (fst p = fst (comando_de (sub (coms w h))) \<or> fst p = 0xf0fe)"
    if "respostas True (sub (coms w h)) (saidas w) ps" for ps
  proof (cases "\<exists>f. sub (coms w h) = ObtemFotosDeEvento f")
    case True
    then obtain f where f: "sub (coms w h) = ObtemFotosDeEvento f" ..
    with that have ps: "ps \<noteq> []" "list_all2 (fragmento_de f) [1..int (length ps)] ps" by (simp_all add: respostas_def)
    have "\<exists>k. fragmento_de f k (last ps)"
      using list_all2_nthD2 [OF ps(2), of "length ps - 1"] ps(1) by (auto simp: last_conv_nth)
    then have "fst (last ps) = 0x0bb0 \<or> fst (last ps) = 0xf0fe" by (cases "last ps") auto
    with f ps(1) show ?thesis
      by (intro exI [of _ "last ps"] exI [of _ "butlast ps"]) (simp add: comando_de_def)
  next
    case False
    with that show ?thesis by (cases "sub (coms w h)") (auto simp: respostas_def)
  qed
  show ?thesis
    using ok fim by (cases "etapa_de h w") (auto simp: sessao_ok_def pacote_isecnet2_bye_def Let_def)
qed

theorem sessao_protocolo_exemplo:
  "\<exists>req. send_buf (conns sessao_3 5) =
    pacote_isecnet2_auth (senha (coms sessao_0 5)) (tam_senha (coms sessao_0 5)) @ req @ pacote_isecnet2 0xf0f1 []"
  using sessao_protocolo [OF sessao_baixada] sessao_3_sel(3)
  by (cases "etapa_de 5 sessao_3") (auto simp: Let_def)

text \<open>C19. A photo reported as downloaded was put together from fragments 1, 2, \<dots>, n that the panel sent for that
  photo, in that order and each once: the file written holds exactly the concatenation of their contents, and n
  is the first fragment that said that no more follow.\<close>

theorem foto_completa:
  assumes "sessao cfg h D env rs w" and "sub (coms w h) = ObtemFotosDeEvento f" and "status (coms w h) = 0"
  shows "\<exists>ps n. rs = (0xf0f0, [0]) # ps \<and> n = length ps \<and> 0 < n \<and>
    (\<forall>k<n. let p = snd (ps ! k) in 6 \<le> length p \<and> p ! 0 * 256 + p ! 1 = of_indice f \<and> p ! 2 = of_nrfoto f \<and>
       p ! 4 = int k + 1 \<and> (p ! 4 < p ! 5 \<longleftrightarrow> k + 1 < n)) \<and>
    GravaArquivo (of_arquivo f) (concat (map (\<lambda>r. drop 6 (snd r)) ps)) \<in> set (saidas w)"
proof -
  have ok: "sessao_ok h D env rs w" using assms(1) by (rule sessao_sessao_ok)
  with assms(3) have "etapa_de h w = Despedindo"
    by (cases "etapa_de h w") (auto simp: sessao_ok_def Let_def)
  with ok assms(2) obtain ps where ps: "rs = (0xf0f0, [0]) # ps" "list_all2 (fragmento_de f) [1..int (length ps)] ps"
    "ps \<noteq> []" "list_all ha_mais (butlast ps)" "\<not> ha_mais (last ps)"
    "GravaArquivo (of_arquivo f) (concat (map (\<lambda>r. drop 6 (snd r)) ps)) \<in> set (saidas w)"
    by (auto simp: sessao_ok_def respostas_def Let_def)
  have "let p = snd (ps ! k) in 6 \<le> length p \<and> p ! 0 * 256 + p ! 1 = of_indice f \<and> p ! 2 = of_nrfoto f \<and>
      p ! 4 = int k + 1 \<and> (p ! 4 < p ! 5 \<longleftrightarrow> k + 1 < length ps)" if k: "k < length ps" for k
  proof -
    have "fragmento_de f (int k + 1) (ps ! k)"
      using list_all2_nthD2 [OF ps(2) k] k by (simp add: add.commute)
    moreover have "ha_mais (ps ! k) \<longleftrightarrow> k + 1 < length ps"
    proof (cases "k + 1 < length ps")
      case True
      then have "butlast ps ! k = ps ! k" "k < length (butlast ps)" by (simp_all add: nth_butlast)
      with ps(4) True show ?thesis by (auto simp: list_all_length)
    next
      case False
      with k have "k = length ps - 1" by linarith
      then have "ps ! k = last ps" using ps(3) by (simp add: last_conv_nth)
      with ps(5) False show ?thesis by simp
    qed
    ultimately show ?thesis by (cases "ps ! k") (simp add: ha_mais_def Let_def)
  qed
  with ps show ?thesis by blast
qed

theorem foto_completa_exemplo:
  "\<exists>arq. GravaArquivo arq [0xff, 0xd8] \<in> set (saidas sessao_3)"
proof -
  obtain f where f: "sub (coms sessao_3 5) = ObtemFotosDeEvento f" using sessao_3_sel(4) by blast
  from foto_completa [OF sessao_baixada f sessao_3_sel(3)] show ?thesis by auto
qed
end
