(* ===== verification/Argumentos.thy ===== *)
theory Argumentos
  imports Receptor
begin

text \<open>
  The command line of the script \<^verbatim>\<open>comandar\<close> and the configuration of the script \<^verbatim>\<open>receptorip\<close>: the
  string and integer conversions they use, the checks and early exits, and the objects they build.
  A string is a list of the 256 characters of HOL, read as the code points below 256. The limit of
  4300 digits of \<^verbatim>\<open>int()\<close> is not modelled.
\<close>

subsection \<open>Conversions of the standard library\<close>

definition cod :: "char \<Rightarrow> int" where
  "cod c = of_char c"

definition branco :: "char \<Rightarrow> bool" where
  "branco c \<longleftrightarrow> 9 \<le> cod c \<and> cod c \<le> 13 \<or> 28 \<le> cod c \<and> cod c \<le> 32 \<or> cod c = 0x85 \<or> cod c = 0xa0"

definition strip :: "string \<Rightarrow> string" where
  "strip s = rev (dropWhile branco (rev (dropWhile branco s)))"

definition minuscula :: "char \<Rightarrow> char" where
  "minuscula c =
    (if 65 \<le> cod c \<and> cod c \<le> 90 \<or> 192 \<le> cod c \<and> cod c \<le> 222 \<and> cod c \<noteq> 215
     then char_of (cod c + 32) else c)"

definition lower :: "string \<Rightarrow> string" where
  "lower s = map minuscula s"

definition eh_digito :: "char \<Rightarrow> bool" where
  "eh_digito c \<longleftrightarrow> c \<in> set ''0123456789''"

text \<open>Digits, with single underscores allowed between them; \<open>v\<close> is the value of those already read.\<close>

fun int_laco :: "int \<Rightarrow> string \<Rightarrow> int res" where
  "int_laco v [] = Inr v"
| "int_laco v (c # cs) =
    (if eh_digito c then int_laco (10 * v + (cod c - 48)) cs
     else if c = CHR ''_'' then
       (case cs of [] \<Rightarrow> Inl ValueError
        | d # ds \<Rightarrow> if eh_digito d then int_laco (10 * v + (cod d - 48)) ds else Inl ValueError)
     else Inl ValueError)"

definition int_digitos :: "string \<Rightarrow> int res" where
  "int_digitos s =
    (case s of [] \<Rightarrow> Inl ValueError
     | c # cs \<Rightarrow> if eh_digito c then int_laco (cod c - 48) cs else Inl ValueError)"

definition py_int :: "string \<Rightarrow> int res" where
  "py_int s =
    (case strip s of
       [] \<Rightarrow> Inl ValueError
     | c # cs \<Rightarrow>
         if c = CHR ''-'' then res_bind (int_digitos cs) (\<lambda>n. Inr (- n))
         else if c = CHR ''+'' then int_digitos cs
         else int_digitos (c # cs))"

subsection \<open>The script \<open>comandar\<close>\<close>

datatype acao = BaixaFoto int int | Executa subclasse

record pedido =
  pd_ipaddr :: string
  pd_cport :: int
  pd_senha :: int
  pd_tam_senha :: int
  pd_acao :: acao

definition usage :: "'a res" where
  "usage = Inl (SystemExit 1)"

text \<open>The table of commands: the constructor of each, given the partition or zone; \<open>dlfoto\<close> has none.\<close>

definition tratadores :: "(string \<times> (int option \<Rightarrow> subclasse) option) list" where
  "tratadores =
    [(''desativar'', Some (\<lambda>p. AtivarDesativarCentral p 0x00)),
     (''ativar'', Some (\<lambda>p. AtivarDesativarCentral p 0x01)),
     (''desligarsirene'', Some DesligarSirene),
     (''cancelarzona'', Some CancelarZona),
     (''reativarzona'', Some ReativarZona),
     (''status'', Some (\<lambda>_. SolicitarStatus)),
     (''limpardisparo'', Some (\<lambda>_. LimparDisparo)),
     (''dlfoto'', None)]"

definition particao_ou_zona :: "string list \<Rightarrow> int option res" where
  "particao_ou_zona argv =
    (if length argv = 7
     then let n = (case py_int (argv ! 6) of Inr n \<Rightarrow> n | Inl _ \<Rightarrow> -1)
          in if n < 1 \<or> n > 254 then usage else Inr (Some n)
     else Inr None)"

definition acao_de :: "string \<Rightarrow> string list \<Rightarrow> acao res" where
  "acao_de comando argv =
    (case map_of tratadores comando of
       None \<Rightarrow> usage
     | Some None \<Rightarrow>
         if length argv < 8 then usage
         else res_bind (py_int (argv ! 6)) (\<lambda>indice.
              res_bind (py_int (argv ! 7)) (\<lambda>nrfoto. Inr (BaixaFoto indice nrfoto)))
     | Some (Some construtor) \<Rightarrow>
         res_bind (particao_ou_zona argv) (\<lambda>p. Inr (Executa (construtor p))))"

definition comandar_argumentos :: "string list \<Rightarrow> pedido res" where
  "comandar_argumentos argv =
    (if length argv < 6 then usage
     else
       let ipaddr = strip (lower (argv ! 1))
       in if ipaddr = ''auto'' then usage
          else
            res_bind (py_int (argv ! 2)) (\<lambda>porta.
            res_bind (py_int (argv ! 3)) (\<lambda>senha.
            res_bind (py_int (argv ! 4)) (\<lambda>tam_senha.
            res_bind (acao_de (argv ! 5) argv) (\<lambda>acao.
              Inr \<lparr>pd_ipaddr = ipaddr, pd_cport = (if porta = 0 then 9009 else porta), pd_senha = senha,
                   pd_tam_senha = tam_senha, pd_acao = acao\<rparr>)))))"

text \<open>\<^verbatim>\<open>TratadorDeFotos(None, ".", "auto", cport, senha, tam_senha)\<close>; the hooks of the receiver are unused.\<close>

definition cfg_comandar :: "pedido \<Rightarrow> config" where
  "cfg_comandar p =
    \<lparr>centrais = (\<lambda>_. False), maxconn = 0, caddr = ''auto'', cport = pd_cport p, cfg_senha = pd_senha p,
     cfg_tam_senha = pd_tam_senha p, folder_dlfoto = ''.'', gancho_arquivo = None, gancho_central = [],
     gancho_ev = [], gancho_msg = [], gancho_watchdog = []\<rparr>"

definition comandar_dlfoto :: "pedido \<Rightarrow> int \<Rightarrow> int \<Rightarrow> mundo \<Rightarrow> mundo res" where
  "comandar_dlfoto p indice nrfoto w = imediato (enfileirar (cfg_comandar p) (pd_ipaddr p) indice nrfoto w)"

definition comandar_executa :: "pedido \<Rightarrow> subclasse \<Rightarrow> mundo \<Rightarrow> mundo res" where
  "comandar_executa p s w =
    res_bind (comandar_init True (pd_ipaddr p) (pd_cport p) (pd_senha p) (pd_tam_senha p) s w)
      (\<lambda>(h, w). Inr w)"

text \<open>The state in which the script enters the event loop.\<close>

definition comandar_inicia :: "pedido \<Rightarrow> mundo \<Rightarrow> mundo res" where
  "comandar_inicia p w =
    (case pd_acao p of
       BaixaFoto indice nrfoto \<Rightarrow> comandar_dlfoto p indice nrfoto w
     | Executa s \<Rightarrow> comandar_executa p s w)"

text \<open>The exit status of the process: an uncaught exception other than \<^verbatim>\<open>SystemExit\<close> gives 1.\<close>

definition exit_status :: "'a res \<Rightarrow> int" where
  "exit_status r = (case r of Inl (SystemExit n) \<Rightarrow> n | Inl _ \<Rightarrow> 1 | Inr _ \<Rightarrow> 0)"

subsection \<open>The configuration of \<open>receptorip\<close>\<close>

text \<open>
  \<open>secao\<close> is the section \<^verbatim>\<open>receptorip\<close> that \<^verbatim>\<open>configparser\<close> read, if any; \<open>casa\<close> compiles a regular
  expression to its match, or raises on one that is not well formed.
\<close>

definition chave :: "(string \<Rightarrow> string option) \<Rightarrow> string \<Rightarrow> string res" where
  "chave cfg k = (case cfg k of None \<Rightarrow> Inl KeyError | Some v \<Rightarrow> Inr v)"

definition parse_config :: "string list \<Rightarrow> (string \<Rightarrow> string option) option \<Rightarrow> (string \<Rightarrow> string option) res" where
  "parse_config argv secao =
    (if length argv < 2 then usage else case secao of None \<Rightarrow> usage | Some cfg \<Rightarrow> Inr cfg)"

definition le_config ::
  "(string \<Rightarrow> (string \<Rightarrow> bool) res) \<Rightarrow> (string \<Rightarrow> string option) \<Rightarrow> (string \<times> int \<times> string \<times> config) res" where
  "le_config casa cfg =
    res_bind (chave cfg ''addr'') (\<lambda>addr.
    res_bind (res_bind (chave cfg ''port'') py_int) (\<lambda>port.
    res_bind (chave cfg ''caddr'') (\<lambda>ca.
    res_bind (res_bind (chave cfg ''cport'') py_int) (\<lambda>cp.
    res_bind (res_bind (chave cfg ''senha'') py_int) (\<lambda>sen.
    res_bind (res_bind (chave cfg ''tamanho'') py_int) (\<lambda>tam.
    res_bind (res_bind (chave cfg ''centrais'') casa) (\<lambda>re.
    res_bind (res_bind (chave cfg ''maxconn'') py_int) (\<lambda>mx.
    res_bind (chave cfg ''logfile'') (\<lambda>logfile.
    res_bind (chave cfg ''gancho_arquivo'') (\<lambda>ga.
    res_bind (chave cfg ''gancho_central'') (\<lambda>gc.
    res_bind (chave cfg ''gancho_ev'') (\<lambda>ge.
    res_bind (chave cfg ''gancho_msg'') (\<lambda>gm.
    res_bind (chave cfg ''gancho_watchdog'') (\<lambda>gw.
    res_bind (chave cfg ''folder_dlfoto'') (\<lambda>folder.
      Inr (strip (lower addr), port, logfile,
        \<lparr>centrais = re, maxconn = mx, caddr = strip (lower ca), cport = cp, cfg_senha = sen,
         cfg_tam_senha = tam, folder_dlfoto = folder, gancho_arquivo = Some ga, gancho_central = gc,
         gancho_ev = ge, gancho_msg = gm, gancho_watchdog = gw\<rparr>))))))))))))))))"

text \<open>The logger as the script sets it up.\<close>

definition log_receptor :: "string \<Rightarrow> log_estado" where
  "log_receptor arq = set_file arq (set_level INFO log_inicial)"

subsection \<open>Integers can be read back\<close>

lemma digito_inofensivo: "eh_digito c \<Longrightarrow> \<not> branco c \<and> c \<noteq> CHR ''-'' \<and> c \<noteq> CHR ''+'' \<and> c \<noteq> CHR ''_'' \<and>
    cod c - 48 = int (valor_digito c)"
  by (auto simp: eh_digito_def branco_def cod_def valor_digito_def)

lemma strip_sem_brancos: "list_all (\<lambda>c. \<not> branco c) s \<Longrightarrow> list_all branco a \<Longrightarrow> list_all branco b \<Longrightarrow> strip (a @ s @ b) = s"
proof (cases "s = []")
  case True
  assume "list_all branco a" "list_all branco b"
  with True show ?thesis by (auto simp: strip_def list_all_iff dropWhile_eq_Nil_conv dest: set_dropWhileD)
next
  case False
  assume s: "list_all (\<lambda>c. \<not> branco c) s" and a: "list_all branco a" and b: "list_all branco b"
  have "dropWhile branco (a @ s @ b) = s @ b"
    using s a False by (cases s) (auto simp: dropWhile_append list_all_iff dropWhile_eq_Nil_conv)
  moreover have "dropWhile branco (rev (s @ b)) = rev s"
    using s b False by (cases s rule: rev_cases) (auto simp: dropWhile_append list_all_iff dropWhile_eq_Nil_conv)
  ultimately show ?thesis by (simp add: strip_def)
qed

lemma int_laco_digitos: "list_all eh_digito s \<Longrightarrow>
    int_laco (int v) s = Inr (int (foldl (\<lambda>v c. 10 * v + valor_digito c) v s))"
proof (induction s arbitrary: v)
  case (Cons c cs)
  have "10 * int v + (cod c - 48) = int (10 * v + valor_digito c)"
    using Cons.prems digito_inofensivo [of c] by simp
  then show ?case using Cons by (simp del: of_nat_add of_nat_mult)
qed simp

lemma int_digitos_eq: "list_all eh_digito s \<Longrightarrow> s \<noteq> [] \<Longrightarrow> int_digitos s = Inr (int (le_nat s))"
  using int_laco_digitos [of "tl s" "valor_digito (hd s)"] digito_inofensivo [of "hd s"]
  by (cases s) (simp_all add: int_digitos_def le_nat_def)

lemma base_nat_digitos': "list_all eh_digito (base_nat 10 n) \<and> base_nat 10 n \<noteq> []"
  using base_nat_digitos [of n] by (auto simp: list_all_iff eh_digito_def base_nat.simps [of _ n])

lemma int_digitos_base: "int_digitos (base_nat 10 n) = Inr (int n)"
  using int_digitos_eq base_nat_digitos' le_nat_base by simp

lemma fmt_d_sem_brancos: "list_all (\<lambda>c. \<not> branco c) (fmt_d n)"
proof -
  have "list_all (\<lambda>c. \<not> branco c) (base_nat 10 m)" for m
    using base_nat_digitos' [of m] digito_inofensivo by (auto simp: list_all_iff)
  moreover have "\<not> branco (CHR ''-'')" by (simp add: branco_def cod_def)
  ultimately show ?thesis by (simp add: fmt_d_def)
qed

lemma py_int_fmt_d: "list_all branco a \<Longrightarrow> list_all branco b \<Longrightarrow> py_int (a @ fmt_d n @ b) = Inr n"
proof -
  assume "list_all branco a" "list_all branco b"
  then have st: "strip (a @ fmt_d n @ b) = fmt_d n" by (rule strip_sem_brancos [OF fmt_d_sem_brancos])
  show ?thesis
  proof (cases "n < 0")
    case True
    then have "fmt_d n = CHR ''-'' # base_nat 10 (nat (- n))" by (simp add: fmt_d_def)
    then show ?thesis unfolding py_int_def st using True int_digitos_base [of "nat (- n)"] by simp
  next
    case False
    obtain c cs where c: "base_nat 10 (nat n) = c # cs" "eh_digito c"
      using base_nat_digitos' [of "nat n"] by (cases "base_nat 10 (nat n)") auto
    with False have "fmt_d n = c # cs" by (simp add: fmt_d_def)
    then show ?thesis
      unfolding py_int_def st using digito_inofensivo [OF c(2)] False int_digitos_base [of "nat n", unfolded c(1)] by simp
  qed
qed

lemma py_int_fmt: "py_int (fmt_d n) = Inr n"
  using py_int_fmt_d [of "[]" "[]" n] by simp

text \<open>What is read of the seventh and eighth arguments.\<close>

lemma particao_ou_zona_Inr:
  "particao_ou_zona argv = Inr z \<longleftrightarrow>
    (if length argv = 7 then \<exists>n. py_int (argv ! 6) = Inr n \<and> 1 \<le> n \<and> n \<le> 254 \<and> z = Some n else z = None)"
  by (cases "py_int (argv ! 6)") (auto simp: particao_ou_zona_def usage_def Let_def)

lemma sem_zona:
  "map_of tratadores cmd = Some (Some c) \<Longrightarrow> cmd \<in> {''cancelarzona'', ''reativarzona''} \<Longrightarrow>
    sub (coms w h) = c None \<Longrightarrow> envia_comando_in h w = Inl (Excecao ''Zona precisa ser especificada.'')"
  by (auto simp: tratadores_def envia_comando_in_def zona_invalida_def)

lemma acao_de_Inr:
  assumes "acao_de cmd argv = Inr a"
  shows "case a of
      BaixaFoto i n \<Rightarrow> cmd = ''dlfoto'' \<and> 8 \<le> length argv \<and> py_int (argv ! 6) = Inr i \<and> py_int (argv ! 7) = Inr n
    | Executa s \<Rightarrow> \<exists>c z. map_of tratadores cmd = Some (Some c) \<and> s = c z \<and> particao_ou_zona argv = Inr z"
proof (cases "map_of tratadores cmd")
  case None
  with assms show ?thesis by (simp add: acao_de_def usage_def)
next
  case (Some co)
  show ?thesis
  proof (cases co)
    case None
    with Some have "cmd = ''dlfoto''" by (auto simp: tratadores_def split: if_splits)
    with None Some assms show ?thesis by (auto simp: acao_de_def usage_def res_bind_Inr_iff split: if_splits)
  next
    case (Some c)
    with \<open>map_of tratadores cmd = Some co\<close> assms show ?thesis by (auto simp: acao_de_def res_bind_Inr_iff)
  qed
qed

lemma comandar_erros:
  "res_sat (\<lambda>e. e = SystemExit 1 \<or> e = ValueError) (\<lambda>_. True) (comandar_argumentos argv)"
proof -
  let ?E = "\<lambda>e. e = SystemExit 1 \<or> e = ValueError"
  have "res_sat (\<lambda>e. e = ValueError) (\<lambda>_. True) (int_laco v cs)" for v cs
    by (induction v cs rule: int_laco.induct) (auto split: list.split)
  then have "res_sat (\<lambda>e. e = ValueError) (\<lambda>_. True) (int_digitos cs)" for cs
    by (simp add: int_digitos_def split: list.split)
  then have "res_sat (\<lambda>e. e = ValueError) (\<lambda>_. True) (py_int s)" for s
    by (simp add: py_int_def split: list.split)
  then have int: "res_sat ?E Q (py_int s)" if "\<And>x. Q x" for s and Q
    by (rule res_sat_mono) (use that in simp_all)
  have "res_sat ?E (\<lambda>_. True) (particao_ou_zona argv)"
    by (auto simp: particao_ou_zona_def usage_def Let_def)
  then have "res_sat ?E (\<lambda>_. True) (acao_de cmd argv)" for cmd
    by (auto simp: acao_de_def usage_def intro!: int split: option.split)
  then show ?thesis
    by (auto simp: comandar_argumentos_def Let_def usage_def intro!: int)
qed

subsection \<open>Properties\<close>

text \<open>C26. The command line is either refused, with exit status 1, by the usage message or by an integer that cannot be
  read, and then nothing is sent, or gives exactly the request it spells: an explicit address, the port (9009 for 0),
  the password and its length, and either a photo with both its numbers or a command of the table with a
  partition or zone in 1..254 when there are exactly seven arguments and with none otherwise. A command on a
  zone accepted without one raises an exception when it comes to be sent, so it never is.\<close>

theorem comandar_valida:
  "case comandar_argumentos argv of
     Inl e \<Rightarrow> (e = SystemExit 1 \<or> e = ValueError) \<and> exit_status (comandar_argumentos argv) = 1
   | Inr p \<Rightarrow> pd_ipaddr p = strip (lower (argv ! 1)) \<and> pd_ipaddr p \<noteq> ''auto'' \<and>
       (\<exists>c. py_int (argv ! 2) = Inr c \<and> pd_cport p = (if c = 0 then 9009 else c)) \<and>
       py_int (argv ! 3) = Inr (pd_senha p) \<and> py_int (argv ! 4) = Inr (pd_tam_senha p) \<and>
       (case pd_acao p of
          BaixaFoto i n \<Rightarrow> argv ! 5 = ''dlfoto'' \<and> 8 \<le> length argv \<and>
            py_int (argv ! 6) = Inr i \<and> py_int (argv ! 7) = Inr n
        | Executa s \<Rightarrow> \<exists>c z. map_of tratadores (argv ! 5) = Some (Some c) \<and> s = c z \<and>
            (if length argv = 7 then \<exists>n. py_int (argv ! 6) = Inr n \<and> 1 \<le> n \<and> n \<le> 254 \<and> z = Some n
             else z = None) \<and>
            (argv ! 5 \<in> {''cancelarzona'', ''reativarzona''} \<longrightarrow> length argv \<noteq> 7 \<longrightarrow>
              (\<forall>h w. sub (coms w h) = s \<longrightarrow>
                envia_comando_in h w = Inl (Excecao ''Zona precisa ser especificada.''))))"
proof (cases "comandar_argumentos argv")
  case (Inl e)
  with comandar_erros [of argv] show ?thesis by (auto simp: exit_status_def)
next
  case (Inr p)
  then obtain a where p: "pd_ipaddr p = strip (lower (argv ! 1)) \<and> pd_ipaddr p \<noteq> ''auto'' \<and>
       (\<exists>c. py_int (argv ! 2) = Inr c \<and> pd_cport p = (if c = 0 then 9009 else c)) \<and>
       py_int (argv ! 3) = Inr (pd_senha p) \<and> py_int (argv ! 4) = Inr (pd_tam_senha p)"
    and a: "acao_de (argv ! 5) argv = Inr a" "pd_acao p = a"
    by (auto simp: comandar_argumentos_def Let_def usage_def res_bind_Inr_iff split: if_splits)
  show ?thesis
  proof (cases a)
    case (BaixaFoto i n)
    with Inr p a(2) acao_de_Inr [OF a(1)] show ?thesis by auto
  next
    case (Executa s)
    with acao_de_Inr [OF a(1)] obtain c z where c: "map_of tratadores (argv ! 5) = Some (Some c)" "s = c z"
      "particao_ou_zona argv = Inr z" by auto
    from c(3) have z: "if length argv = 7 then \<exists>n. py_int (argv ! 6) = Inr n \<and> 1 \<le> n \<and> n \<le> 254 \<and> z = Some n
        else z = None" by (simp only: particao_ou_zona_Inr)
    have "\<forall>h w. sub (coms w h) = s \<longrightarrow> envia_comando_in h w = Inl (Excecao ''Zona precisa ser especificada.'')"
      if "argv ! 5 \<in> {''cancelarzona'', ''reativarzona''}" "length argv \<noteq> 7"
      using sem_zona [OF c(1) that(1)] c(2) z that(2) by simp
    with p c(1,2) z show ?thesis unfolding Inr sum.case a(2) Executa acao.case by blast
  qed
qed

theorem comandar_valida_exemplo:
  "\<exists>p. comandar_argumentos [''comandar'', ''10.0.0.9'', ''9009'', ''1234'', ''4'', ''cancelarzona'', ''8''] = Inr p \<and>
    pd_ipaddr p \<noteq> ''auto''"
proof -
  let ?a = "[''comandar'', ''10.0.0.9'', ''9009'', ''1234'', ''4'', ''cancelarzona'', ''8'']"
  have "\<not> isl (comandar_argumentos ?a)" by code_simp
  then obtain p where "comandar_argumentos ?a = Inr p" by (cases "comandar_argumentos ?a") auto
  with comandar_valida [of ?a] show ?thesis by auto
qed

lemma comandar_argumentos_sub:
  "comandar_argumentos argv = Inr p \<Longrightarrow> pd_acao p = Executa s \<Longrightarrow> \<forall>f. s \<noteq> ObtemFotosDeEvento f"
  by (auto simp: comandar_argumentos_def acao_de_def tratadores_def usage_def res_bind_Inr_iff Let_def
      split: if_splits option.splits)

text \<open>The parameters that the text of \<^verbatim>\<open>usage()\<close> documents for each command, and what it stands for.\<close>

definition uso_documentado :: "string \<Rightarrow> int list \<Rightarrow> acao option" where
  "uso_documentado cmd ns =
    (let de_particao = (\<lambda>c. case ns of [] \<Rightarrow> Some (Executa (c None))
           | [n] \<Rightarrow> if 1 \<le> n \<and> n \<le> 254 then Some (Executa (c (Some n))) else None | _ \<Rightarrow> None);
         de_zona = (\<lambda>c. case ns of [n] \<Rightarrow> if 1 \<le> n \<and> n \<le> 254 then Some (Executa (c (Some n))) else None | _ \<Rightarrow> None)
     in if cmd = ''desativar'' then de_particao (\<lambda>p. AtivarDesativarCentral p 0)
        else if cmd = ''ativar'' then de_particao (\<lambda>p. AtivarDesativarCentral p 1)
        else if cmd = ''desligarsirene'' then de_particao DesligarSirene
        else if cmd = ''cancelarzona'' then de_zona CancelarZona
        else if cmd = ''reativarzona'' then de_zona ReativarZona
        else if cmd = ''status'' \<and> ns = [] then Some (Executa SolicitarStatus)
        else if cmd = ''limpardisparo'' \<and> ns = [] then Some (Executa LimparDisparo)
        else if cmd = ''dlfoto'' then (case ns of [i, n] \<Rightarrow> Some (BaixaFoto i n) | _ \<Rightarrow> None)
        else None)"

text \<open>C27. Every command, with the parameters that \<^verbatim>\<open>usage()\<close> documents for it (an optional partition, a mandatory zone,
  the index and number of a photo), an explicit address, and any port, password and password length written in
  decimal, is accepted and gives exactly that request; port 0 stands for 9009.\<close>

theorem comandar_aceita:
  assumes "uso_documentado cmd ns = Some a" and "strip (lower ip) \<noteq> ''auto''"
  shows "comandar_argumentos ([prog, ip, fmt_d porta, fmt_d sen, fmt_d tam, cmd] @ map fmt_d ns) =
    Inr \<lparr>pd_ipaddr = strip (lower ip), pd_cport = (if porta = 0 then 9009 else porta), pd_senha = sen,
         pd_tam_senha = tam, pd_acao = a\<rparr>"
proof -
  have "acao_de cmd ([prog, ip, fmt_d porta, fmt_d sen, fmt_d tam, cmd] @ map fmt_d ns) = Inr a"
    using assms(1)
    by (auto simp: uso_documentado_def acao_de_def tratadores_def particao_ou_zona_def py_int_fmt Let_def
        split: if_splits list.splits)
  then show ?thesis using assms(2) by (simp add: comandar_argumentos_def py_int_fmt Let_def)
qed

theorem comandar_aceita_exemplo:
  "\<exists>p. comandar_argumentos [''comandar'', ''10.0.0.9'', ''0'', ''1234'', ''4'', ''ativar'', ''2''] = Inr p \<and>
    pd_cport p = 9009 \<and> pd_acao p = Executa (AtivarDesativarCentral (Some 2) 1)"
proof -
  have "fmt_d 0 = ''0''" "fmt_d 1234 = ''1234''" "fmt_d 4 = ''4''" "fmt_d 2 = ''2''"
    "strip (lower ''10.0.0.9'') \<noteq> ''auto''" by code_simp+
  moreover have "uso_documentado ''ativar'' [2] = Some (Executa (AtivarDesativarCentral (Some 2) 1))"
    by (simp add: uso_documentado_def)
  ultimately show ?thesis
    using comandar_aceita [of "''ativar''" "[2]" _ "''10.0.0.9''" "''comandar''" 0 1234 4] by simp
qed

end
