(* ===== verification/Execucao.thy ===== *)
theory Execucao
  imports Sessao Argumentos
begin

text \<open>
  A whole run of the script \<^verbatim>\<open>comandar\<close>: from the command line, through the event loop, to the exit
  status of the process, for every command but the download of a photo, which always exits with 0.
\<close>

subsection \<open>The only handler of the program\<close>

definition viva :: "nat \<Rightarrow> mundo \<Rightarrow> bool" where
  "viva h w \<longleftrightarrow>
    items w = [h] \<and> classe_de w h = CComando \<and> \<not> h_destroyed (hobjs w h) \<and> inv_tempo w \<and>
    set (pending w) \<subseteq> {conn_timeout (coms w h)} \<and> conn_timeout (coms w h) < prox w \<and>
    \<not> to_invalid (tobjs w (conn_timeout (coms w h))) \<and>
    to_owner (tobjs w (conn_timeout (coms w h))) = Some h \<and>
    to_callback (tobjs w (conn_timeout (coms w h))) = CbConn h \<and>
    observer (coms w h) \<and> (\<forall>f. sub (coms w h) \<noteq> ObtemFotosDeEvento f)"

lemma viva_campos:
  assumes "viva h w" and "items w' = items w" and "hobjs w' = hobjs w" and "inv_tempo w'"
    and "set (pending w') \<subseteq> {conn_timeout (coms w h)}" and "prox w' = prox w"
    and "\<And>t. to_invalid (tobjs w' t) = to_invalid (tobjs w t) \<and> to_owner (tobjs w' t) = to_owner (tobjs w t) \<and>
      to_callback (tobjs w' t) = to_callback (tobjs w t)"
    and "conn_timeout (coms w' h) = conn_timeout (coms w h) \<and> observer (coms w' h) = observer (coms w h) \<and>
      sub (coms w' h) = sub (coms w h)"
  shows "viva h w'"
  using assms by (simp add: viva_def)

lemma viva_com:
  "viva h w \<Longrightarrow> (\<And>c. conn_timeout (f c) = conn_timeout c \<and> observer (f c) = observer c \<and> sub (f c) = sub c) \<Longrightarrow>
    viva h (muda_com h f w)"
  by (rule viva_campos [of h w]) (simp_all add: viva_def inv_tempo_def)

lemma viva_conn: "viva h w \<Longrightarrow> viva h (muda_conn h f w)"
  by (rule viva_campos [of h w]) (simp_all add: viva_def)

lemma viva_emite: "viva h w \<Longrightarrow> viva h (emite s w)"
  by (rule viva_campos [of h w]) (simp_all add: viva_def inv_tempo_def)

lemma viva_send: "viva h w \<Longrightarrow> viva h (tcp_send h d w)"
  by (simp add: tcp_send_def viva_conn)

lemma viva_recv: "viva h w \<Longrightarrow> viva h (poe_recv_buf h d w)"
  by (simp add: poe_recv_buf_def viva_conn)

lemma viva_dispara: "viva h w \<Longrightarrow> viva h (w\<lparr>pending := remove1 t (pending w)\<rparr>)"
  by (rule viva_campos [of h w]) (auto simp: viva_def inv_tempo_remove1 dest: notin_set_remove1)

lemma viva_ambiente: "viva h w \<Longrightarrow> viva h (w\<lparr>agora := a, amb := b\<rparr>)"
  by (rule viva_campos [of h w]) (simp_all add: viva_def inv_tempo_def)

lemma viva_cancela: "viva h w \<Longrightarrow> \<exists>v. cancela_conn_timeout h w = Inr v \<and> viva h v \<and> iguais h w v"
proof -
  assume v: "viva h w"
  then have "cancela_conn_timeout h w = Inr (w\<lparr>pending := remove1 (conn_timeout (coms w h)) (pending w)\<rparr>)"
    by (simp add: cancela_conn_timeout_def cancel_eq viva_def)
  with viva_dispara [OF v] cancela_iguais show ?thesis by blast
qed

lemma viva_rearma: "viva h w \<Longrightarrow> \<exists>v. rearma_conn_timeout h w = Inr v \<and> viva h v"
proof -
  assume v: "viva h w"
  let ?v = "arma (conn_timeout (coms w h)) w"
  have "rearma_conn_timeout h w = Inr ?v" using v by (simp add: rearma_conn_timeout_def restart_eq viva_def)
  moreover have "inv_tempo ?v" by (rule inv_tempo_arma) (use v in \<open>simp_all add: viva_def\<close>)
  then have "viva h ?v" by (intro viva_campos [OF v]) (use v in \<open>auto simp: arma_def viva_def\<close>)
  ultimately show ?thesis by blast
qed

subsection \<open>How a callback ends\<close>

text \<open>When a connection ends in \<open>v\<close> with success, it had already succeeded in \<open>w\<close>, with the same left to send.\<close>

definition mesmo_fim :: "nat \<Rightarrow> mundo \<Rightarrow> mundo \<Rightarrow> bool" where
  "mesmo_fim h v w \<longleftrightarrow>
    status (coms v h) = 0 \<longrightarrow> status (coms w h) = 0 \<and> send_buf (conns v h) = send_buf (conns w h)"

lemma mesmo_fim_refl [simp]: "mesmo_fim h w w"
  by (simp add: mesmo_fim_def)

lemma mesmo_fim_falha: "status (coms v h) \<noteq> 0 \<Longrightarrow> mesmo_fim h v w"
  by (simp add: mesmo_fim_def)

definition desfecho :: "config \<Rightarrow> nat \<Rightarrow> mundo \<Rightarrow> mundo res \<Rightarrow> bool" where
  "desfecho cfg h w m \<longleftrightarrow>
    (\<exists>v. viva h v \<and> mesmo_fim h v w \<and> m = destroy cfg h v) \<or>
    (\<exists>v. viva h v \<and> m = Inr v) \<or> (\<exists>e. e \<noteq> SystemExit 0 \<and> m = Inl e)"

lemma desfecho_Inl: "e \<noteq> SystemExit 0 \<Longrightarrow> desfecho cfg h w (Inl e)"
  by (simp add: desfecho_def)

lemma desfecho_Inr: "viva h v \<Longrightarrow> desfecho cfg h w (Inr v)"
  by (auto simp: desfecho_def)

lemma desfecho_destroy: "viva h w \<Longrightarrow> desfecho cfg h w (destroy cfg h w)"
  by (auto simp: desfecho_def)

lemma desfecho_mono:
  "desfecho cfg h v m \<Longrightarrow> mesmo_fim h v w \<Longrightarrow> desfecho cfg h w m"
  unfolding desfecho_def mesmo_fim_def by metis

lemma desfecho_bind:
  "res_sat (\<lambda>e. e \<noteq> SystemExit 0) P m \<Longrightarrow> (\<And>x. P x \<Longrightarrow> desfecho cfg h w (f x)) \<Longrightarrow> desfecho cfg h w (res_bind m f)"
  by (cases m) (auto intro: desfecho_Inl)

lemma desfecho_rearma: "viva h v \<Longrightarrow> desfecho cfg h w (rearma_conn_timeout h v)"
  using viva_rearma desfecho_Inr by fastforce

lemma desfecho_envia: "viva h w \<Longrightarrow> desfecho cfg h w (envia_comando h c p w)"
  unfolding envia_comando_def Let_def by (rule desfecho_rearma) (simp add: viva_com viva_send)

lemma desfecho_despedida: "viva h w \<Longrightarrow> desfecho cfg h w (despedida h w)"
  unfolding despedida_def Let_def by (rule desfecho_rearma) (simp add: viva_com viva_send)

lemma desfecho_autenticacao: "viva h w \<Longrightarrow> desfecho cfg h w (autenticacao h w)"
  unfolding autenticacao_def Let_def by (rule desfecho_rearma) (simp add: viva_com viva_send)

lemma desfecho_envia_in: "viva h w \<Longrightarrow> desfecho cfg h w (envia_comando_in h w)"
  by (auto simp: envia_comando_in_def viva_def [of h w] intro: desfecho_envia desfecho_Inl split: subclasse.split)

lemma desfecho_nak: "viva h w \<Longrightarrow> desfecho cfg h w (nak cfg h p w)"
  using desfecho_mono [OF desfecho_destroy [OF viva_com [of h w "\<lambda>c. c\<lparr>status := 1\<rparr>"]], of w cfg]
  by (simp add: nak_def desfecho_destroy mesmo_fim_falha)

lemma desfecho_resp_auth: "viva h w \<Longrightarrow> desfecho cfg h w (resposta_autenticacao cfg h c p w)"
  by (auto simp: resposta_autenticacao_def intro: desfecho_nak desfecho_destroy desfecho_envia_in)

text \<open>The exceptions of the status report and of the packet functions.\<close>

abbreviation erro_de_dados :: "excecao \<Rightarrow> bool" where
  "erro_de_dados e \<equiv> e = IndexError \<or> e = KeyError \<or> e = TypeError"

lemma py_nth_sat: "res_sat erro_de_dados (\<lambda>_. True) (py_nth xs i)"
  by (simp add: py_nth_def)

lemma status_de_sat: "res_sat erro_de_dados (\<lambda>_. True) (status_de p)"
proof -
  have qualquer: "res_sat erro_de_dados Q m" if "res_sat erro_de_dados (\<lambda>_. True) m" "\<And>x. Q x" for Q and m :: "'a res"
    using that by (cases m) auto
  have ps: "res_sat erro_de_dados (\<lambda>_. True) (particoes_laco ns q)" for ns q
  proof (induction ns)
    case (Cons n ns)
    have "res_sat erro_de_dados Q (particoes_laco ns q)" if "\<And>x. Q x" for Q by (rule qualquer [OF Cons that])
    then show ?case by (auto intro!: qualquer [OF py_nth_sat])
  qed simp
  have fw: "res_sat erro_de_dados (\<lambda>_. True) (firmware_de v)" for v
    by (auto simp: firmware_de_def split: list.split)
  have ar: "res_sat erro_de_dados (\<lambda>_. True) (armado_de n)" for n
    by (simp add: armado_de_def)
  show ?thesis
    unfolding status_de_def Let_def
    by (simp only: res_sat_bind res_sat_Inr)
      (intro qualquer [OF py_nth_sat] qualquer [OF fw] qualquer [OF ar] ps)
qed

lemma parse_be16_sat: "res_sat erro_de_dados (\<lambda>_. True) (parse_be16 b)"
proof (cases "length b < 2")
  case True
  then show ?thesis by (simp add: parse_be16_curto)
next
  case False
  then show ?thesis by (auto simp: parse_be16_def py_nth_def)
qed

lemma correto_sat: "res_sat erro_de_dados (\<lambda>_. True) (pacote_isecnet2_correto b)"
  using parse_be16_sat [of "fatia 4 6 b"]
  by (cases "parse_be16 (fatia 4 6 b)") (simp_all add: pacote_isecnet2_correto_def)

lemma parse_sat: "res_sat erro_de_dados (\<lambda>_. True) (pacote_isecnet2_parse b)"
  using parse_be16_sat [of "fatia 4 6 b"] parse_be16_sat [of "fatia 6 8 b"]
  by (cases "parse_be16 (fatia 4 6 b)"; cases "parse_be16 (fatia 6 8 b)")
    (simp_all add: pacote_isecnet2_parse_def Let_def)

lemma desfecho_dados:
  "res_sat erro_de_dados (\<lambda>_. True) m \<Longrightarrow> (\<And>x. desfecho cfg h w (f x)) \<Longrightarrow> desfecho cfg h w (res_bind m f)"
  by (cases m) (auto intro: desfecho_Inl)

lemma desfecho_resposta_in: "viva h w \<Longrightarrow> desfecho cfg h w (resposta_comando_in cfg h p w)"
proof (cases "sub (coms w h)")
  case SolicitarStatus
  assume v: "viva h w"
  have "desfecho cfg h w (despedida h (emite (ImprimeStatus s) w))" for s
    by (rule desfecho_mono [OF desfecho_despedida [OF viva_emite [OF v]]]) (simp add: mesmo_fim_def)
  with SolicitarStatus show ?thesis
    by (simp add: resposta_comando_in_def desfecho_dados [OF status_de_sat])
qed (simp_all add: resposta_comando_in_def desfecho_despedida, simp add: viva_def)

lemma desfecho_resposta: "viva h w \<Longrightarrow> desfecho cfg h w (resposta_comando cfg h c p w)"
  by (simp add: resposta_comando_def desfecho_nak desfecho_destroy desfecho_resposta_in)

lemma desfecho_apos_cancela:
  assumes "viva h w" and "\<And>v. viva h v \<Longrightarrow> desfecho cfg h v (f v)"
  shows "desfecho cfg h w (res_bind (cancela_conn_timeout h w) f)"
proof -
  obtain v where v: "cancela_conn_timeout h w = Inr v" "viva h v" "iguais h w v"
    using viva_cancela [OF assms(1)] by blast
  with desfecho_mono [OF assms(2) [OF v(2)], of w] show ?thesis by (simp add: iguais_def mesmo_fim_def)
qed

lemma desfecho_recv: "viva h w \<Longrightarrow> desfecho cfg h w (com_recv_callback cfg h d w)"
proof -
  assume w: "viva h w"
  let ?v = "\<lambda>n. poe_recv_buf h (drop n (recv_buf (conns w h))) w"
  have v: "viva h (?v n)" for n using w by (rule viva_recv)
  have st: "mesmo_fim h (?v n) w" for n by (simp add: mesmo_fim_def poe_recv_buf_def)
  note volta = desfecho_mono [of cfg h "?v n" _ w for n]
  have "desfecho cfg h w (case tratador_fase (coms (?v n) h) of
      SemTratador \<Rightarrow> destroy cfg h (?v n)
    | RespostaAutenticacao \<Rightarrow> res_bind (cancela_conn_timeout h (?v n)) (resposta_autenticacao cfg h c p)
    | RespostaComando \<Rightarrow> res_bind (cancela_conn_timeout h (?v n)) (resposta_comando cfg h c p))" for n c p
    by (rule volta [of n]) (auto simp: st v split: fase.split
      intro!: desfecho_destroy desfecho_apos_cancela desfecho_resp_auth desfecho_resposta)
  moreover have "desfecho cfg h w (destroy cfg h (?v n))" for n
    by (rule volta [of n]) (simp_all add: st v desfecho_destroy)
  ultimately show ?thesis
    unfolding com_recv_callback_def completo_eq Let_def res_bind_Inr
    using desfecho_Inr [OF w, of cfg w]
    by (auto intro!: desfecho_dados [OF correto_sat] desfecho_dados [OF parse_sat] split: prod.split)
qed

lemma desfecho_read: "viva h w \<Longrightarrow> desfecho cfg h w (com_read_callback cfg h w)"
proof -
  assume w: "viva h w"
  have "desfecho cfg h w (com_recv_callback cfg h d (poe_recv_buf h b w))" for d b
    by (rule desfecho_mono [OF desfecho_recv [OF viva_recv [OF w]]]) (simp add: mesmo_fim_def poe_recv_buf_def)
  with w show ?thesis
    by (simp add: com_read_callback_def tcp_read_callback_def desfecho_destroy split: recv_res.split)
qed

lemma desfecho_write: "viva h w \<Longrightarrow> desfecho cfg h w (com_write_callback cfg h w)"
proof -
  assume w: "viva h w"
  let ?w = "muda_conn h (\<lambda>c. c\<lparr>connecting := False\<rparr>) w"
  have k: "viva h ?w" using w by (rule viva_conn)
  then obtain v where v: "cancela_conn_timeout h ?w = Inr v" "viva h v" "iguais h ?w v" using viva_cancela by blast
  have "desfecho cfg h w (destroy cfg h (muda_com h (\<lambda>c. c\<lparr>status := 1\<rparr>) v))"
    by (rule desfecho_mono [OF desfecho_destroy [OF viva_com [OF v(2)]]]) (simp_all add: mesmo_fim_falha)
  moreover have "desfecho cfg h w (autenticacao h v)"
    by (rule desfecho_mono [OF desfecho_autenticacao [OF v(2)]]) (use v(3) in \<open>simp add: iguais_def mesmo_fim_def\<close>)
  ultimately have "desfecho cfg h w (client_conectou (destroy cfg) connection_callback h w)"
    using v(1) by (simp add: client_conectou_def connection_callback_def Let_def)
  then show ?thesis
    using w by (auto simp: com_write_callback_def client_send_callback_def viva_conn
      intro!: desfecho_destroy desfecho_Inr desfecho_Inl split: send_res.split)
qed

lemma desfecho_timeout: "viva h w \<Longrightarrow> desfecho cfg h w (com_conn_timeout cfg h w)"
proof -
  assume w: "viva h w"
  have "desfecho cfg h w (destroy cfg h (muda_com h (\<lambda>c. c\<lparr>status := 1\<rparr>) w))"
    by (rule desfecho_mono [OF desfecho_destroy [OF viva_com [OF w]]]) (simp_all add: mesmo_fim_falha)
  with desfecho_destroy [OF w] show ?thesis by (simp add: com_conn_timeout_def Let_def)
qed

text \<open>The end of the connection: the process exits with the status, or the loop is left with nothing to do.\<close>

lemma destroy_viva:
  assumes "viva h v"
  shows "if status (coms v h) \<noteq> 0 then destroy cfg h v = Inl (SystemExit (status (coms v h)))
    else \<exists>w'. destroy cfg h v = Inr w' \<and> items w' = [] \<and> pending w' = [] \<and> coms w' = coms v \<and> conns w' = conns v"
proof -
  have cb: "destroyed_callback cfg h v = observador_resultado (status (coms v h)) v"
    using assms by (auto simp: destroyed_callback_def com_destroyed_callback_def viva_def split: subclasse.split)
  have vivo: "\<not> h_destroyed (hobjs v h)" "items v = [h]" "inv_tempo v" using assms by (simp_all add: viva_def)
  show ?thesis
  proof (cases "status (coms v h) = 0")
    case False
    with cb vivo show ?thesis by (simp add: destroy_def handler_destroy_def observador_resultado_def)
  next
    case True
    with cb have "destroyed_callback cfg h v = Inr v" by (simp add: observador_resultado_def)
    moreover have "h \<in> set (items v)" using vivo(2) by simp
    ultimately obtain ps where ps: "destroy cfg h v =
        Inr (v\<lparr>hobjs := (hobjs v)(h := (hobjs v h)\<lparr>h_destroyed := True\<rparr>), items := remove1 h (items v),
               tobjs := invalida_de (Some h) (pending v) (tobjs v), pending := ps\<rparr>)"
      "set ps = {t \<in> set (pending v). to_owner (tobjs v t) \<noteq> Some h}"
      unfolding destroy_def by (rule handler_destroy_eq [where dcb = "destroyed_callback cfg" and w = v and h = h, OF vivo(1) _ _ vivo(3)])
    have "set ps = {}" unfolding ps(2) using assms by (auto simp: viva_def)
    then have "ps = []" by simp
    with ps vivo True show ?thesis by simp
  qed
qed

subsection \<open>The loop\<close>

text \<open>What one callback of a connection gives to its socket and takes from it.\<close>

definition trocado :: "nat \<Rightarrow> ocorrencia \<Rightarrow> mundo \<Rightarrow> int list \<times> int list" where
  "trocado h oc w =
    (case oc of
       Leitura g \<Rightarrow> if g = Some h then ([], chegou w) else ([], [])
     | Escrita g \<Rightarrow> if g = Some h then (escrito h w, []) else ([], [])
     | _ \<Rightarrow> ([], []))"

text \<open>
  After sending \<open>env\<close> and receiving \<open>rec\<close>, the connection is alive, or the program has nothing left to do
  and the session had succeeded, with what it had not yet sent still in its buffer.
\<close>

definition roda :: "config \<Rightarrow> nat \<Rightarrow> comando \<Rightarrow> int list \<Rightarrow> int list \<Rightarrow> mundo \<Rightarrow> bool" where
  "roda cfg h D env rec w \<longleftrightarrow>
    viva h w \<and> (\<exists>rs. sessao cfg h D env rs w \<and> fluxo h rec rs w) \<or>
    items w = [] \<and> pending w = [] \<and>
      (\<exists>rs v rec0 resto. rec = rec0 @ resto \<and> sessao cfg h D env rs v \<and> fluxo h rec0 rs v \<and> viva h v \<and>
        status (coms v h) = 0 \<and> send_buf (conns w h) = send_buf (conns v h))"

lemma roda_desfecho:
  assumes "viva h w" and "sessao cfg h D env rs w" and "fluxo h rec rs w" and "desfecho cfg h w m"
    and "\<And>w'. m = Inr w' \<Longrightarrow> \<not> h_destroyed (hobjs w' h) \<Longrightarrow>
      \<exists>rs. sessao cfg h D (env @ e) rs w' \<and> fluxo h (rec @ d) rs w'"
    and "\<And>w'. m = Inr w' \<Longrightarrow> h_destroyed (hobjs w' h) \<Longrightarrow> e = []"
  shows "res_sat (\<lambda>e. e \<noteq> SystemExit 0) (roda cfg h D (env @ e) (rec @ d)) m"
  using assms(4) unfolding desfecho_def
proof (elim disjE exE conjE)
  fix v
  assume v: "viva h v" "mesmo_fim h v w" "m = destroy cfg h v"
  show ?thesis
  proof (cases "status (coms v h) = 0")
    case True
    with destroy_viva [OF v(1), of cfg] v(3) obtain w' where w': "m = Inr w'" "items w' = []" "pending w' = []"
      "conns w' = conns v" by auto
    have "h_destroyed (hobjs w' h)" using destroy_destruido w'(1) v(3) by metis
    with assms(6) w'(1) have "e = []" by blast
    moreover have "status (coms w h) = 0" "send_buf (conns w' h) = send_buf (conns w h)"
      using True v(2) w'(4) by (simp_all add: mesmo_fim_def)
    ultimately have "roda cfg h D (env @ e) (rec @ d) w'"
      unfolding roda_def using w'(2,3) assms(1-3)
      by (intro disjI2 conjI exI [of _ rs] exI [of _ w] exI [of _ rec] exI [of _ d]) simp_all
    with w'(1) show ?thesis by simp
  next
    case False
    with destroy_viva [OF v(1), of cfg] v(3) show ?thesis by simp
  qed
next
  fix v
  assume v: "viva h v" "m = Inr v"
  then have "\<not> h_destroyed (hobjs v h)" by (simp add: viva_def)
  with v assms(5) show ?thesis by (auto simp: roda_def)
qed simp

lemma escrita_viva:
  assumes "viva h w" and "com_write_callback cfg h w = Inr w'" and "h_destroyed (hobjs w' h)"
  shows "escrito h w = []"
  using assms by (auto simp: escrito_def com_write_callback_def client_send_callback_def viva_def
      split: send_res.splits if_splits)

lemma fluxo_igual: "fluxo h rec rs w \<Longrightarrow> conns w' h = conns w h \<Longrightarrow> fluxo h rec rs w'"
  by (simp add: fluxo_def)

lemma sessao_octetos: "sessao cfg h D env rs w \<Longrightarrow> bytes (recv_buf (conns w h))"
  using sessao_sessao_ok by (fastforce simp: sessao_ok_def Let_def)

interpretation comando: laco "metodos_mundo cfg" "roda cfg h D env rec"
    "\<lambda>oc w. roda cfg h D (env @ fst (trocado h oc w)) (rec @ snd (trocado h oc w))"
    "\<lambda>_ e. e \<noteq> SystemExit 0" "\<lambda>w. recv_valido (a_recv (amb w))" for cfg h D env rec
proof
  fix w :: mundo and h' t a b
  assume r: "roda cfg h D env rec w"
  then show "inj_on (fd_de w) (set (items w))" by (auto simp: roda_def viva_def)
  show "roda cfg h D env rec (w\<lparr>agora := a, amb := b\<rparr>)"
  proof (cases "viva h w \<and> (\<exists>rs. sessao cfg h D env rs w \<and> fluxo h rec rs w)")
    case True
    then obtain rs where s: "viva h w" "sessao cfg h D env rs w" "fluxo h rec rs w" by blast
    have "sessao cfg h D env rs (w\<lparr>agora := a, amb := b\<rparr>)" by (rule sessao.outros [OF s(2)]) simp_all
    moreover have "fluxo h rec rs (w\<lparr>agora := a, amb := b\<rparr>)" by (rule fluxo_igual [OF s(3)]) simp
    ultimately show ?thesis unfolding roda_def using viva_ambiente [OF s(1)] by blast
  next
    case False
    with r show ?thesis unfolding roda_def by simp
  qed
  show "roda cfg h D (env @ fst (trocado h Prazo w)) (rec @ snd (trocado h Prazo w)) w"
    using r by (simp add: trocado_def)
  have vive: "viva h w \<and> (\<exists>rs. sessao cfg h D env rs w \<and> fluxo h rec rs w)" if "items w \<noteq> [] \<or> pending w \<noteq> []"
    using r that by (auto simp: roda_def)
  have unico: "h' = h \<and> classe_de w h = CComando" if "viva h w" "h' \<in> set (items w)"
    using that by (simp add: viva_def)
  show "res_sat (\<lambda>e. e \<noteq> SystemExit 0)
      (roda cfg h D (env @ fst (trocado h (Leitura (Some h')) w)) (rec @ snd (trocado h (Leitura (Some h')) w)))
      (m_read_callback (metodos_mundo cfg) h' w)"
    if h': "h' \<in> set (items w)" and v: "recv_valido (a_recv (amb w))"
  proof -
    from vive h' obtain rs where s: "viva h w" "sessao cfg h D env rs w" "fluxo h rec rs w" by fastforce
    from roda_desfecho [OF s desfecho_read [OF s(1)], of "[]" "chegou w"]
      sessao.le [OF s(2) v] le_fluxo [OF s(3) sessao_octetos [OF s(2)] v]
    have "res_sat (\<lambda>e. e \<noteq> SystemExit 0) (roda cfg h D env (rec @ chegou w)) (com_read_callback cfg h w)" by fastforce
    then show ?thesis using unico [OF s(1) h'] by (simp add: metodos_mundo_def trocado_def)
  qed
  show "res_sat (\<lambda>e. e \<noteq> SystemExit 0)
      (roda cfg h D (env @ fst (trocado h (Escrita (Some h')) w)) (rec @ snd (trocado h (Escrita (Some h')) w)))
      (m_write_callback (metodos_mundo cfg) h' w)"
    if h': "h' \<in> set (items w)"
  proof -
    from vive h' obtain rs where s: "viva h w" "sessao cfg h D env rs w" "fluxo h rec rs w" by fastforce
    from roda_desfecho [OF s desfecho_write [OF s(1)], of "escrito h w" "[]"]
      sessao.escreve [OF s(2)] escreve_fluxo [OF s(3)] escrita_viva [OF s(1)]
    have "res_sat (\<lambda>e. e \<noteq> SystemExit 0) (roda cfg h D (env @ escrito h w) rec) (com_write_callback cfg h w)" by fastforce
    then show ?thesis using unico [OF s(1) h'] by (simp add: metodos_mundo_def trocado_def)
  qed
  show "res_sat (\<lambda>e. e \<noteq> SystemExit 0)
      (roda cfg h D (env @ fst (trocado h (Excepcional (Some h')) w)) (rec @ snd (trocado h (Excepcional (Some h')) w)))
      (m_exceptional_callback (metodos_mundo cfg) h' w)"
    if "h' \<in> set (items w)" "is_exceptional (metodos_mundo cfg) h' w"
    using that(2) by (simp add: metodos_mundo_def handler_is_exceptional_def)
  show "res_sat (\<lambda>e. e \<noteq> SystemExit 0)
      (roda cfg h D (env @ fst (trocado h Prazo w)) (rec @ snd (trocado h Prazo w)))
      (m_timeout (metodos_mundo cfg) (to_callback (tobjs w t)) t (w\<lparr>pending := remove1 t (pending w)\<rparr>))"
    if t: "t \<in> set (pending w)"
  proof -
    let ?w = "w\<lparr>pending := remove1 t (pending w)\<rparr>"
    from vive t obtain rs where s: "viva h w" "sessao cfg h D env rs w" "fluxo h rec rs w" by fastforce
    then have cb: "to_callback (tobjs w t) = CbConn h" using t by (auto simp: viva_def)
    have v: "viva h ?w" using s(1) by (rule viva_dispara)
    have s': "sessao cfg h D env rs ?w" by (rule sessao.outros [OF s(2)]) simp_all
    have f: "fluxo h rec rs ?w" by (rule fluxo_igual [OF s(3)]) simp
    have d: "h_destroyed (hobjs w' h)" if "com_conn_timeout cfg h ?w = Inr w'" for w'
      using that by (auto simp: com_conn_timeout_def Let_def split: if_splits dest: destroy_destruido)
    have "res_sat (\<lambda>e. e \<noteq> SystemExit 0) (roda cfg h D (env @ []) (rec @ [])) (com_conn_timeout cfg h ?w)"
      using roda_desfecho [OF v s' f desfecho_timeout [OF v], of "[]" "[]"] d by blast
    then show ?thesis by (simp add: cb metodos_mundo_def chama_timeout_def trocado_def)
  qed
qed

text \<open>Answers of the operating system that are possible in each cycle of a run.\<close>

fun respostas_validas :: "config \<Rightarrow> resposta list \<Rightarrow> mundo \<Rightarrow> bool" where
  "respostas_validas cfg [] w \<longleftrightarrow> True"
| "respostas_validas cfg (r # rs) w \<longleftrightarrow>
    resposta_valida cfg r w \<and>
    (case ciclo cfg r w of Inl _ \<Rightarrow> True | Inr (continua, w') \<Rightarrow> continua \<longrightarrow> respostas_validas cfg rs w')"

text \<open>All that the connection \<open>h\<close> gives to its socket and takes from it in a run of the loop.\<close>

definition trafego_ciclo :: "config \<Rightarrow> nat \<Rightarrow> resposta \<Rightarrow> mundo \<Rightarrow> int list \<times> int list" where
  "trafego_ciclo cfg h r w =
    (if sem_tarefas (metodos_mundo cfg) w then ([], [])
     else trocado h (ocorrencia_de r w) (w\<lparr>agora := r_agora r, amb := r_amb r\<rparr>))"

fun trafego :: "config \<Rightarrow> nat \<Rightarrow> resposta list \<Rightarrow> mundo \<Rightarrow> int list \<times> int list" where
  "trafego cfg h [] w = ([], [])"
| "trafego cfg h (r # rs) w =
    (let io = trafego_ciclo cfg h r w;
         mais = (case ciclo cfg r w of Inr (True, w') \<Rightarrow> trafego cfg h rs w' | _ \<Rightarrow> ([], []))
     in (fst io @ fst mais, snd io @ snd mais))"

lemma loop_roda:
  "roda cfg h D env rec w \<Longrightarrow> respostas_validas cfg rs w \<Longrightarrow>
    res_sat (\<lambda>e. e \<noteq> SystemExit 0)
      (\<lambda>(acabou, w'). roda cfg h D (env @ fst (trafego cfg h rs w)) (rec @ snd (trafego cfg h rs w)) w' \<and>
        (acabou \<longrightarrow> sem_tarefas (metodos_mundo cfg) w'))
      (loop (metodos_mundo cfg) rs w)"
proof (induction rs arbitrary: env rec w)
  case (Cons r rs)
  show ?case
  proof (cases "sem_tarefas (metodos_mundo cfg) w")
    case True
    with Cons.prems(1) show ?thesis by (simp add: cycle_def trafego_ciclo_def)
  next
    case False
    let ?io = "trafego_ciclo cfg h r w"
    have c: "res_sat (\<lambda>e. e \<noteq> SystemExit 0) (\<lambda>(b, w'). b \<and> roda cfg h D (env @ fst ?io) (rec @ snd ?io) w')
        (ciclo cfg r w)"
      unfolding trafego_ciclo_def if_not_P [OF False]
      by (rule comando.ciclo_preserva [OF Cons.prems(1)])
        (use Cons.prems(2) False in \<open>simp_all add: resposta_valida_def metodos_mundo_def handler_is_exceptional_def\<close>)
    show ?thesis
    proof (cases "ciclo cfg r w")
      case (Inl e)
      with c show ?thesis by simp
    next
      case (Inr x)
      with c obtain w' where x: "x = (True, w')" "roda cfg h D (env @ fst ?io) (rec @ snd ?io) w'" by (cases x) auto
      with Cons.IH [OF x(2)] Cons.prems(2) Inr show ?thesis by (simp add: Let_def)
    qed
  qed
qed simp

lemma viva_tem_tarefa: "viva h w \<Longrightarrow> \<not> sem_tarefas (metodos_mundo cfg) w"
  by (auto simp: sem_tarefas_def readable_fds_def writable_fds_def metodos_mundo_def client_is_readable_def
      client_is_writable_def viva_def)

subsection \<open>Properties\<close>

lemma inicia_roda:
  assumes "pd_acao p = Executa s" and "\<forall>f. s \<noteq> ObtemFotosDeEvento f"
    and "comandar_inicia p (mundo_vazio t0 a) = Inr w"
  shows "roda cfg 1 (coms w 1) [] [] w \<and> senha (coms w 1) = pd_senha p \<and> tam_senha (coms w 1) = pd_tam_senha p \<and>
    sub (coms w 1) = s"
proof -
  have w: "viva 1 w" "conns w 1 = \<lparr>recv_buf = [], send_buf = [], connecting = True\<rparr>"
    "tratador_fase (coms w 1) = SemTratador" "status (coms w 1) = 1" "senha (coms w 1) = pd_senha p"
    "tam_senha (coms w 1) = pd_tam_senha p" "sub (coms w 1) = s"
    using assms
    by (auto simp: comandar_inicia_def comandar_executa_def comandar_init_def client_init_def novo_socket_def handler_init_def
        handler_timeout_def timeout_new_eq mundo_vazio_def Let_def viva_def inv_tempo_def
        res_bind_Inr_iff split: connect_res.splits if_splits)
  then have "sessao cfg 1 (coms w 1) [] [] w" by (intro sessao.abre) simp_all
  moreover have "fluxo 1 [] [] w" using w(2) by (simp add: fluxo_def)
  ultimately show ?thesis using w by (auto simp: roda_def)
qed

text \<open>C25. A run of \<^verbatim>\<open>comandar\<close> with any command but the download of a photo ends with exit status 0 only if the command
  has the zone it needs, the stream received in the run begins with a correct packet that accepts the password and
  one that answers the command, and what the run gave to the socket, with what its buffer still holds at the end,
  is exactly the authentication, the command and the farewell. In every other case, whatever the panel and the
  network do, the exit status is not 0.\<close>

theorem comandar_exit_status:
  assumes "comandar_argumentos argv = Inr p" and "pd_acao p = Executa s"
    and "comandar_inicia p (mundo_vazio t0 a) = Inr w" and "respostas_validas cfg rs w"
  shows "case loop (metodos_mundo cfg) rs w of
      Inl e \<Rightarrow> exit_status (loop (metodos_mundo cfg) rs w) \<noteq> 0
    | Inr (acabou, w') \<Rightarrow> acabou \<longrightarrow> zona_ok s \<and>
        fst (trafego cfg 1 rs w) @ send_buf (conns w' 1) = pacote_isecnet2_auth (pd_senha p) (pd_tam_senha p) @
          pacote_isecnet2 (fst (comando_de s)) (snd (comando_de s)) @ pacote_isecnet2 0xf0f1 [] \<and>
        (\<exists>q1 q2 c resp resto. snd (trafego cfg 1 rs w) = q1 @ q2 @ resto \<and>
          pacote_isecnet2_correto q1 = Inr True \<and> pacote_isecnet2_parse q1 = Inr (0xf0f0, [0]) \<and>
          pacote_isecnet2_correto q2 = Inr True \<and> pacote_isecnet2_parse q2 = Inr (c, resp) \<and>
          (c = fst (comando_de s) \<or> c = 0xf0fe))"
proof -
  have nf: "\<forall>f. s \<noteq> ObtemFotosDeEvento f"
    using comandar_argumentos_sub [OF assms(1,2)] .
  have i: "roda cfg 1 (coms w 1) [] [] w" "senha (coms w 1) = pd_senha p" "tam_senha (coms w 1) = pd_tam_senha p"
    "sub (coms w 1) = s" using inicia_roda [OF assms(2) nf assms(3)] by simp_all
  let ?env = "fst (trafego cfg 1 rs w)" and ?rec = "snd (trafego cfg 1 rs w)"
  have l: "res_sat (\<lambda>e. e \<noteq> SystemExit 0)
      (\<lambda>(acabou, w'). roda cfg 1 (coms w 1) ?env ?rec w' \<and> (acabou \<longrightarrow> sem_tarefas (metodos_mundo cfg) w'))
      (loop (metodos_mundo cfg) rs w)"
    using loop_roda [OF i(1) assms(4)] by simp
  have fim: "zona_ok s \<and> ?env @ send_buf (conns w' 1) = pacote_isecnet2_auth (pd_senha p) (pd_tam_senha p) @
        pacote_isecnet2 (fst (comando_de s)) (snd (comando_de s)) @ pacote_isecnet2 0xf0f1 [] \<and>
      (\<exists>q1 q2 c resp resto. ?rec = q1 @ q2 @ resto \<and>
        pacote_isecnet2_correto q1 = Inr True \<and> pacote_isecnet2_parse q1 = Inr (0xf0f0, [0]) \<and>
        pacote_isecnet2_correto q2 = Inr True \<and> pacote_isecnet2_parse q2 = Inr (c, resp) \<and>
        (c = fst (comando_de s) \<or> c = 0xf0fe))"
    if "roda cfg 1 (coms w 1) ?env ?rec w'" "sem_tarefas (metodos_mundo cfg) w'" for w'
  proof -
    from that viva_tem_tarefa [of 1 w' cfg] obtain ps v rec0 resto where
      v: "sessao cfg 1 (coms w 1) ?env ps v" "status (coms v 1) = 0" "?rec = rec0 @ resto" "fluxo 1 rec0 ps v"
        "send_buf (conns w' 1) = send_buf (conns v 1)" by (auto simp: roda_def)
    have ok: "sessao_ok 1 (coms w 1) ?env ps v" by (rule sessao_sessao_ok [OF v(1)])
    with v(2) have e: "etapa_de 1 v = Despedindo" by (cases "etapa_de 1 v") (auto simp: sessao_ok_def Let_def)
    with ok i nf have sv: "sub (coms v 1) = s"
      by (cases s) (auto simp: sessao_ok_def mesma_tarefa_def mesma_sub_def Let_def)
    with ok e i nf obtain c resp where
      r: "ps = [(0xf0f0, [0]), (c, resp)]" "c = fst (comando_de s) \<or> c = 0xf0fe" "zona_ok s"
      "?env @ send_buf (conns v 1) = pacote_isecnet2_auth (pd_senha p) (pd_tam_senha p) @
        pacote_isecnet2 (fst (comando_de s)) (snd (comando_de s)) @ pacote_isecnet2 0xf0f1 []"
      by (cases s) (auto simp: sessao_ok_def respostas_def pedidos_def pacote_isecnet2_bye_def Let_def)
    from v(4) r(1) obtain q1 q2 where "rec0 = q1 @ q2 @ recv_buf (conns v 1)"
      "pacote_isecnet2_correto q1 = Inr True" "pacote_isecnet2_parse q1 = Inr (0xf0f0, [0])"
      "pacote_isecnet2_correto q2 = Inr True" "pacote_isecnet2_parse q2 = Inr (c, resp)"
      by (auto simp: fluxo_def list_all2_Cons2)
    with r v(3,5) show ?thesis by (metis append.assoc)
  qed
  show ?thesis
    using l fim by (cases "loop (metodos_mundo cfg) rs w") (auto simp: exit_status_def split: excecao.split)
qed

text \<open>A run in which the panel accepts the password and the command.\<close>


definition argv_exemplo :: "string list" where
  "argv_exemplo = [''comandar'', ''10.0.0.9'', ''90'', ''1234'', ''4'', ''ativar'', ''2'']"

definition pedido_exemplo :: pedido where
  "pedido_exemplo = \<lparr>pd_ipaddr = ''10.0.0.9'', pd_cport = 90, pd_senha = 1234, pd_tam_senha = 4,
     pd_acao = Executa (AtivarDesativarCentral (Some 2) 1)\<rparr>"

definition execucao_exemplo :: mundo where
  "execucao_exemplo = fim_de (comandar_inicia pedido_exemplo (mundo_vazio 0 amb_sessao))"

definition ciclo_exemplo :: "nat list \<Rightarrow> nat list \<Rightarrow> rat \<Rightarrow> ambiente \<Rightarrow> resposta" where
  "ciclo_exemplo rd wr t a = \<lparr>r_rd = rd, r_wr = wr, r_ex = [], r_agora = t, r_amb = a\<rparr>"

definition ciclos_exemplo :: "resposta list" where
  "ciclos_exemplo =
    [ciclo_exemplo [] [0] 1 amb_sessao,
     ciclo_exemplo [] [0] 2 (amb_sessao\<lparr>a_send := SendOk 15\<rparr>),
     ciclo_exemplo [0] [] 3 (amb_sessao\<lparr>a_recv := RecvDados (pacote_isecnet2 0xf0f0 [0])\<rparr>),
     ciclo_exemplo [] [0] 4 (amb_sessao\<lparr>a_send := SendOk 11\<rparr>),
     ciclo_exemplo [0] [] 5 (amb_sessao\<lparr>a_recv := RecvDados (pacote_isecnet2 0x401e [1])\<rparr>),
     ciclo_exemplo [] [0] 6 (amb_sessao\<lparr>a_send := SendOk 9\<rparr>),
     ciclo_exemplo [0] [] 7 (amb_sessao\<lparr>a_recv := RecvDados []\<rparr>)]"

lemma argv_exemplo_lido: "comandar_argumentos argv_exemplo = Inr pedido_exemplo"
proof -
  have t: "py_int ''90'' = Inr 90" "py_int ''1234'' = Inr 1234" "py_int ''4'' = Inr 4" "py_int ''2'' = Inr 2"
    "strip (lower ''10.0.0.9'') = ''10.0.0.9''" by code_simp+
  show ?thesis
    by (simp add: comandar_argumentos_def argv_exemplo_def acao_de_def tratadores_def particao_ou_zona_def t
        pedido_exemplo_def)
qed

lemma ciclos_exemplo_validos: "respostas_validas cfg_sessao ciclos_exemplo execucao_exemplo"
  by code_simp

lemma ciclos_exemplo_fim:
  "case loop (metodos_mundo cfg_sessao) ciclos_exemplo execucao_exemplo of
     Inl e \<Rightarrow> False | Inr (acabou, w') \<Rightarrow> acabou \<and> send_buf (conns w' 1) = []"
  by code_simp

theorem comandar_exit_status_exemplo:
  "fst (trafego cfg_sessao 1 ciclos_exemplo execucao_exemplo) =
    pacote_isecnet2_auth 1234 4 @ pacote_isecnet2 0x401e [2, 1] @ pacote_isecnet2 0xf0f1 []"
proof -
  have "\<not> isl (comandar_inicia pedido_exemplo (mundo_vazio 0 amb_sessao))" by code_simp
  then have i: "comandar_inicia pedido_exemplo (mundo_vazio 0 amb_sessao) = Inr execucao_exemplo"
    unfolding execucao_exemplo_def by (rule fim_deI)
  have s: "pd_acao pedido_exemplo = Executa (AtivarDesativarCentral (Some 2) 1)" by (simp add: pedido_exemplo_def)
  from comandar_exit_status [OF argv_exemplo_lido s i ciclos_exemplo_validos] ciclos_exemplo_fim
  show ?thesis
    by (cases "loop (metodos_mundo cfg_sessao) ciclos_exemplo execucao_exemplo")
      (auto simp: pedido_exemplo_def comando_de_def)
qed

end
