(* ===== verification/Udp.thy ===== *)
theory Udp
  imports Manipulador
begin

text \<open>
  Datagram handlers, \<^verbatim>\<open>alarmeitbl/myeventloop/udpserver.py\<close> (class \<^verbatim>\<open>UDPServerHandler\<close>). The queue of
  datagrams to send of handler \<open>h\<close> is \<open>datagramas w h\<close>; the outcome of \<^verbatim>\<open>bind\<close>, \<^verbatim>\<open>recvfrom\<close> and \<^verbatim>\<open>sendto\<close> and
  the abstract \<^verbatim>\<open>recv_callback\<close> are arguments. \<^verbatim>\<open>UDPServerEventLoop\<close> adds nothing to \<^verbatim>\<open>EventLoop\<close>.
\<close>

type_synonym endereco = "string \<times> int"
type_synonym datagrama = "endereco \<times> int list"

record ('cb, 'k) udp = "('cb, 'k) registro" +
  datagramas :: "nat \<Rightarrow> datagrama list"

datatype recvfrom_res = RecvfromErro | RecvfromOk "int list" endereco

definition udp_init ::
  "bool \<Rightarrow> endereco \<Rightarrow> string option \<Rightarrow> 'k \<Rightarrow> ('cb, 'k, 'z) udp_scheme \<Rightarrow> (nat \<times> ('cb, 'k, 'z) udp_scheme) res" where
  "udp_init bind_ok addr label0 classe w =
    (let (fd, w) = novo_socket w
     in if \<not> bind_ok then Inl OSErro
        else
          let label = (case label0 of
                  Some l \<Rightarrow> if l = [] then fst addr @ '':'' @ fmt_d (snd addr) else l
                | None \<Rightarrow> fst addr @ '':'' @ fmt_d (snd addr));
              (h, w) = handler_init label fd classe w
          in Inr (h, w\<lparr>datagramas := (datagramas w)(h := [])\<rparr>))"

definition udp_read_callback ::
  "(nat \<Rightarrow> endereco \<Rightarrow> int list \<Rightarrow> ('cb, 'k, 'z) udp_scheme \<Rightarrow> ('cb, 'k, 'z) udp_scheme res) \<Rightarrow> recvfrom_res \<Rightarrow>
    nat \<Rightarrow> ('cb, 'k, 'z) udp_scheme \<Rightarrow> ('cb, 'k, 'z) udp_scheme res" where
  "udp_read_callback recv_callback r h w =
    (case r of RecvfromErro \<Rightarrow> Inr w | RecvfromOk dgram addr \<Rightarrow> recv_callback h addr dgram w)"





subsection \<open>Properties\<close>







end
