(* ===== verification/Spec2Isabelle.thy ===== *)
theory Spec2Isabelle
  imports Relato Relatorio Execucao Udp
begin

text \<open>Header.\<close>

section \<open>Properties of the receiver as a whole\<close>

subsection \<open>A short run, for the examples\<close>

definition resposta_exemplo :: "nat list \<Rightarrow> rat \<Rightarrow> ambiente \<Rightarrow> resposta" where
  "resposta_exemplo rd t a = \<lparr>r_rd = rd, r_wr = [], r_ex = [], r_agora = t, r_amb = a\<rparr>"

definition inicio_exemplo :: mundo where
  "inicio_exemplo = receptor_init 0 amb_exemplo"

definition aceita_exemplo :: resposta where
  "aceita_exemplo = resposta_exemplo [1] 1 (amb_exemplo\<lparr>a_accept := AcceptOk ''10.0.0.9'' 1234\<rparr>)"

definition aceito_exemplo :: mundo where
  "aceito_exemplo = (case ciclo cfg_exemplo aceita_exemplo inicio_exemplo of
     Inl _ \<Rightarrow> inicio_exemplo | Inr (_, w) \<Rightarrow> w)"

lemma tam_exemplo: "cfg_tam_senha cfg_exemplo \<le> 6"
  by (simp add: cfg_exemplo_def)

lemma inicio_exemplo_alcancavel: "alcancavel cfg_exemplo inicio_exemplo"
  unfolding inicio_exemplo_def by (rule alcancavel.inicio)

lemma aceita_exemplo_valida: "resposta_valida cfg_exemplo aceita_exemplo inicio_exemplo"
  by code_simp

lemma aceito_exemplo_alcancavel: "alcancavel cfg_exemplo aceito_exemplo"
proof -
  have "res_sat (\<lambda>_. False) (\<lambda>(b, w). b) (ciclo cfg_exemplo aceita_exemplo inicio_exemplo)" by code_simp
  then have "ciclo cfg_exemplo aceita_exemplo inicio_exemplo = Inr (True, aceito_exemplo)"
    by (cases "ciclo cfg_exemplo aceita_exemplo inicio_exemplo") (auto simp: aceito_exemplo_def)
  from avanco [OF inicio_exemplo_alcancavel passo [OF aceita_exemplo_valida this]] show ?thesis .
qed

lemma aceito_exemplo_conexao: "items aceito_exemplo = [2, 5] \<and> classe_de aceito_exemplo 5 = CTratador"
  by code_simp

subsection \<open>Invariants\<close>



text \<open>C5. The number of connections whose panel has been identified never exceeds the configured maximum, in any
  order of connections, identifications and disconnections.\<close>

theorem limite_de_centrais:
  assumes "alcancavel cfg w" and "cfg_tam_senha cfg \<le> 6"
  shows "centrais_conectadas w \<le> max 0 (maxconn cfg)"
  using alcancavel_inv [OF assms] by (simp add: invar_def limite_def)

theorem limite_de_centrais_exemplo: "centrais_conectadas aceito_exemplo \<le> 2"
  using limite_de_centrais [OF aceito_exemplo_alcancavel tam_exemplo] by (simp add: cfg_exemplo_def)

text \<open>C4. Every connection from a panel is watched: its communication timeout is pending, its identification timeout
  is pending exactly while it has not been identified, and while octets wait in the buffer of a connection that
  is not ignored, either their processing or the timeout for an incomplete message is pending. A connection
  owns no other timeout, and its buffers hold octets.\<close>

theorem conexao_vigiada:
  assumes "alcancavel cfg w" and "cfg_tam_senha cfg \<le> 6" and "h \<in> set (items w)" and "classe_de w h = CTratador"
  shows "let T = trats w h;
      vigia = (\<lambda>t cb. t \<in> set (pending w) \<and> to_owner (tobjs w t) = Some h \<and> to_callback (tobjs w t) = cb)
    in vigia (to_comm T) (CbComm h) \<and>
      (if central_identificada T then to_ident T = None else \<exists>t. to_ident T = Some t \<and> vigia t (CbIdent h)) \<and>
      (recv_buf (conns w h) \<noteq> [] \<and> \<not> ignorar T \<longrightarrow>
        (\<exists>t. to_processa T = Some t \<and> vigia t (CbProcMsg h)) \<or>
        (\<exists>t. to_incompleta T = Some t \<and> vigia t (CbMsgIncompleta h))) \<and>
      (\<forall>t\<in>set (pending w). to_owner (tobjs w t) = Some h \<longrightarrow>
        t = to_comm T \<or> Some t \<in> {to_ident T, to_processa T, to_incompleta T, to_backoff T}) \<and>
      bytes (recv_buf (conns w h)) \<and> bytes (send_buf (conns w h))"
proof -
  let ?T = "trats w h"
  have tk: "trat_ok h ?T (conns w h) (dono w h)" "trat_vivo ?T (conns w h)"
    using inv_tok [OF alcancavel_inv [OF assms(1,2)] assms(3,4)] by (simp_all add: tok_def)
  have v: "arm (dono w h) t cb \<longleftrightarrow>
      t \<in> set (pending w) \<and> to_owner (tobjs w t) = Some h \<and> to_callback (tobjs w t) = cb" for t cb
    by (auto simp: arm_def dono_Some pv_Some)
  have so: "t = to_comm ?T \<or> Some t \<in> {to_ident ?T, to_processa ?T, to_incompleta ?T, to_backoff ?T}"
    if "t \<in> set (pending w)" "to_owner (tobjs w t) = Some h" for t
  proof -
    have "dono w h t = Some (tobjs w t)" using that by (simp add: dono_Some pv_Some)
    with tk(1) show ?thesis unfolding trat_ok_def by fastforce
  qed
  have op: "r = None \<or> (\<exists>t. r = Some t \<and> arm (dono w h) t cb)" if "arm_opt (dono w h) r cb" for r cb
    using that by (cases r) auto
  have ai: "arm_opt (dono w h) (to_ident ?T) (CbIdent h)" "central_identificada ?T \<longleftrightarrow> to_ident ?T = None"
    "arm_opt (dono w h) (to_processa ?T) (CbProcMsg h)" "arm_opt (dono w h) (to_incompleta ?T) (CbMsgIncompleta h)"
    "arm (dono w h) (to_comm ?T) (CbComm h)" "bytes (recv_buf (conns w h))" "bytes (send_buf (conns w h))"
    using tk(1) unfolding trat_ok_def by blast+
  have "\<not> central_identificada ?T \<longrightarrow> (\<exists>t. to_ident ?T = Some t \<and> arm (dono w h) t (CbIdent h))"
    "central_identificada ?T \<longrightarrow> to_ident ?T = None"
    using ai(2) op [OF ai(1)] by auto
  moreover have "recv_buf (conns w h) \<noteq> [] \<and> \<not> ignorar ?T \<longrightarrow>
      (\<exists>t. to_processa ?T = Some t \<and> arm (dono w h) t (CbProcMsg h)) \<or>
      (\<exists>t. to_incompleta ?T = Some t \<and> arm (dono w h) t (CbMsgIncompleta h))"
    using tk(2) op [OF ai(3)] op [OF ai(4)] by (auto simp: trat_vivo_def)
  moreover note ai(5-7)
  ultimately show ?thesis using so unfolding v Let_def by auto
qed

theorem conexao_vigiada_exemplo:
  "to_owner (tobjs aceito_exemplo (to_comm (trats aceito_exemplo 5))) = Some 5"
  using conexao_vigiada [OF aceito_exemplo_alcancavel tam_exemplo, of 5] aceito_exemplo_conexao
  by (auto simp: Let_def)

subsection \<open>Photos and periodic tasks\<close>

lemma sem_dono_pendente: "to_owner (tobjs w t) = None \<Longrightarrow> sem_dono w t = None \<longleftrightarrow> t \<notin> set (pending w)"
  by (auto simp: sem_dono_def de_def pv_def)

text \<open>C20. In every reachable state the photo queue and the downloads agree. Without a task the queue is empty and
  nothing is downloaded; while the task waits, nothing is downloaded; otherwise exactly one download is in
  progress, of the photo at the head of the queue. Every entry can be requested and has 1 to 10 attempts left.\<close>

theorem fila_de_fotos:
  assumes "alcancavel cfg w" and "cfg_tam_senha cfg \<le> 6"
  shows "(\<forall>(ip, i, n, k)\<in>set (fila (fotos w)). 0 \<le> i \<and> i < 65536 \<and> 0 \<le> n \<and> n < 256 \<and> 1 \<le> k \<and> k \<le> 10) \<and>
    (let downloads = filter (\<lambda>h. classe_de w h = CComando) (items w)
     in case task (fotos w) of
          None \<Rightarrow> fila (fotos w) = [] \<and> downloads = []
        | Some t \<Rightarrow> to_callback (tobjs w t) = CbFoto \<and> \<not> to_invalid (tobjs w t) \<and>
            (if t \<in> set (pending w) then downloads = []
             else \<exists>h f ip k resto. downloads = [h] \<and> sub (coms w h) = ObtemFotosDeEvento f \<and>
               fila (fotos w) = (ip, of_indice f, of_nrfoto f, k) # resto))"
proof -
  have fo: "fotos_ok w" using alcancavel_inv [OF assms] by (simp add: invar_def)
  then have "\<forall>(ip, i, n, k)\<in>set (fila (fotos w)). 0 \<le> i \<and> i < 65536 \<and> 0 \<le> n \<and> n < 256 \<and> 1 \<le> k \<and> k \<le> 10"
    by (auto simp: fotos_ok_def list_all_iff foto_valida_def byte_def)
  moreover have "case task (fotos w) of
      None \<Rightarrow> fila (fotos w) = [] \<and> em_curso w = []
    | Some t \<Rightarrow> to_callback (tobjs w t) = CbFoto \<and> \<not> to_invalid (tobjs w t) \<and>
        (if t \<in> set (pending w) then em_curso w = [] else \<exists>h. em_curso w = [h] \<and> baixa_primeira w h)"
    using fo sem_dono_pendente [of w] by (auto simp: fotos_ok_def split: option.splits if_splits)
  ultimately show ?thesis
    by (auto simp: em_curso_def baixa_primeira_def Let_def split: option.splits if_splits)
qed

theorem fila_de_fotos_exemplo: "fila (fotos aceito_exemplo) = []"
proof -
  have "task (fotos aceito_exemplo) = None" by code_simp
  then show ?thesis using fila_de_fotos [OF aceito_exemplo_alcancavel tam_exemplo] by (simp add: Let_def)
qed

text \<open>C21. In every reachable state the listener is registered, the watchdog and the check for absent panels are
  pending, a pending timeout is pending once, is valid, and when it has an owner the owner is a registered
  handler that has not been destroyed; registered handlers are distinct and have distinct sockets.\<close>

theorem tarefas_do_receptor:
  assumes "alcancavel cfg w" and "cfg_tam_senha cfg \<le> 6"
  shows "(\<exists>h\<in>set (items w). classe_de w h = CListener) \<and>
    CbWatchdog \<in> to_callback ` tobjs w ` set (pending w) \<and>
    CbCentralNC \<in> to_callback ` tobjs w ` set (pending w) \<and>
    distinct (pending w) \<and>
    (\<forall>t\<in>set (pending w). \<not> to_invalid (tobjs w t) \<and>
      (\<forall>h. to_owner (tobjs w t) = Some h \<longrightarrow> h \<in> set (items w))) \<and>
    (\<forall>h\<in>set (items w). \<not> h_destroyed (hobjs w h)) \<and>
    distinct (map (\<lambda>h. h_fd (hobjs w h)) (items w))"
proof -
  have i: "inv_tempo w" "inv_registro w" "periodicas_ok w" "\<exists>h\<in>set (items w). classe_de w h = CListener"
    using alcancavel_inv [OF assms] by (simp_all add: invar_def)
  have pend: "cb \<in> to_callback ` tobjs w ` set (pending w)" if "\<exists>t. arm (sem_dono w) t cb" for cb
    using that by (auto simp: arm_def sem_dono_def de_Some pv_Some)
  have "distinct (map (\<lambda>h. h_fd (hobjs w h)) (items w))"
    using i(2) by (simp add: inv_registro_def distinct_map)
  moreover have "\<forall>t\<in>set (pending w). \<forall>h. to_owner (tobjs w t) = Some h \<longrightarrow> h \<in> set (items w)"
    using i(2) by (auto simp: inv_registro_def pv_Some)
  ultimately show ?thesis
    using i pend by (simp add: periodicas_ok_def inv_tempo_def inv_registro_def)
qed

theorem tarefas_do_receptor_exemplo: "CbWatchdog \<in> to_callback ` tobjs aceito_exemplo ` set (pending aceito_exemplo)"
  by (intro conjunct1 [OF conjunct2 [OF tarefas_do_receptor [OF aceito_exemplo_alcancavel tam_exemplo]]])

subsection \<open>Timeouts, silence and attempts\<close>



lemma primeiro_prazo:
  assumes "t \<in> set (pending w)" and "to_absolute (tobjs w t) \<le> agora w"
    and "\<forall>u\<in>set (pending w). u \<noteq> t \<longrightarrow> to_absolute (tobjs w t) < to_absolute (tobjs w u)"
  shows "timeout_next w = (to_absolute (tobjs w t), Some t)"
proof (cases "timeout_next w")
  case (Pair to ch)
  show ?thesis
  proof (cases ch)
    case None
    with Pair have "agora w + 86400 \<le> to_absolute (tobjs w t)" using assms(1) by (simp add: timeout_next_None)
    with assms(2) show ?thesis by simp
  next
    case (Some c)
    with Pair have n: "timeout_next w = (to, Some c)" by simp
    then obtain as bs where p: "pending w = as @ c # bs" "to = to_absolute (tobjs w c)"
      "\<forall>t\<in>set as. to < to_absolute (tobjs w t)" "\<forall>t\<in>set bs. to \<le> to_absolute (tobjs w t)"
      by (rule timeout_next_Some)
    have "to \<le> to_absolute (tobjs w t)" using assms(1) p bspec [OF p(3), of t, THEN less_imp_le] by auto
    moreover have "c \<in> set (pending w)" using p(1) by simp
    ultimately have "c = t" using assms(3) p(2) by fastforce
    with n p(2) show ?thesis by simp
  qed
qed

definition quieto_exemplo :: mundo where
  "quieto_exemplo = (case ciclo cfg_exemplo (resposta_exemplo [] 15 amb_exemplo) aceito_exemplo of
     Inl _ \<Rightarrow> aceito_exemplo | Inr (_, w) \<Rightarrow> w)"

lemma quieto_exemplo_alcancavel: "alcancavel cfg_exemplo quieto_exemplo"
proof (cases "ciclo cfg_exemplo (resposta_exemplo [] 15 amb_exemplo) aceito_exemplo")
  case (Inr p)
  moreover have "resposta_valida cfg_exemplo (resposta_exemplo [] 15 amb_exemplo) aceito_exemplo" by code_simp
  moreover have "fst p" using ciclo_inv [OF alcancavel_inv [OF aceito_exemplo_alcancavel tam_exemplo] tam_exemplo calculation(2)] Inr
    by (cases p) simp
  ultimately show ?thesis
    by (cases p) (auto simp: quieto_exemplo_def intro!: avanco [OF aceito_exemplo_alcancavel passo])
qed (simp add: quieto_exemplo_def aceito_exemplo_alcancavel)

lemma aceito_exemplo_pendentes: "pending aceito_exemplo = [0, 3, 6, 7]" "\<not> to_invalid (tobjs aceito_exemplo 0)"
  by code_simp+

lemma aceito_exemplo_callbacks:
  "to_callback (tobjs aceito_exemplo 0) = CbWatchdog" "to_callback (tobjs aceito_exemplo 6) = CbIdent 5"
  by code_simp+

lemma aceito_exemplo_curtos:
  "to_absolute (tobjs aceito_exemplo 0) = 15" "to_absolute (tobjs aceito_exemplo 6) = 121"
  by code_simp+

lemma aceito_exemplo_longos:
  "to_absolute (tobjs aceito_exemplo 3) = 3600" "to_absolute (tobjs aceito_exemplo 7) = 601"
  by code_simp+

lemmas aceito_exemplo_prazos =
  aceito_exemplo_pendentes aceito_exemplo_callbacks aceito_exemplo_curtos aceito_exemplo_longos

lemma quieto_exemplo_eq:
  "let a = aceito_exemplo\<lparr>agora := 15, amb := amb_exemplo\<rparr> in
   quieto_exemplo = arma 0 (let w = emite (Popen (gancho_watchdog cfg_exemplo)) (disparado 0 a) in
     w\<lparr>tobjs := (tobjs w)(0 := (tobjs w 0)\<lparr>to_relative := 3600\<rparr>)\<rparr>)"
proof -
  let ?a = "aceito_exemplo\<lparr>agora := 15, amb := amb_exemplo\<rparr>"
  have nx: "timeout_next ?a = (to_absolute (tobjs ?a 0), Some 0)"
    by (rule primeiro_prazo) (simp_all add: aceito_exemplo_prazos)
  have "\<not> sem_tarefas (metodos_mundo cfg_exemplo) aceito_exemplo"
    using invar_continua [OF alcancavel_inv [OF aceito_exemplo_alcancavel tam_exemplo]] by simp
  with nx show ?thesis
    by (simp add: quieto_exemplo_def cycle_def despacha_def resposta_exemplo_def timeout_handle_def metodos_mundo_def
        chama_timeout_def watchdog_def reset_eq aceito_exemplo_prazos disparado_def Let_def emite_def)
qed

lemma quieto_exemplo_prazos:
  "set (pending quieto_exemplo) = {3, 6, 7, 0}"
  "to_absolute (tobjs quieto_exemplo 3) = 3600" "to_absolute (tobjs quieto_exemplo 6) = 121"
  "to_absolute (tobjs quieto_exemplo 7) = 601" "to_absolute (tobjs quieto_exemplo 0) = 3615"
  "to_callback (tobjs quieto_exemplo 6) = CbIdent 5" "items quieto_exemplo = [2, 5]" "classe_de quieto_exemplo 5 = CTratador"
  using aceito_exemplo_conexao
  by (auto simp: quieto_exemplo_eq [unfolded Let_def] aceito_exemplo_prazos arma_def disparado_def emite_def)

text \<open>C29. A panel connection that stays silent is closed: in any reachable state, when \<^verbatim>\<open>select\<close> returns with nothing
  ready and the first timeout that is due is the connection's communication, identification or incomplete message
  timeout, that cycle destroys the connection; its handler and its timeouts are gone and nothing changes for the
  others.\<close>

theorem silencio_encerra:
  assumes "alcancavel cfg w" and "cfg_tam_senha cfg \<le> 6" and "h \<in> set (items w)" and "classe_de w h = CTratador"
    and "r_rd r = []" and "r_wr r = []" and "r_ex r = []"
    and "t \<in> set (pending w)" and "to_callback (tobjs w t) \<in> {CbComm h, CbIdent h, CbMsgIncompleta h}"
    and "to_absolute (tobjs w t) \<le> r_agora r"
    and "\<forall>u\<in>set (pending w). u \<noteq> t \<longrightarrow> to_absolute (tobjs w t) < to_absolute (tobjs w u)"
  shows "\<exists>w'. ciclo cfg r w = Inr (True, w') \<and> items w' = remove1 h (items w) \<and> h \<notin> set (items w') \<and>
    (\<forall>u\<in>set (pending w'). to_owner (tobjs w' u) \<noteq> Some h) \<and>
    (\<forall>g. g \<noteq> h \<longrightarrow> conns w' g = conns w g \<and> trats w' g = trats w g \<and> coms w' g = coms w g) \<and> fotos w' = fotos w"
proof -
  let ?w = "w\<lparr>agora := r_agora r, amb := r_amb r\<rparr>"
  have i: "invar cfg ?w" by (rule invar_ambiente [OF alcancavel_inv [OF assms(1,2)]])
  have tk: "tok h ?w" using inv_tok [OF i, of h] assms(3,4) by simp
  have nx: "timeout_next ?w = (to_absolute (tobjs ?w t), Some t)"
    by (rule primeiro_prazo) (use assms(8,10,11) in simp_all)
  let ?v = "disparado t ?w"
  have it: "inv_tempo ?w" using tk by (simp add: tok_def)
  have v: "inv_tempo ?v" "\<not> h_destroyed (hobjs ?v h)" "h \<in> set (items ?v)" "destroyed_callback cfg h ?v = Inr ?v"
    using inv_tempo_remove1 [OF it] tk assms(3,4) by (simp_all add: disparado_def tok_def destroyed_callback_def)
  obtain W where W: "handler_destroy (destroyed_callback cfg) h ?v = Inr W" "items W = remove1 h (items ?v)"
    "dono W h = Map.empty" "trats W = trats ?v" "coms W = coms ?v" "conns W = conns ?v" "fotos W = fotos ?v"
    by (rule destroi [where dcb = "destroyed_callback cfg", OF v(2,4,3,1)]) blast
  have "timeout_handle (m_timeout (metodos_mundo cfg)) ?w = Inr (True, W)"
    using nx assms(9,10) W(1)
    by (auto simp: timeout_handle_def metodos_mundo_def chama_timeout_def timeout_comunicacao_def
        timeout_identificacao_def timeout_msgincompleta_def destroy_def disparado_def)
  then have "ciclo cfg r w = Inr (True, W)"
    using invar_continua [OF alcancavel_inv [OF assms(1,2)]] assms(5-7) by (simp add: cycle_def despacha_def)
  moreover have "\<forall>u\<in>set (pending W). to_owner (tobjs W u) \<noteq> Some h"
    using W(3) by (auto simp: dono_def de_def pv_def fun_eq_iff split: if_splits)
  moreover have "h \<notin> set (remove1 h (items w))"
    using inv_distinct [OF alcancavel_inv [OF assms(1,2)]] by simp
  ultimately show ?thesis using W by (simp add: disparado_def)
qed

theorem silencio_encerra_exemplo:
  "\<exists>w'. ciclo cfg_exemplo (resposta_exemplo [] 130 amb_exemplo) quieto_exemplo = Inr (True, w') \<and> 5 \<notin> set (items w')"
proof -
  have "to_callback (tobjs quieto_exemplo 6) \<in> {CbComm 5, CbIdent 5, CbMsgIncompleta 5}"
    "\<forall>u\<in>set (pending quieto_exemplo). u \<noteq> 6 \<longrightarrow>
      to_absolute (tobjs quieto_exemplo 6) < to_absolute (tobjs quieto_exemplo u)"
    using quieto_exemplo_prazos by simp_all
  with silencio_encerra [OF quieto_exemplo_alcancavel tam_exemplo, of 5 "resposta_exemplo [] 130 amb_exemplo" 6]
    quieto_exemplo_prazos show ?thesis
    by (simp add: resposta_exemplo_def) blast
qed











end
